(* ===== verification/Rust_Text.thy ===== *)
theory Rust_Text
  imports Prelude
begin

section \<open>Text: the operations of Rust's standard library the program uses\<close>

text \<open>
  Strings are the bytes of their UTF-8 encoding. Operations that look for an ASCII
  character or an ASCII word are the same on bytes and on characters, since no byte of a
  multi-byte sequence is ASCII. White space is not ASCII only: \<open>str::trim\<close> and
  \<open>char::is_whitespace\<close> use the Unicode property, so it is a table of UTF-8 sequences
  here. \<open>utf8_step\<close> is the decoder behind \<open>str::from_utf8\<close> and
  \<open>String::from_utf8_lossy\<close>.
\<close>

subsection \<open>Prefixes, suffixes, searching\<close>

definition starts_with :: "'a list \<Rightarrow> 'a list \<Rightarrow> bool" where
  "starts_with p s \<longleftrightarrow> take (length p) s = p"

definition ends_with :: "'a list \<Rightarrow> 'a list \<Rightarrow> bool" where
  "ends_with p s \<longleftrightarrow> drop (length s - length p) s = p"

definition strip_prefix :: "'a list \<Rightarrow> 'a list \<Rightarrow> 'a list option" where
  "strip_prefix p s = (if starts_with p s then Some (drop (length p) s) else None)"

fun contains_sub :: "'a list \<Rightarrow> 'a list \<Rightarrow> bool" where
  "contains_sub p [] \<longleftrightarrow> p = []"
| "contains_sub p (c # cs) \<longleftrightarrow> starts_with p (c # cs) \<or> contains_sub p cs"

fun split_once :: "'a \<Rightarrow> 'a list \<Rightarrow> ('a list \<times> 'a list) option" where
  "split_once d [] = None"
| "split_once d (c # cs) =
     (if c = d then Some ([], cs) else map_option (\<lambda>(a, b). (c # a, b)) (split_once d cs))"

lemma starts_with_append [simp]: "starts_with p (p @ s)"
  by (simp add: starts_with_def)

lemma starts_with_iff: "starts_with p s \<longleftrightarrow> (\<exists>r. s = p @ r)"
  by (metis append_eq_conv_conj append_take_drop_id starts_with_def)

lemma starts_with_Nil [simp]: "starts_with [] s"
  by (simp add: starts_with_def)

lemma starts_with_Cons [simp]: "starts_with (p # ps) (c # cs) \<longleftrightarrow> p = c \<and> starts_with ps cs"
  by (auto simp: starts_with_def)

lemma starts_with_Cons_Nil [simp]: "\<not> starts_with (p # ps) []"
  by (simp add: starts_with_def)

lemma ends_with_iff: "ends_with p s \<longleftrightarrow> (\<exists>r. s = r @ p)"
proof
  assume "ends_with p s"
  then show "\<exists>r. s = r @ p"
    by (metis append_take_drop_id ends_with_def)
qed (auto simp: ends_with_def)

lemma strip_prefix_eq_Some [simp]: "strip_prefix p s = Some r \<longleftrightarrow> s = p @ r"
  by (auto simp: strip_prefix_def starts_with_iff)

lemma strip_prefix_append [simp]: "strip_prefix p (p @ r) = Some r"
  by simp

lemma strip_prefix_simps [simp]:
  "strip_prefix [] s = Some s"
  "strip_prefix (p # ps) [] = None"
  "strip_prefix (p # ps) (c # cs) = (if p = c then strip_prefix ps cs else None)"
  by (simp_all add: strip_prefix_def)

lemma strip_prefix_eq_None: "strip_prefix p s = None \<longleftrightarrow> \<not> starts_with p s"
  by (simp add: strip_prefix_def)

lemma contains_sub_iff: "contains_sub p s \<longleftrightarrow> (\<exists>a b. s = a @ p @ b)"
proof (induction s)
  case Nil
  then show ?case by auto
next
  case (Cons c cs)
  have "(\<exists>a b. c # cs = a @ p @ b) \<longleftrightarrow> starts_with p (c # cs) \<or> (\<exists>a b. cs = a @ p @ b)"
    by (metis Cons_eq_append_conv append_Nil starts_with_iff)
  with Cons.IH show ?case by simp
qed

lemma split_once_Some:
  "split_once d s = Some (a, b) \<longleftrightarrow> s = a @ d # b \<and> d \<notin> set a"
proof (induction s arbitrary: a)
  case Nil
  then show ?case by simp
next
  case (Cons c cs)
  then show ?case by (cases a) auto
qed

lemma split_once_None: "split_once d s = None \<longleftrightarrow> d \<notin> set s"
  by (induction s) auto

lemma split_once_append [simp]: "d \<notin> set a \<Longrightarrow> split_once d (a @ d # b) = Some (a, b)"
  by (simp add: split_once_Some)

subsection \<open>ASCII case\<close>

definition is_upper :: "char \<Rightarrow> bool" where
  "is_upper c \<longleftrightarrow> 65 \<le> (of_char c :: nat) \<and> (of_char c :: nat) \<le> 90"

definition is_lower :: "char \<Rightarrow> bool" where
  "is_lower c \<longleftrightarrow> 97 \<le> (of_char c :: nat) \<and> (of_char c :: nat) \<le> 122"

fun set_case_bit :: "bool \<Rightarrow> char \<Rightarrow> char" where
  "set_case_bit b (Char b0 b1 b2 b3 b4 b5 b6 b7) = Char b0 b1 b2 b3 b4 b b6 b7"

definition ascii_lower :: "char \<Rightarrow> char" where
  "ascii_lower c = (if is_upper c then set_case_bit True c else c)"

definition ascii_upper :: "char \<Rightarrow> char" where
  "ascii_upper c = (if is_lower c then set_case_bit False c else c)"

abbreviation to_ascii_lowercase :: "string \<Rightarrow> string" where
  "to_ascii_lowercase \<equiv> map ascii_lower"

abbreviation to_ascii_uppercase :: "string \<Rightarrow> string" where
  "to_ascii_uppercase \<equiv> map ascii_upper"

definition eq_ignore_ascii_case :: "string \<Rightarrow> string \<Rightarrow> bool" where
  "eq_ignore_ascii_case s t \<longleftrightarrow> to_ascii_lowercase s = to_ascii_lowercase t"

lemma ascii_lower_idem [simp]: "ascii_lower (ascii_lower c) = ascii_lower c"
  by (cases c) (auto simp: ascii_lower_def is_upper_def)

lemma ascii_upper_idem [simp]: "ascii_upper (ascii_upper c) = ascii_upper c"
  by (cases c) (auto simp: ascii_upper_def is_lower_def)

subsection \<open>White space and trimming\<close>

text \<open>The code points of the Unicode property White_Space, in UTF-8.\<close>

definition white_space :: "string list" where
  "white_space =
     [[CHR 0x20], [CHR 0x09], [CHR 0x0A], [CHR 0x0B], [CHR 0x0C], [CHR 0x0D],
      [CHR 0xC2, CHR 0x85], [CHR 0xC2, CHR 0xA0], [CHR 0xE1, CHR 0x9A, CHR 0x80],
      [CHR 0xE2, CHR 0x80, CHR 0x80], [CHR 0xE2, CHR 0x80, CHR 0x81],
      [CHR 0xE2, CHR 0x80, CHR 0x82], [CHR 0xE2, CHR 0x80, CHR 0x83],
      [CHR 0xE2, CHR 0x80, CHR 0x84], [CHR 0xE2, CHR 0x80, CHR 0x85],
      [CHR 0xE2, CHR 0x80, CHR 0x86], [CHR 0xE2, CHR 0x80, CHR 0x87],
      [CHR 0xE2, CHR 0x80, CHR 0x88], [CHR 0xE2, CHR 0x80, CHR 0x89],
      [CHR 0xE2, CHR 0x80, CHR 0x8A], [CHR 0xE2, CHR 0x80, CHR 0xA8],
      [CHR 0xE2, CHR 0x80, CHR 0xA9], [CHR 0xE2, CHR 0x80, CHR 0xAF],
      [CHR 0xE2, CHR 0x81, CHR 0x9F], [CHR 0xE3, CHR 0x80, CHR 0x80]]"

text \<open>The length of the white-space character at the front (at the end); 0 if none.\<close>

definition ws_len :: "string \<Rightarrow> nat" where
  "ws_len s = (case find (\<lambda>w. starts_with w s) white_space of None \<Rightarrow> 0 | Some w \<Rightarrow> length w)"

definition ws_suffix_len :: "string \<Rightarrow> nat" where
  "ws_suffix_len s =
     (case find (\<lambda>w. ends_with w s) white_space of None \<Rightarrow> 0 | Some w \<Rightarrow> length w)"

lemma white_space_nonempty: "w \<in> set white_space \<Longrightarrow> w \<noteq> []"
  by (auto simp: white_space_def)

lemma ws_len_eq_0: "ws_len s = 0 \<longleftrightarrow> (\<forall>w \<in> set white_space. \<not> starts_with w s)"
  by (auto simp: ws_len_def find_None_iff find_Some_iff split: option.splits
      dest: white_space_nonempty [OF nth_mem])

lemma ws_suffix_len_eq_0: "ws_suffix_len s = 0 \<longleftrightarrow> (\<forall>w \<in> set white_space. \<not> ends_with w s)"
  by (auto simp: ws_suffix_len_def find_None_iff find_Some_iff split: option.splits
      dest: white_space_nonempty [OF nth_mem])

lemma ws_len_Nil [simp]: "ws_len [] = 0"
  by (auto simp: ws_len_eq_0 starts_with_def dest: white_space_nonempty)

lemma ws_suffix_len_Nil [simp]: "ws_suffix_len [] = 0"
  by (auto simp: ws_suffix_len_eq_0 ends_with_def dest: white_space_nonempty)

function trim_start :: "string \<Rightarrow> string" where
  "trim_start s = (if ws_len s = 0 then s else trim_start (drop (ws_len s) s))"
  by pat_completeness auto
termination
  by (relation "measure length") (auto intro!: diff_less simp: neq_Nil_conv [symmetric])

function trim_end :: "string \<Rightarrow> string" where
  "trim_end s =
     (if ws_suffix_len s = 0 then s else trim_end (take (length s - ws_suffix_len s) s))"
  by pat_completeness auto
termination
proof (relation "measure length")
  fix s assume "ws_suffix_len s \<noteq> 0"
  then have "s \<noteq> []" by (metis ws_suffix_len_Nil)
  with \<open>ws_suffix_len s \<noteq> 0\<close>
  show "(take (length s - ws_suffix_len s) s, s) \<in> measure length"
    by (auto intro: diff_less)
qed auto

declare trim_start.simps [simp del] trim_end.simps [simp del]

definition trim :: "string \<Rightarrow> string" where
  "trim s = trim_end (trim_start s)"

lemma ws_len_trim_start [simp]: "ws_len (trim_start s) = 0"
  by (induction s rule: trim_start.induct) (metis trim_start.simps)

lemma ws_suffix_len_trim_end [simp]: "ws_suffix_len (trim_end s) = 0"
  by (induction s rule: trim_end.induct) (metis trim_end.simps)

lemma trim_start_id: "ws_len s = 0 \<Longrightarrow> trim_start s = s"
  by (simp add: trim_start.simps)

lemma trim_end_id: "ws_suffix_len s = 0 \<Longrightarrow> trim_end s = s"
  by (simp add: trim_end.simps)

lemma trim_start_suffix: "\<exists>w. s = w @ trim_start s"
proof (induction s rule: trim_start.induct)
  case (1 s)
  show ?case
  proof (cases "ws_len s = 0")
    case True
    then show ?thesis by (simp add: trim_start_id)
  next
    case False
    with 1 obtain w where "drop (ws_len s) s = w @ trim_start (drop (ws_len s) s)" by blast
    then have "s = (take (ws_len s) s @ w) @ trim_start (drop (ws_len s) s)"
      by (metis append.assoc append_take_drop_id)
    moreover from False have "trim_start s = trim_start (drop (ws_len s) s)"
      by (simp add: trim_start.simps [of s])
    ultimately show ?thesis by metis
  qed
qed

lemma trim_end_prefix: "\<exists>w. s = trim_end s @ w"
proof (induction s rule: trim_end.induct)
  case (1 s)
  show ?case
  proof (cases "ws_suffix_len s = 0")
    case True
    then show ?thesis by (simp add: trim_end_id)
  next
    case False
    let ?t = "take (length s - ws_suffix_len s) s"
    from 1 False obtain w where "?t = trim_end ?t @ w" by blast
    then have "s = trim_end ?t @ w @ drop (length s - ws_suffix_len s) s"
      by (metis append.assoc append_take_drop_id)
    moreover from False have "trim_end s = trim_end ?t"
      by (simp add: trim_end.simps [of s])
    ultimately show ?thesis by metis
  qed
qed

lemma ws_len_append_left: "ws_len (a @ b) = 0 \<Longrightarrow> ws_len a = 0"
  by (auto simp: ws_len_eq_0 starts_with_iff)

lemma ws_len_trim_end: "ws_len s = 0 \<Longrightarrow> ws_len (trim_end s) = 0"
  by (metis trim_end_prefix ws_len_append_left)

lemma ws_len_trim [simp]: "ws_len (trim s) = 0"
  by (simp add: trim_def ws_len_trim_end)

lemma ws_suffix_len_trim [simp]: "ws_suffix_len (trim s) = 0"
  by (simp add: trim_def)

lemma trim_id: "ws_len s = 0 \<Longrightarrow> ws_suffix_len s = 0 \<Longrightarrow> trim s = s"
  by (simp add: trim_def trim_start_id trim_end_id)

lemma trim_idem [simp]: "trim (trim s) = trim s"
  by (rule trim_id) simp_all

lemma trim_Nil [simp]: "trim [] = []"
  by (simp add: trim_id)

lemma set_trim: "set (trim s) \<subseteq> set s"
  by (metis (no_types, lifting) Un_iff set_append subsetI trim_def trim_end_prefix trim_start_suffix)

text \<open>The ASCII white space, and strings the trimming does not touch.\<close>

definition ascii_space :: "char \<Rightarrow> bool" where
  "ascii_space c \<longleftrightarrow> c \<in> {CHR 0x20, CHR 0x09, CHR 0x0A, CHR 0x0B, CHR 0x0C, CHR 0x0D}"

definition is_ascii_char :: "char \<Rightarrow> bool" where
  "is_ascii_char c \<longleftrightarrow> (of_char c :: nat) < 128"

lemma white_space_ends:
  assumes "w \<in> set white_space"
  shows "(ascii_space (hd w) \<or> \<not> is_ascii_char (hd w)) \<and>
    (ascii_space (last w) \<or> \<not> is_ascii_char (last w))"
proof -
  have "list_all (\<lambda>w. (ascii_space (hd w) \<or> \<not> is_ascii_char (hd w)) \<and>
    (ascii_space (last w) \<or> \<not> is_ascii_char (last w))) white_space"
    by (simp add: white_space_def ascii_space_def is_ascii_char_def)
  with assms show ?thesis by (simp add: list_all_iff)
qed

lemma ascii_space_white_space: "ascii_space c \<Longrightarrow> [c] \<in> set white_space"
  by (auto simp: ascii_space_def white_space_def)

lemma ws_len_space: "ascii_space c \<Longrightarrow> ws_len (c # s) \<noteq> 0"
  by (auto simp: ws_len_eq_0 dest!: ascii_space_white_space intro!: bexI [of _ "[c]"])

lemma ws_len_ascii:
  assumes "is_ascii_char c" and "\<not> ascii_space c"
  shows "ws_len (c # s) = 0"
proof -
  have "\<not> starts_with w (c # s)" if "w \<in> set white_space" for w
    using white_space_ends [OF that] white_space_nonempty [OF that] assms by (cases w) auto
  then show ?thesis by (simp add: ws_len_eq_0)
qed

lemma ws_suffix_len_ascii:
  assumes "is_ascii_char c" and "\<not> ascii_space c"
  shows "ws_suffix_len (s @ [c]) = 0"
proof -
  have "\<not> ends_with w (s @ [c])" if "w \<in> set white_space" for w
    using white_space_ends [OF that] white_space_nonempty [OF that] assms
    by (cases w rule: rev_cases) (auto simp: ends_with_iff)
  then show ?thesis by (simp add: ws_suffix_len_eq_0)
qed

lemma trim_not_space: "trim s = c # r \<Longrightarrow> \<not> ascii_space c"
  by (metis ws_len_space ws_len_trim)

lemma trim_ascii_id:
  assumes "s = [] \<or> (is_ascii_char (hd s) \<and> \<not> ascii_space (hd s)
    \<and> is_ascii_char (last s) \<and> \<not> ascii_space (last s))"
  shows "trim s = s"
proof (cases "s = []")
  case False
  with assms have "ws_len (hd s # tl s) = 0" and "ws_suffix_len (butlast s @ [last s]) = 0"
    by (blast intro: ws_len_ascii ws_suffix_len_ascii)+
  with False show ?thesis by (simp add: trim_id)
qed simp

subsection \<open>Decimal numbers\<close>

definition digit_char :: "nat \<Rightarrow> char" where
  "digit_char n = ''0123456789'' ! n"

definition is_digit :: "char \<Rightarrow> bool" where
  "is_digit c \<longleftrightarrow> 48 \<le> (of_char c :: nat) \<and> (of_char c :: nat) \<le> 57"

definition digit_val :: "char \<Rightarrow> nat" where
  "digit_val c = of_char c - 48"

text \<open>\<open>Display\<close> of the unsigned and of the signed integers.\<close>

fun show_nat :: "nat \<Rightarrow> string" where
  "show_nat n =
     (if n < 10 then [digit_char n] else show_nat (n div 10) @ [digit_char (n mod 10)])"

declare show_nat.simps [simp del]

definition show_int :: "int \<Rightarrow> string" where
  "show_int i = (if i < 0 then ''-'' @ show_nat (nat (- i)) else show_nat (nat i))"

definition nat_of_digits :: "string \<Rightarrow> nat" where
  "nat_of_digits s = foldl (\<lambda>n c. 10 * n + digit_val c) 0 s"

text \<open>
  \<open>str::parse\<close> for an unsigned type with maximum \<open>m\<close> and for \<open>i32\<close>: an optional
  sign (for the unsigned types only a plus), at least one digit, nothing else, in range.
\<close>

definition parse_digits :: "string \<Rightarrow> nat option" where
  "parse_digits s = (if s \<noteq> [] \<and> list_all is_digit s then Some (nat_of_digits s) else None)"

definition parse_unsigned :: "nat \<Rightarrow> string \<Rightarrow> nat option" where
  "parse_unsigned m s =
     (case parse_digits (if starts_with ''+'' s then tl s else s) of
       None \<Rightarrow> None
     | Some n \<Rightarrow> if n \<le> m then Some n else None)"

definition parse_word :: "string \<Rightarrow> 'a::len word option" where
  "parse_word s = map_option of_nat (parse_unsigned (2 ^ LENGTH('a) - 1) s)"

definition parse_i32 :: "string \<Rightarrow> int option" where
  "parse_i32 s =
     (if starts_with ''-'' s then
        (case parse_digits (tl s) of
          None \<Rightarrow> None
        | Some n \<Rightarrow> if n \<le> 2147483648 then Some (- int n) else None)
      else map_option int (parse_unsigned 2147483647 s))"

lemma digit_char_cases: "n < 10 \<Longrightarrow> is_digit (digit_char n) \<and> digit_val (digit_char n) = n"
proof -
  have "\<forall>n \<in> set [0..<10]. is_digit (digit_char n) \<and> digit_val (digit_char n) = n"
    by code_simp
  then show "n < 10 \<Longrightarrow> ?thesis" by simp
qed

lemma is_digit_ascii: "is_digit c \<Longrightarrow> is_ascii_char c \<and> \<not> ascii_space c"
  by (auto simp: is_digit_def is_ascii_char_def ascii_space_def)

lemma show_nat_digits: "show_nat n \<noteq> [] \<and> list_all is_digit (show_nat n)"
proof (induction n rule: show_nat.induct)
  case (1 n)
  then show ?case by (subst (1 2) show_nat.simps) (simp add: digit_char_cases)
qed

lemma nat_of_digits_snoc [simp]: "nat_of_digits (s @ [c]) = 10 * nat_of_digits s + digit_val c"
  by (simp add: nat_of_digits_def)

lemma nat_of_digits_show [simp]: "nat_of_digits (show_nat n) = n"
proof (induction n rule: show_nat.induct)
  case (1 n)
  show ?case
  proof (cases "n < 10")
    case True
    then show ?thesis
      by (simp add: show_nat.simps [of n] digit_char_cases nat_of_digits_def)
  next
    case False
    with 1 show ?thesis by (simp add: show_nat.simps [of n] digit_char_cases)
  qed
qed

lemma show_nat_inject [simp]: "show_nat m = show_nat n \<longleftrightarrow> m = n"
  by (metis nat_of_digits_show)

lemma parse_digits_show [simp]: "parse_digits (show_nat n) = Some n"
  using show_nat_digits [of n] by (simp add: parse_digits_def)

lemma show_nat_hd: "is_digit (hd (show_nat n))" and show_nat_last: "is_digit (last (show_nat n))"
  using show_nat_digits [of n] by (auto simp: list_all_iff)

lemma show_nat_no_sign: "\<not> starts_with ''+'' (show_nat n)" "\<not> starts_with ''-'' (show_nat n)"
  using show_nat_hd [of n] show_nat_digits [of n]
  by (auto simp: starts_with_iff is_digit_def)

lemma parse_unsigned_show [simp]:
  "parse_unsigned m (show_nat n) = (if n \<le> m then Some n else None)"
  by (simp add: parse_unsigned_def show_nat_no_sign)

lemma parse_word_show [simp]: "parse_word (show_nat (unat w)) = Some w" for w :: "'a::len word"
proof -
  have "unat w \<le> 2 ^ LENGTH('a) - 1"
    by (metis Suc_pred' less_Suc_eq_le nat_zero_less_power_iff unat_bound zero_less_numeral)
  then show ?thesis by (simp add: parse_word_def)
qed

lemma parse_i32_show:
  "- 2147483648 \<le> i \<Longrightarrow> i \<le> 2147483647 \<Longrightarrow> parse_i32 (show_int i) = Some i"
  by (auto simp: parse_i32_def show_int_def show_nat_no_sign)

lemma trim_show_nat [simp]: "trim (show_nat n) = show_nat n"
  by (rule trim_ascii_id) (use show_nat_hd show_nat_last is_digit_ascii in blast)

lemma trim_show_int [simp]: "trim (show_int i) = show_int i"
proof (cases "i < 0")
  case True
  have "is_ascii_char CHR ''-''" and "\<not> ascii_space CHR ''-''"
    by (simp_all add: is_ascii_char_def ascii_space_def)
  with True show ?thesis
    using show_nat_digits is_digit_ascii [OF show_nat_last]
    by (intro trim_ascii_id) (auto simp: show_int_def)
qed (simp add: show_int_def)

subsection \<open>UTF-8\<close>

text \<open>
  \<open>utf8_step\<close> looks at the front of a byte string: the number of bytes it consumes and
  whether they are the encoding of a character. Of an invalid sequence it consumes the
  longest part that could still have become valid, at least one byte.
\<close>

definition utf8_width :: "u8 \<Rightarrow> nat" where
  "utf8_width b =
     (if b < 0x80 then 1 else if b < 0xC2 then 0 else if b < 0xE0 then 2
      else if b < 0xF0 then 3 else if b < 0xF5 then 4 else 0)"

definition utf8_second :: "u8 \<Rightarrow> u8 \<times> u8" where
  "utf8_second b =
     (if b = 0xE0 then (0xA0, 0xBF) else if b = 0xED then (0x80, 0x9F)
      else if b = 0xF0 then (0x90, 0xBF) else if b = 0xF4 then (0x80, 0x8F)
      else (0x80, 0xBF))"

fun utf8_conts :: "nat \<Rightarrow> u8 \<Rightarrow> u8 \<Rightarrow> bytes \<Rightarrow> nat" where
  "utf8_conts 0 lo hi bs = 0"
| "utf8_conts (Suc n) lo hi [] = 0"
| "utf8_conts (Suc n) lo hi (b # bs) =
     (if lo \<le> b \<and> b \<le> hi then Suc (utf8_conts n 0x80 0xBF bs) else 0)"

definition utf8_step :: "u8 \<Rightarrow> bytes \<Rightarrow> nat \<times> bool" where
  "utf8_step b bs =
     (case utf8_width b of
       0 \<Rightarrow> (1, False)
     | Suc n \<Rightarrow>
         (case utf8_second b of
           (lo, hi) \<Rightarrow> let k = utf8_conts n lo hi bs in (Suc k, k = n)))"

lemma utf8_step_pos: "utf8_step b bs = (n, ok) \<Longrightarrow> 0 < n"
  by (auto simp: utf8_step_def Let_def split: nat.splits prod.splits)

lemma utf8_step_shrinks:
  "length (drop (fst (utf8_step b bs)) (b # bs)) < length (b # bs)"
  using utf8_step_pos [of b bs] by (cases "utf8_step b bs") auto

function utf8_valid :: "bytes \<Rightarrow> bool" where
  "utf8_valid [] = True"
| "utf8_valid (b # bs) =
     (snd (utf8_step b bs) \<and> utf8_valid (drop (fst (utf8_step b bs)) (b # bs)))"
  by pat_completeness auto
termination
  by (relation "measure length") (use utf8_step_shrinks in auto)

function utf8_lossy :: "bytes \<Rightarrow> string" where
  "utf8_lossy [] = []"
| "utf8_lossy (b # bs) =
     (case utf8_step b bs of
       (n, ok) \<Rightarrow>
         (if ok then string_of_bytes (take n (b # bs)) else [CHR 0xEF, CHR 0xBF, CHR 0xBD])
         @ utf8_lossy (drop n (b # bs)))"
  by pat_completeness auto
termination
  by (relation "measure length") (auto, metis diff_less prod.collapse prod.inject
      utf8_step_pos zero_less_Suc)

declare utf8_valid.simps(2) [simp del] utf8_lossy.simps(2) [simp del]

definition from_utf8 :: "bytes \<Rightarrow> string option" where
  "from_utf8 bs = (if utf8_valid bs then Some (string_of_bytes bs) else None)"

lemma utf8_lossy_valid: "utf8_valid bs \<Longrightarrow> utf8_lossy bs = string_of_bytes bs"
proof (induction bs rule: utf8_valid.induct)
  case (2 b bs)
  obtain n ok where step: "utf8_step b bs = (n, ok)" by fastforce
  with 2 have "utf8_lossy (drop n (b # bs)) = string_of_bytes (drop n (b # bs))" and ok
    by (simp_all add: utf8_valid.simps(2))
  then have "utf8_lossy (b # bs) = string_of_bytes (take n (b # bs)) @ string_of_bytes (drop n (b # bs))"
    using step by (simp add: utf8_lossy.simps(2))
  then show ?case
    by (metis append_take_drop_id map_append string_of_bytes_def)
qed (simp add: string_of_bytes_def)

lemma utf8_step_ascii: "b < 0x80 \<Longrightarrow> utf8_step b bs = (1, True)"
  by (simp add: utf8_step_def utf8_width_def split: prod.splits)

lemma utf8_valid_ascii: "list_all (\<lambda>b. b < 0x80) bs \<Longrightarrow> utf8_valid bs"
  by (induction bs) (simp_all add: utf8_valid.simps(2) utf8_step_ascii)

lemma utf8_lossy_ascii: "list_all (\<lambda>b. b < 0x80) bs \<Longrightarrow> utf8_lossy bs = string_of_bytes bs"
  by (simp add: utf8_valid_ascii utf8_lossy_valid)

end
