(* ===== verification/Ordered_Map.thy ===== *)
theory Ordered_Map
  imports Rust_Text
begin

section \<open>Ordered maps: the interface of \<open>BTreeMap\<close> and its model\<close>

text \<open>
  The program keeps its properties and its environment in \<open>BTreeMap<String, String>\<close>
  and iterates over them in key order. The locale states what the clients rely on; the
  model is a list of pairs sorted by key. Rust orders strings by their bytes, and so does
  the lexicographic order on \<open>string\<close>.
\<close>

locale ordered_map =
  fixes empty :: "'m"
    and insert :: "'k::linorder \<Rightarrow> 'v \<Rightarrow> 'm \<Rightarrow> 'm"
    and get :: "'m \<Rightarrow> 'k \<Rightarrow> 'v option"
    and entries :: "'m \<Rightarrow> ('k \<times> 'v) list"
    and invar :: "'m \<Rightarrow> bool"
  assumes invar_empty: "invar empty"
    and get_empty: "get empty k = None"
    and invar_insert: "invar m \<Longrightarrow> invar (insert k v m)"
    and get_insert: "invar m \<Longrightarrow> get (insert k v m) k' = (if k' = k then Some v else get m k')"
    and entries_sorted: "invar m \<Longrightarrow> sorted (map fst (entries m)) \<and> distinct (map fst (entries m))"
    and map_of_entries: "invar m \<Longrightarrow> map_of (entries m) k = get m k"
begin

lemma in_entries_iff: "invar m \<Longrightarrow> (k, v) \<in> set (entries m) \<longleftrightarrow> get m k = Some v"
  using entries_sorted [of m] map_of_entries [of m k] by (metis map_of_eq_Some_iff)

lemma key_in_entries: "invar m \<Longrightarrow> k \<in> fst ` set (entries m) \<longleftrightarrow> get m k \<noteq> None"
  using map_of_entries [of m k] by (metis map_of_eq_None_iff)

lemma entries_ext:
  assumes "invar m" and "invar m'" and "\<And>k. get m k = get m' k"
  shows "entries m = entries m'"
proof -
  have "set (entries m) = set (entries m')"
    using assms in_entries_iff by (auto simp: set_eq_iff)
  then show ?thesis
    using entries_sorted [OF assms(1)] entries_sorted [OF assms(2)]
    by (intro map_sorted_distinct_set_unique [where f = fst])
      (auto simp: distinct_map inj_on_def intro!: inj_onI dest!: eq_key_imp_eq_value)
qed

lemma insert_insert_same: "invar m \<Longrightarrow> entries (insert k v (insert k w m)) = entries (insert k v m)"
  by (rule entries_ext) (simp_all add: invar_insert get_insert)

lemma insert_commute:
  "invar m \<Longrightarrow> k \<noteq> l \<Longrightarrow> entries (insert k v (insert l w m)) = entries (insert l w (insert k v m))"
  by (rule entries_ext) (simp_all add: invar_insert get_insert)

lemma invar_fold_insert: "invar m \<Longrightarrow> invar (fold (\<lambda>(k, v). insert k v) kvs m)"
  by (induction kvs arbitrary: m) (auto simp: invar_insert)

end

subsection \<open>The model: a list of pairs sorted by key\<close>

type_synonym ('k, 'v) btree_map = "('k \<times> 'v) list"
type_synonym str_map = "(string, string) btree_map"

fun bt_insert :: "'k::linorder \<Rightarrow> 'v \<Rightarrow> ('k, 'v) btree_map \<Rightarrow> ('k, 'v) btree_map" where
  "bt_insert k v [] = [(k, v)]"
| "bt_insert k v ((l, w) # m) =
     (if k < l then (k, v) # (l, w) # m
      else if k = l then (k, v) # m
      else (l, w) # bt_insert k v m)"

definition bt_get :: "('k::linorder, 'v) btree_map \<Rightarrow> 'k \<Rightarrow> 'v option" where
  "bt_get m k = map_of m k"

definition bt_invar :: "('k::linorder, 'v) btree_map \<Rightarrow> bool" where
  "bt_invar m \<longleftrightarrow> sorted (map fst m) \<and> distinct (map fst m)"

lemma keys_bt_insert: "fst ` set (bt_insert k v m) = Set.insert k (fst ` set m)"
  by (induction k v m rule: bt_insert.induct) auto

lemma bt_invar_Cons:
  "bt_invar (p # m) \<longleftrightarrow> bt_invar m \<and> (\<forall>k \<in> fst ` set m. fst p < k)"
  by (auto simp: bt_invar_def order.order_iff_strict)

lemma bt_invar_insert: "bt_invar m \<Longrightarrow> bt_invar (bt_insert k v m)"
  by (induction k v m rule: bt_insert.induct)
    (auto simp: bt_invar_Cons keys_bt_insert bt_invar_def [of "[]"] simp del: image_iff
      dest: less_trans)

lemma bt_get_insert [simp]:
  "bt_get (bt_insert k v m) k' = (if k' = k then Some v else bt_get m k')"
  by (induction k v m rule: bt_insert.induct) (auto simp: bt_get_def)

lemma bt_get_Nil [simp]: "bt_get [] k = None"
  by (simp add: bt_get_def)

lemma bt_invar_sorted: "bt_invar m \<Longrightarrow> sorted (map fst m) \<and> distinct (map fst m)"
  by (simp add: bt_invar_def)

lemma bt_invar_Nil [simp]: "bt_invar []"
  by (simp add: bt_invar_def)

interpretation bt: ordered_map "[]" bt_insert bt_get "\<lambda>m. m" bt_invar
  by unfold_locales (simp_all add: bt_invar_insert bt_invar_sorted bt_get_def [symmetric])

end
