(* ===== verification/Platform.thy ===== *)
theory Platform
  imports Ordered_Map
begin

section \<open>Errors, and what the program asks of its platform\<close>

text \<open>
  The error type of \<open>src/error.rs\<close> with its \<open>Display\<close> texts, and a record with the
  operating system, the path syntax and the third-party character-set decoder as
  parameters. A definition that depends on them takes the record as its first argument, so
  every theorem holds for each platform; what a theorem needs of it is a hypothesis.
\<close>

subsection \<open>Errors\<close>

datatype error_kind = NotFound | AddrInUse | Interrupted | WouldBlock | TimedOut | OtherKind

datatype io_error = Io_Error (kind: error_kind) (io_text: string)

datatype error =
    Error_Cli string
  | Error_ConfigRead string io_error
  | Error_ConfigSyntax string nat string
  | Error_Config string
  | Error_Io io_error
  | Error_Protocol string
  | Error_Service string
  | Error_DiagnosticUnavailable string
  | Error_UnsupportedPlatform string

text \<open>\<open>Path::display\<close> and \<open>OsStr::to_string_lossy\<close>.\<close>

definition display :: "string \<Rightarrow> string" where
  "display p = utf8_lossy (as_bytes p)"

lemma ascii_byte: "is_ascii_char c \<Longrightarrow> (of_char c :: u8) < 0x80"
  by (simp add: is_ascii_char_def word_less_nat_alt unat_of_char)

lemma display_ascii_append: "list_all is_ascii_char s \<Longrightarrow> display (s @ t) = s @ display t"
  by (induction s)
    (simp_all add: display_def as_bytes_def utf8_lossy.simps(2) utf8_step_ascii ascii_byte
      string_of_bytes_def)

lemma display_ascii: "list_all is_ascii_char s \<Longrightarrow> display s = s"
  using display_ascii_append [of s "[]"] by (simp add: display_def as_bytes_def)

lemma show_nat_ascii: "list_all is_ascii_char (show_nat n)"
  using show_nat_digits [of n] is_digit_ascii by (auto simp: list_all_iff)

fun error_text :: "error \<Rightarrow> string" where
  "error_text (Error_Cli s) = ''invalid arguments: '' @ s"
| "error_text (Error_ConfigRead path source) =
     ''could not read the configuration file '' @ display path @ '': '' @ io_text source"
| "error_text (Error_ConfigSyntax path line message) =
     ''invalid configuration in '' @ display path @ '':'' @ show_nat line @ '': '' @ message"
| "error_text (Error_Config s) = ''invalid configuration: '' @ s"
| "error_text (Error_Io e) = ''I/O error: '' @ io_text e"
| "error_text (Error_Protocol s) = ''control channel error: '' @ s"
| "error_text (Error_Service s) = ''Windows service error: '' @ s"
| "error_text (Error_DiagnosticUnavailable s) = ''diagnostic capability unavailable: '' @ s"
| "error_text (Error_UnsupportedPlatform s) =
     ''this operation is not supported on the current platform: '' @ s"

subsection \<open>The platform\<close>

text \<open>
  Paths are strings; their syntax (drive letters, separators) is the platform's. The files
  the program only reads are a snapshot. An encoding of the decoder library is identified
  by its canonical name; decoding also tells whether there were malformed sequences.
  \<open>to_uppercase\<close> is the full Unicode mapping.
\<close>

record platform =
  is_absolute :: "string \<Rightarrow> bool"
  path_join :: "string \<Rightarrow> string \<Rightarrow> string"
  path_parent :: "string \<Rightarrow> string option"
  path_file_name :: "string \<Rightarrow> string option"
  path_extension :: "string \<Rightarrow> string option"
  path_component_count :: "string \<Rightarrow> nat"
  is_dir :: "string \<Rightarrow> bool"
  is_file :: "string \<Rightarrow> bool"
  read_dir :: "string \<Rightarrow> io_error + string list"
  canonicalize :: "string \<Rightarrow> io_error + string"
  read_file :: "string \<Rightarrow> io_error + bytes"
  env_vars :: "(string \<times> string) list"
  to_uppercase :: "string \<Rightarrow> string"
  encoding_for_label :: "bytes \<Rightarrow> string option"
  encoding_decode :: "string \<Rightarrow> bytes \<Rightarrow> string \<times> bool"
  split_paths :: "string \<Rightarrow> string list"
  windows :: bool
  process_id :: u32

subsection \<open>A concrete platform\<close>

text \<open>
  A platform to evaluate the model on: slash-separated paths, the given files and
  environment variables, the ASCII part of the upper-case mapping, and a decoder that
  knows one encoding.
\<close>

definition last_slash :: "string \<Rightarrow> nat option" where
  "last_slash p =
     (let k = length (takeWhile (\<lambda>c. c \<noteq> CHR ''/'') (rev p))
      in if k = length p then None else Some (length p - k - 1))"

definition simple_platform :: "(string \<times> bytes) list \<Rightarrow> (string \<times> string) list \<Rightarrow> platform" where
  "simple_platform files vars =
     \<lparr>is_absolute = starts_with ''/'',
      path_join = (\<lambda>a b. if starts_with ''/'' b then b else a @ ''/'' @ b),
      path_parent = (\<lambda>p. case last_slash p of None \<Rightarrow> if p = [] then None else Some []
                          | Some i \<Rightarrow> Some (take i p)),
      path_file_name = (\<lambda>p. case last_slash p of None \<Rightarrow> if p = [] then None else Some p
                             | Some i \<Rightarrow> if Suc i = length p then None else Some (drop (Suc i) p)),
      path_extension = (\<lambda>p. if ends_with ''.jar'' p then Some ''jar'' else None),
      path_component_count = (\<lambda>p. case last_slash p of None \<Rightarrow> 1 | Some _ \<Rightarrow> 2),
      is_dir = (\<lambda>p. list_ex (\<lambda>(f, _). starts_with (p @ ''/'') f) files),
      is_file = (\<lambda>p. map_of files p \<noteq> None),
      read_dir = (\<lambda>p. Inr (filter (starts_with (p @ ''/'')) (map fst files))),
      canonicalize = (\<lambda>p. if map_of files p = None
                           then Inl (Io_Error NotFound ''no such file'') else Inr p),
      read_file = (\<lambda>p. ok_or (Io_Error NotFound ''no such file'') (map_of files p)),
      env_vars = vars,
      to_uppercase = to_ascii_uppercase,
      encoding_for_label = (\<lambda>l. if l = as_bytes ''utf-8'' then Some ''UTF-8'' else None),
      encoding_decode = (\<lambda>e bs. (utf8_lossy bs, \<not> utf8_valid bs)),
      split_paths = (\<lambda>s. [s]),
      windows = True,
      process_id = 4242\<rparr>"

end
