(* ===== verification/Config.thy ===== *)
theory Config
  imports Platform
begin

section \<open>Configuration: \<open>src/config.rs\<close>\<close>

text \<open>
  The model of the \<open>wrapper.conf\<close> loader: the text functions (continuation lines,
  comments, variable expansion), the \<open>Loader\<close> with its environment, its locked names,
  its include stack and its warnings, the \<open>Config\<close> it yields with its typed accessors,
  and the encoding of the properties for the JVM. Then the lemmas on each of them.
\<close>

subsection \<open>Data\<close>

datatype warning_level = Info_Level | Warn_Level

record warning =
  warning_level :: warning_level
  warning_message :: string

definition warn :: "string \<Rightarrow> warning" where
  "warn m = \<lparr>warning_level = Warn_Level, warning_message = m\<rparr>"

definition info :: "string \<Rightarrow> warning" where
  "info m = \<lparr>warning_level = Info_Level, warning_message = m\<rparr>"

record config =
  root_path :: string
  executable_directory :: string
  properties :: str_map
  environment :: str_map
  warnings :: "warning list"

record loader =
  ld_executable_directory :: string
  ld_properties :: str_map
  ld_environment :: str_map
  locked_environment :: "string list"
  include_stack :: "string list"
  ld_warnings :: "warning list"

definition max_include_depth :: nat where
  "max_include_depth = 10"

definition push_warning :: "warning \<Rightarrow> loader \<Rightarrow> loader" where
  "push_warning w L = L\<lparr>ld_warnings := ld_warnings L @ [w]\<rparr>"

subsection \<open>Text functions\<close>

definition normalize_environment_name :: "platform \<Rightarrow> string \<Rightarrow> string" where
  "normalize_environment_name P name = to_uppercase P name"

definition remove_grouping_quotes :: "string \<Rightarrow> string" where
  "remove_grouping_quotes value =
     (if 2 \<le> length value
        \<and> ((hd value = CHR 0x22 \<and> last value = CHR 0x22)
           \<or> (hd value = CHR 0x27 \<and> last value = CHR 0x27))
      then butlast (tl value) else value)"

definition is_sensitive_name :: "string \<Rightarrow> bool" where
  "is_sensitive_name name \<longleftrightarrow>
     list_ex (\<lambda>needle. contains_sub needle (to_ascii_lowercase name))
       [''password'', ''secret'', ''token'', ''key'', ''credential'', ''vault'']"

definition redacted_value :: "string \<Rightarrow> string \<Rightarrow> string" where
  "redacted_value name value = (if is_sensitive_name name then ''<redacted>'' else value)"

text \<open>
  The loop over the text left to scan: a \<open>%\<close> with no partner ends it, and neither an
  expansion nor the name of an unknown variable is scanned again.
\<close>

function expand_environment :: "platform \<Rightarrow> string \<Rightarrow> str_map \<Rightarrow> string" where
  "expand_environment P remaining env =
     (case split_once CHR ''%'' remaining of
       None \<Rightarrow> remaining
     | Some (before, after_start) \<Rightarrow>
         (case split_once CHR ''%'' after_start of
           None \<Rightarrow> before @ CHR ''%'' # after_start
         | Some (name, rest) \<Rightarrow>
             before
             @ (case bt_get env (normalize_environment_name P name) of
                 Some expansion \<Rightarrow> expansion
               | None \<Rightarrow> CHR ''%'' # name @ [CHR ''%''])
             @ expand_environment P rest env))"
  by pat_completeness auto
termination
  by (relation "measure (\<lambda>(P, s, env). length s)") (auto simp: split_once_Some)

declare expand_environment.simps [simp del]

fun decode_hash_comments :: "string \<Rightarrow> string" where
  "decode_hash_comments [] = []"
| "decode_hash_comments (c # cs) =
     (if c \<noteq> CHR ''#'' then c # decode_hash_comments cs
      else case cs of
        [] \<Rightarrow> []
      | d # ds \<Rightarrow> if d = CHR ''#'' then CHR ''#'' # decode_hash_comments ds else [])"

definition split_property :: "string \<Rightarrow> (string \<times> string) option" where
  "split_property line = map_option (\<lambda>(name, value). (trim name, value)) (split_once CHR ''='' line)"

fun parse_include_with :: "string list \<Rightarrow> string \<Rightarrow> (string \<times> string) option" where
  "parse_include_with [] line = None"
| "parse_include_with (directive # ds) line =
     (case strip_prefix directive line of
       None \<Rightarrow> parse_include_with ds line
     | Some rest \<Rightarrow>
         if rest = [] then Some (directive, rest)
         else if ws_len rest \<noteq> 0 \<or> starts_with ''='' rest then
           Some (directive, dropWhile (\<lambda>c. c \<in> {CHR 0x20, CHR 0x09, CHR ''=''}) rest)
         else parse_include_with ds line)"

definition parse_include :: "string \<Rightarrow> (string \<times> string) option" where
  "parse_include line =
     parse_include_with [''#include.required'', ''#include.debug'', ''#include''] line"

text \<open>\<open>str::lines\<close>, and the joining of physical lines that end in a backslash.\<close>

function str_lines :: "string \<Rightarrow> string list" where
  "str_lines s =
     (case split_once CHR 0x0A s of
       None \<Rightarrow> if s = [] then [] else [s]
     | Some (a, rest) \<Rightarrow>
         (if a \<noteq> [] \<and> last a = CHR 0x0D then butlast a else a) # str_lines rest)"
  by pat_completeness auto
termination
  by (relation "measure length") (auto simp: split_once_Some)

declare str_lines.simps [simp del]

definition trim_end_cr :: "string \<Rightarrow> string" where
  "trim_end_cr s = rev (dropWhile (\<lambda>c. c = CHR 0x0D) (rev s))"

definition slash_count :: "string \<Rightarrow> nat" where
  "slash_count s = length (takeWhile (\<lambda>c. c = CHR 0x5C) (rev s))"

definition logical_step :: "string list \<times> string \<Rightarrow> string \<Rightarrow> string list \<times> string" where
  "logical_step st physical =
     (case st of (output, pending) \<Rightarrow>
       let without_cr = trim_end_cr physical in
       if slash_count without_cr mod 2 = 1 then (output, pending @ butlast without_cr)
       else if pending = [] then (output @ [without_cr], pending)
       else (output @ [pending @ without_cr], []))"

definition logical_lines :: "string \<Rightarrow> string list" where
  "logical_lines text =
     (case foldl logical_step ([], []) (str_lines text) of
       (output, pending) \<Rightarrow> if pending \<noteq> [] then output @ [pending] else output)"

subsection \<open>Decoding a configuration file\<close>

definition first_line_encoding_label :: "bytes \<Rightarrow> string option" where
  "first_line_encoding_label bs =
     (let first = takeWhile (\<lambda>b. b \<noteq> 0x0A) bs;
          unmarked = (case strip_prefix [0xEF, 0xBB, 0xBF] first of None \<Rightarrow> first | Some r \<Rightarrow> r)
      in case from_utf8 unmarked of
           None \<Rightarrow> None
         | Some s \<Rightarrow>
             (case strip_prefix ''#encoding='' (trim s) of
               None \<Rightarrow> None
             | Some value \<Rightarrow> Some (remove_grouping_quotes (trim value))))"

definition decode_configuration ::
    "platform \<Rightarrow> bytes \<Rightarrow> string \<Rightarrow> error + (string \<times> string option)" where
  "decode_configuration P bs path =
     (let label = first_line_encoding_label bs in
      bind_result
        (case label of
          Some l \<Rightarrow>
            ok_or (Error_ConfigSyntax path 1 (''unknown encoding: '' @ l))
              (encoding_for_label P (as_bytes l))
        | None \<Rightarrow> Inr (if utf8_valid bs then ''UTF-8'' else ''windows-1252''))
        (\<lambda>encoding.
          case encoding_decode P encoding bs of
            (decoded, had_errors) \<Rightarrow>
              Inr (decoded,
                if had_errors then
                  Some (display path @ '' contains byte sequences that are invalid for '' @ encoding)
                else if label = None \<and> encoding = ''windows-1252'' then
                  Some (display path @ '' is not UTF-8; it was read as windows-1252'')
                else None)))"

subsection \<open>Supported properties\<close>

definition ignored_wrapper_property_prefixes :: "string list" where
  "ignored_wrapper_property_prefixes = [''wrapper.license.'']"

definition supported_jss_properties :: "string list" where
  "supported_jss_properties =
     [''jss.threaddump.method'', ''jss.threaddump.timeout'', ''jss.heapdump.control_code'',
      ''jss.heapdump.directory'', ''jss.heapdump.timeout'', ''jss.java.job_object'']"

definition supported_numbered_wrapper_property_prefixes :: "string list" where
  "supported_numbered_wrapper_property_prefixes =
     [''wrapper.java.additional.'', ''wrapper.java.classpath.'', ''wrapper.java.library.path.'',
      ''wrapper.app.parameter.'', ''wrapper.filter.trigger.'', ''wrapper.filter.action.'',
      ''wrapper.filter.allow_wildcards.'', ''wrapper.filter.message.'', ''wrapper.on_exit.'',
      ''wrapper.ntservice.dependency.'']"

definition supported_wrapper_properties :: "string list" where
  "supported_wrapper_properties =
     [''wrapper.java.command'', ''wrapper.java.mainclass'', ''wrapper.java.additional.auto_bits'',
      ''wrapper.java.initmemory'', ''wrapper.java.maxmemory'', ''wrapper.java.command.loglevel'',
      ''wrapper.debug'', ''wrapper.ignore_sequence_gaps'', ''wrapper.pidfile'',
      ''wrapper.pidfile.strict'', ''wrapper.java.pidfile'', ''wrapper.java.idfile'',
      ''wrapper.working.dir'', ''wrapper.port'', ''wrapper.port.min'', ''wrapper.port.max'',
      ''wrapper.jvm.port'', ''wrapper.jvm.port.min'', ''wrapper.jvm.port.max'',
      ''wrapper.native_library'', ''wrapper.disable_console_input'', ''wrapper.listener.force_stop'',
      ''wrapper.use_system_time'', ''wrapper.disable_shutdown_hook'', ''wrapper.cpu.timeout'',
      ''wrapper.startup.timeout'', ''wrapper.startup.delay'', ''wrapper.startup.delay.console'',
      ''wrapper.startup.delay.service'', ''wrapper.shutdown.timeout'',
      ''wrapper.request_thread_dump_on_failed_jvm_exit'',
      ''wrapper.request_thread_dump_on_failed_jvm_exit.delay'', ''wrapper.ping.interval'',
      ''wrapper.ping.timeout'', ''wrapper.restart.delay'', ''wrapper.disable_restarts'',
      ''wrapper.disable_restarts.automatic'', ''wrapper.max_failed_invocations'',
      ''wrapper.successful_invocation_time'', ''wrapper.logfile'', ''wrapper.logfile.format'',
      ''wrapper.logfile.loglevel'', ''wrapper.logfile.rollmode'', ''wrapper.logfile.maxfiles'',
      ''wrapper.logfile.maxsize'', ''wrapper.console.format'', ''wrapper.console.loglevel'',
      ''wrapper.console.flush'', ''wrapper.console.title'', ''wrapper.console.title.windows'',
      ''wrapper.internal.namedpipe'', ''wrapper.syslog.loglevel'', ''wrapper.thread_dump_control_code'',
      ''wrapper.pausable'', ''wrapper.pausable.stop_jvm'', ''wrapper.ntservice.generate_console'',
      ''wrapper.ntservice.name'', ''wrapper.ntservice.displayname'', ''wrapper.ntservice.description'',
      ''wrapper.ntservice.pausable'', ''wrapper.ntservice.pausable.stop_jvm'',
      ''wrapper.ntservice.starttype'', ''wrapper.ntservice.account'', ''wrapper.ntservice.password'',
      ''wrapper.ntservice.interactive'', ''wrapper.pause_on_startup'']"

definition is_supported_wrapper_property :: "string \<Rightarrow> bool" where
  "is_supported_wrapper_property name \<longleftrightarrow>
     list_ex (\<lambda>prefix. starts_with prefix name) supported_numbered_wrapper_property_prefixes
     \<or> name \<in> set supported_wrapper_properties"

subsection \<open>The loader\<close>

definition new_environment :: "platform \<Rightarrow> str_map" where
  "new_environment P =
     foldl (\<lambda>env (name, value). bt_insert (normalize_environment_name P name) value env) [] (env_vars P)"

definition lock_override ::
    "platform \<Rightarrow> string \<Rightarrow> str_map \<times> string list \<Rightarrow> error + str_map \<times> string list" where
  "lock_override P override_value st =
     (case st of (env, locked) \<Rightarrow>
       bind_result
         (ok_or (Error_Cli (''invalid property override: '' @ override_value))
           (split_property override_value))
         (\<lambda>(name, value).
           case strip_prefix ''set.'' name of
             None \<Rightarrow> Inr (env, locked)
           | Some environment_name \<Rightarrow>
               let normalized = normalize_environment_name P environment_name
               in Inr (bt_insert normalized value env, insort_insert normalized locked)))"

definition loader_new :: "platform \<Rightarrow> string \<Rightarrow> string list \<Rightarrow> error + loader" where
  "loader_new P dir overrides =
     bind_result (fold_result (lock_override P) overrides (new_environment P, []))
       (\<lambda>(env, locked). Inr
         \<lparr>ld_executable_directory = dir, ld_properties = [], ld_environment = env,
          locked_environment = locked, include_stack = [], ld_warnings = []\<rparr>)"

definition apply_environment_property :: "platform \<Rightarrow> string \<Rightarrow> string \<Rightarrow> loader \<Rightarrow> loader" where
  "apply_environment_property P name value L =
     (case strip_prefix ''set.default.'' name of
       Some environment_name \<Rightarrow>
         (let normalized = normalize_environment_name P environment_name in
          if normalized \<notin> set (locked_environment L)
             \<and> bt_get (ld_environment L) normalized = None
          then L\<lparr>ld_environment := bt_insert normalized value (ld_environment L)\<rparr> else L)
     | None \<Rightarrow>
         (case strip_prefix ''set.'' name of
           Some environment_name \<Rightarrow>
             (let normalized = normalize_environment_name P environment_name in
              if normalized \<notin> set (locked_environment L)
              then L\<lparr>ld_environment := bt_insert normalized value (ld_environment L)\<rparr> else L)
         | None \<Rightarrow> L))"

definition set_property :: "platform \<Rightarrow> string \<Rightarrow> string \<Rightarrow> loader \<Rightarrow> loader" where
  "set_property P name value L =
     apply_environment_property P name value
       (L\<lparr>ld_properties := bt_insert name value (ld_properties L)\<rparr>)"

text \<open>
  One logical line. An \<open>#include\<close> calls the loader of the next nesting level, the
  argument \<open>load\<close>.
\<close>

definition parse_line ::
    "platform \<Rightarrow> (string \<Rightarrow> bool \<Rightarrow> loader \<Rightarrow> error + loader) \<Rightarrow> string
      \<Rightarrow> nat \<times> string \<Rightarrow> loader \<Rightarrow> error + loader" where
  "parse_line P load path numbered_line L =
     (case numbered_line of (line, raw) \<Rightarrow>
       let trimmed = trim raw in
       if trimmed = [] \<or> starts_with ''!'' trimmed then Inr L
       else case parse_include trimmed of
         Some (directive, argument) \<Rightarrow>
           (let expanded = expand_environment P argument (ld_environment L);
                include_path = remove_grouping_quotes (trim expanded);
                required = (directive = ''#include.required'');
                L1 = (if directive = ''#include.debug''
                      then push_warning (info (''#include.debug from '' @ display path @ '':''
                             @ show_nat line @ '' -> '' @ display include_path)) L
                      else L)
            in load include_path required L1)
       | None \<Rightarrow>
           if starts_with ''#'' trimmed then Inr L
           else case split_property trimmed of
             None \<Rightarrow>
               Inr (push_warning (warn (''ignored line without '' @ [CHR 0x27] @ ''='' @ [CHR 0x27]
                      @ '' at '' @ display path @ '':'' @ show_nat line)) L)
           | Some (name, raw_value) \<Rightarrow>
               if name = [] then
                 Inl (Error_ConfigSyntax path line ''the property name is empty'')
               else
                 (let uncommented = decode_hash_comments raw_value;
                      value = expand_environment P (trim uncommented) (ld_environment L)
                  in Inr (set_property P name value L)))"

text \<open>
  \<open>left\<close> is the number of nesting levels that may still be entered, one more than
  \<open>MAX_INCLUDE_DEPTH\<close> minus the \<open>depth\<close> of the source: the file is read if it is not 0.
\<close>

primrec load_file ::
    "platform \<Rightarrow> nat \<Rightarrow> string \<Rightarrow> bool \<Rightarrow> loader \<Rightarrow> error + loader" where
  "load_file P 0 path required L =
     Inl (Error_Config (''more than '' @ show_nat max_include_depth @ '' nested #include levels''))"
| "load_file P (Suc left) path required L =
     (let resolved = (if is_absolute P path then path
                      else path_join P (ld_executable_directory L) path)
      in case canonicalize P resolved of
        Inl source \<Rightarrow>
          if \<not> required \<and> kind source = NotFound then
            Inr (push_warning (warn (''optional #include not found: '' @ display resolved)) L)
          else Inl (Error_ConfigRead resolved source)
      | Inr canonical \<Rightarrow>
          if canonical \<in> set (include_stack L) then
            Inl (Error_Config (''#include cycle detected at '' @ display canonical))
          else
            bind_result (map_error (Error_ConfigRead canonical) (read_file P canonical)) (\<lambda>bs.
            bind_result (decode_configuration P bs canonical) (\<lambda>(text, decoding_warning).
              let L1 = (case decoding_warning of None \<Rightarrow> L | Some m \<Rightarrow> push_warning (warn m) L);
                  L2 = L1\<lparr>include_stack := include_stack L1 @ [canonical]\<rparr>
              in bind_result
                   (fold_result (parse_line P (load_file P left) canonical)
                     (enumerate 1 (logical_lines text)) L2)
                   (\<lambda>L3. Inr (L3\<lparr>include_stack := butlast (include_stack L3)\<rparr>)))))"

definition apply_override :: "platform \<Rightarrow> string \<Rightarrow> loader \<Rightarrow> error + loader" where
  "apply_override P override_value L =
     bind_result
       (ok_or (Error_Cli (''invalid property override: '' @ override_value))
         (split_property override_value))
       (\<lambda>(name, raw_value).
         Inr (set_property P name (expand_environment P raw_value (ld_environment L)) L))"

definition apply_overrides :: "platform \<Rightarrow> string list \<Rightarrow> loader \<Rightarrow> error + loader" where
  "apply_overrides P overrides L = fold_result (apply_override P) overrides L"

definition warn_about_name :: "string \<Rightarrow> loader \<times> string list \<Rightarrow> loader \<times> string list" where
  "warn_about_name name st =
     (case st of (L, ignored_families) \<Rightarrow>
       if starts_with ''jss.'' name \<and> name \<notin> set supported_jss_properties then
         (push_warning (warn (''the property '' @ name
            @ '' is not a known Java Service Steward extension and will be ignored'')) L,
          ignored_families)
       else if \<not> starts_with ''wrapper.'' name \<or> is_supported_wrapper_property name then
         (L, ignored_families)
       else case find (\<lambda>prefix. starts_with prefix name) ignored_wrapper_property_prefixes of
         Some family \<Rightarrow> (L, insort_insert family ignored_families)
       | None \<Rightarrow>
           (push_warning (warn (''the property '' @ name
              @ '' is not implemented and will be ignored'')) L, ignored_families))"

definition warn_about_unsupported_properties :: "loader \<Rightarrow> loader" where
  "warn_about_unsupported_properties L =
     (case fold warn_about_name (map fst (ld_properties L)) (L, []) of
       (L1, ignored_families) \<Rightarrow>
         fold (\<lambda>family. push_warning (info (family @ ''* properties are accepted and ignored'')))
           ignored_families L1)"

definition config_load :: "platform \<Rightarrow> string \<Rightarrow> string \<Rightarrow> string list \<Rightarrow> error + config" where
  "config_load P path dir overrides =
     bind_result (loader_new P dir overrides) (\<lambda>L0.
     bind_result (load_file P (Suc max_include_depth) path True L0) (\<lambda>L1.
     bind_result (apply_overrides P overrides L1) (\<lambda>L2.
       let L3 = warn_about_unsupported_properties L2
       in Inr \<lparr>root_path = path, executable_directory = dir, properties = ld_properties L3,
               environment = ld_environment L3, warnings = ld_warnings L3\<rparr>)))"

subsection \<open>The typed accessors\<close>

definition get :: "config \<Rightarrow> string \<Rightarrow> string option" where
  "get c name = bt_get (properties c) name"

definition get_or :: "config \<Rightarrow> string \<Rightarrow> string \<Rightarrow> string" where
  "get_or c name dflt = (case get c name of None \<Rightarrow> dflt | Some v \<Rightarrow> v)"

definition required :: "config \<Rightarrow> string \<Rightarrow> error + string" where
  "required c name =
     (case get c name of
       Some value \<Rightarrow> if trim value \<noteq> [] then Inr value
                     else Inl (Error_Config (''missing required property '' @ name))
     | None \<Rightarrow> Inl (Error_Config (''missing required property '' @ name)))"

definition get_bool :: "config \<Rightarrow> string \<Rightarrow> bool \<Rightarrow> bool" where
  "get_bool c name dflt =
     (case get c name of
       None \<Rightarrow> dflt
     | Some value \<Rightarrow> to_ascii_lowercase (trim value) \<in> {''true'', ''yes'', ''1'', ''on''})"

definition get_u64 :: "config \<Rightarrow> string \<Rightarrow> u64 \<Rightarrow> u64" where
  "get_u64 c name dflt =
     (case get c name of
       None \<Rightarrow> dflt
     | Some value \<Rightarrow> (case parse_word (trim value) of None \<Rightarrow> dflt | Some n \<Rightarrow> n))"

definition numbered_name :: "string \<Rightarrow> nat \<Rightarrow> string" where
  "numbered_name prefix index = prefix @ ''.'' @ show_nat index"

lemma numbered_name_inject [simp]: "numbered_name p i = numbered_name p j \<longleftrightarrow> i = j"
  by (simp add: numbered_name_def)

lemma finite_numbered: "finite {j. i \<le> j \<and> get c (numbered_name p j) \<noteq> None}"
proof -
  have "numbered_name p ` {j. i \<le> j \<and> get c (numbered_name p j) \<noteq> None} \<subseteq> fst ` set (properties c)"
    by (auto simp: get_def bt_get_def map_of_eq_None_iff dest: weak_map_of_SomeI)
  then show ?thesis
    by (rule finite_imageD [OF finite_subset]) (auto intro: inj_onI)
qed

text \<open>The loop \<open>for index in 1..\<close> of \<open>numbered\<close>: it ends at the first missing index.\<close>

function numbered_from :: "config \<Rightarrow> string \<Rightarrow> nat \<Rightarrow> (nat \<times> string) list" where
  "numbered_from c prefix index =
     (case get c (numbered_name prefix index) of
       None \<Rightarrow> []
     | Some value \<Rightarrow> (index, value) # numbered_from c prefix (Suc index))"
  by pat_completeness auto
termination
proof (relation "measure (\<lambda>(c, p, i). card {j. i \<le> j \<and> get c (numbered_name p j) \<noteq> None})")
  fix c p i v
  assume "get c (numbered_name p i) = Some v"
  then have "{j. Suc i \<le> j \<and> get c (numbered_name p j) \<noteq> None}
      \<subset> {j. i \<le> j \<and> get c (numbered_name p j) \<noteq> None}"
    by (intro psubsetI) (auto simp: set_eq_iff intro!: exI [of _ i])
  then show "((c, p, Suc i), c, p, i)
      \<in> measure (\<lambda>(c, p, i). card {j. i \<le> j \<and> get c (numbered_name p j) \<noteq> None})"
    using psubset_card_mono [OF finite_numbered] by auto
qed auto

declare numbered_from.simps [simp del]

text \<open>With \<open>wrapper.ignore_sequence_gaps\<close> every index of the property table counts.\<close>

definition numbered_with_gaps :: "config \<Rightarrow> string \<Rightarrow> (nat \<times> string) list" where
  "numbered_with_gaps c prefix =
     sort_key fst
       (List.map_filter
         (\<lambda>(name, value).
           case strip_prefix (prefix @ ''.'') name of
             None \<Rightarrow> None
           | Some suffix \<Rightarrow>
               (case parse_unsigned (2 ^ 32 - 1) suffix of
                 None \<Rightarrow> None
               | Some index \<Rightarrow> if 0 < index then Some (index, value) else None))
         (properties c))"

definition numbered :: "config \<Rightarrow> string \<Rightarrow> (nat \<times> string) list" where
  "numbered c prefix =
     (if get_bool c ''wrapper.ignore_sequence_gaps'' False then numbered_with_gaps c prefix
      else numbered_from c prefix 1)"

definition resolve_path :: "platform \<Rightarrow> config \<Rightarrow> string \<Rightarrow> string" where
  "resolve_path P c value =
     (let path = remove_grouping_quotes (trim value)
      in if is_absolute P path then path else path_join P (executable_directory c) path)"

subsection \<open>The properties packet\<close>

definition double_tabs :: "string \<Rightarrow> string" where
  "double_tabs s = concat (map (\<lambda>c. if c = CHR 0x09 then [CHR 0x09, CHR 0x09] else [c]) s)"

definition protocol_entry :: "string \<Rightarrow> string \<times> string \<Rightarrow> string" where
  "protocol_entry output entry =
     (case entry of (name, value) \<Rightarrow>
       if is_sensitive_name name then output
       else (if output \<noteq> [] then output @ [CHR 0x09] else output)
            @ double_tabs name @ ''='' @ double_tabs value)"

definition protocol_properties :: "config \<Rightarrow> string" where
  "protocol_properties c = foldl protocol_entry [] (properties c)"

text \<open>
  The other side of the packet: \<open>BackendClient.loadProperties\<close> and \<open>addProperty\<close> of
  the Java bridge. \<open>scan_entries entry encoded\<close> is the loop over the characters with the
  entry read so far.
\<close>

fun scan_entries :: "string \<Rightarrow> string \<Rightarrow> string list" where
  "scan_entries entry [] = [entry]"
| "scan_entries entry (c # cs) =
     (if c = CHR 0x09 then
        (case cs of
          [] \<Rightarrow> entry # scan_entries [] []
        | d # ds \<Rightarrow>
            if d = CHR 0x09 then scan_entries (entry @ [CHR 0x09]) ds
            else entry # scan_entries [] (d # ds))
      else scan_entries (entry @ [c]) cs)"

definition add_property :: "(string \<rightharpoonup> string) \<Rightarrow> string \<Rightarrow> (string \<rightharpoonup> string)" where
  "add_property props entry =
     (case split_once CHR ''='' entry of
       None \<Rightarrow> props
     | Some (name, value) \<Rightarrow> props(name \<mapsto> value))"

definition load_properties :: "string \<Rightarrow> (string \<rightharpoonup> string)" where
  "load_properties encoded = foldl add_property Map.empty (scan_entries [] encoded)"

end
