(* ===== verification/Config_Sample.thy ===== *)
theory Config_Sample
  imports Config
begin

section \<open>A sample configuration\<close>

text \<open>
  A configuration file on the concrete platform, what loading it yields, and nothing else:
  the witnesses of the properties of loaded configurations are applied to it.
\<close>

definition sample_platform :: platform where
  "sample_platform =
     simple_platform
       [(''/d/w'', as_bytes (''set.H=/app'' @ [CHR 0x0A] @ ''a=%h%/x'' @ [CHR 0x0A] @ ''key=s''))] []"

definition sample_config :: config where
  "sample_config =
     \<lparr>root_path = ''w'', executable_directory = ''/d'',
      properties = [(''a'', ''/o/x''), (''b'', ''1''), (''key'', ''s''), (''set.H'', ''/o'')],
      environment = [(''H'', ''/o'')], warnings = []\<rparr>"

lemma sample_load:
  "config_load sample_platform ''w'' ''/d'' [''set.H=/o'', ''b=1''] = Inr sample_config"
  by code_simp

end
