(* ===== verification/Config_Text.thy ===== *)
theory Config_Text
  imports Config
begin

section \<open>Correctness of the configuration's text functions\<close>

text \<open>
  Variable expansion against a reference reading of the text as a list of segments,
  comments and their escape, and the joining of continued lines.
\<close>

subsection \<open>Variable expansion\<close>

text \<open>
  The reference: a value is a sequence of literal texts and variable references, which does
  not depend on the environment, and expansion evaluates each of them once.
\<close>

datatype segment = Literal string | Variable string

function segments :: "string \<Rightarrow> segment list" where
  "segments s =
     (case split_once CHR ''%'' s of
       None \<Rightarrow> [Literal s]
     | Some (before, after) \<Rightarrow>
         (case split_once CHR ''%'' after of
           None \<Rightarrow> [Literal s]
         | Some (name, rest) \<Rightarrow> Literal before # Variable name # segments rest))"
  by pat_completeness auto
termination
  by (relation "measure length") (auto simp: split_once_Some)

declare segments.simps [simp del]

fun segment_text :: "segment \<Rightarrow> string" where
  "segment_text (Literal s) = s"
| "segment_text (Variable n) = CHR ''%'' # n @ [CHR ''%'']"

fun segment_value :: "platform \<Rightarrow> str_map \<Rightarrow> segment \<Rightarrow> string" where
  "segment_value P env (Literal s) = s"
| "segment_value P env (Variable n) =
     (case bt_get env (normalize_environment_name P n) of
       Some v \<Rightarrow> v
     | None \<Rightarrow> segment_text (Variable n))"

lemma segments_text: "concat (map segment_text (segments s)) = s"
proof (induction s rule: segments.induct)
  case (1 s)
  then show ?case
    by (subst segments.simps) (auto simp: split_once_Some split: option.splits)
qed

lemma expand_segments:
  "expand_environment P s env = concat (map (segment_value P env) (segments s))"
proof (induction P s env rule: expand_environment.induct)
  case (1 P s env)
  then show ?case
    by (subst expand_environment.simps, subst segments.simps)
      (auto simp: split_once_Some split: option.splits)
qed


lemma expand_no_percent [simp]:
  "CHR ''%'' \<notin> set s \<Longrightarrow> expand_environment P s env = s"
  by (subst expand_environment.simps) (auto simp: split_once_None [THEN iffD2])

lemma expand_variable:
  "CHR ''%'' \<notin> set a \<Longrightarrow> CHR ''%'' \<notin> set n \<Longrightarrow>
    expand_environment P (a @ CHR ''%'' # n @ CHR ''%'' # r) env =
      a @ segment_value P env (Variable n) @ expand_environment P r env"
  by (subst expand_environment.simps) (auto split: option.splits)

subsection \<open>Comments\<close>

definition double_hashes :: "string \<Rightarrow> string" where
  "double_hashes s = concat (map (\<lambda>c. if c = CHR ''#'' then [c, c] else [c]) s)"

lemma decode_double_hashes: "decode_hash_comments (double_hashes s @ r) = s @ decode_hash_comments r"
  by (induction s) (auto simp: double_hashes_def)

text \<open>
  Every text can be written as a property value by doubling its hashes, and a comment
  (a single hash and what follows it) after it is dropped without trace.
\<close>

lemma hash_comment_roundtrip:
  "decode_hash_comments (double_hashes v) = v
   \<and> (\<not> starts_with ''#'' comment \<longrightarrow>
       decode_hash_comments (double_hashes v @ CHR ''#'' # comment) = v)"
  using decode_double_hashes [of v "[]"] decode_double_hashes [of v "CHR ''#'' # comment"]
  by (cases comment) auto

subsection \<open>Continued lines\<close>

text \<open>
  A physical line as it may stand in a file: no line feed, no carriage return at its end. A
  logical line is written as fragments, all but the last with a backslash added; whether
  backslashes continue a line depends on their number being odd.
\<close>

definition plain_fragment :: "string \<Rightarrow> bool" where
  "plain_fragment s \<longleftrightarrow> CHR 0x0A \<notin> set s \<and> (s \<noteq> [] \<longrightarrow> last s \<noteq> CHR 0x0D) \<and> even (slash_count s)"

definition physical_lines :: "string list \<Rightarrow> string \<Rightarrow> string list" where
  "physical_lines fs l = map (\<lambda>f. f @ [CHR 0x5C]) fs @ [l]"

definition file_text :: "string list \<Rightarrow> string" where
  "file_text ls = concat (map (\<lambda>l. l @ [CHR 0x0A]) ls)"

lemma str_lines_cons:
  assumes "CHR 0x0A \<notin> set l" and "l \<noteq> [] \<longrightarrow> last l \<noteq> CHR 0x0D"
  shows "str_lines (l @ CHR 0x0A # s) = l # str_lines s"
  using assms by (subst str_lines.simps) auto

lemma str_lines_file_text:
  assumes "\<forall>l \<in> set ls. CHR 0x0A \<notin> set l \<and> (l \<noteq> [] \<longrightarrow> last l \<noteq> CHR 0x0D)"
  shows "str_lines (file_text ls) = ls"
  using assms
proof (induction ls)
  case Nil
  then show ?case by (subst str_lines.simps) (simp add: file_text_def)
next
  case (Cons l ls)
  then show ?case by (simp add: file_text_def str_lines_cons)
qed

lemma trim_end_cr_id: "s \<noteq> [] \<longrightarrow> last s \<noteq> CHR 0x0D \<Longrightarrow> trim_end_cr s = s"
  by (cases s rule: rev_cases) (simp_all add: trim_end_cr_def)

lemma slash_count_snoc: "slash_count (s @ [CHR 0x5C]) = Suc (slash_count s)"
  by (simp add: slash_count_def)

lemma logical_step_continued:
  "plain_fragment f \<Longrightarrow> logical_step (out, pending) (f @ [CHR 0x5C]) = (out, pending @ f)"
  by (simp add: logical_step_def Let_def trim_end_cr_id slash_count_snoc plain_fragment_def
      mod_Suc even_iff_mod_2_eq_zero)

lemma logical_step_last:
  "plain_fragment l \<Longrightarrow> logical_step (out, pending) l = (out @ [pending @ l], [])"
  by (auto simp: logical_step_def Let_def trim_end_cr_id plain_fragment_def even_iff_mod_2_eq_zero)

lemma logical_steps_line:
  "list_all plain_fragment fs \<Longrightarrow> plain_fragment l \<Longrightarrow>
    foldl logical_step (out, pending) (physical_lines fs l) = (out @ [pending @ concat fs @ l], [])"
  by (induction fs arbitrary: pending)
    (simp_all add: physical_lines_def logical_step_continued logical_step_last)

lemma logical_steps_file:
  "list_all (\<lambda>(fs, l). list_all plain_fragment fs \<and> plain_fragment l) ps \<Longrightarrow>
    foldl logical_step (out, []) (concat (map (\<lambda>(fs, l). physical_lines fs l) ps)) =
      (out @ map (\<lambda>(fs, l). concat fs @ l) ps, [])"
  by (induction ps arbitrary: out) (auto simp: logical_steps_line)

text \<open>
  C40. A file written as physical lines, where a logical line is continued by a backslash at
  the end of all its physical lines but the last, is read back as exactly its logical lines,
  in order, none joined to another and none split.
\<close>

theorem logical_lines_roundtrip:
  assumes "list_all (\<lambda>(fs, l). list_all plain_fragment fs \<and> plain_fragment l) ps"
  shows "logical_lines (file_text (concat (map (\<lambda>(fs, l). physical_lines fs l) ps))) =
    map (\<lambda>(fs, l). concat fs @ l) ps"
proof -
  have "\<forall>l \<in> set (concat (map (\<lambda>(fs, l). physical_lines fs l) ps)).
      CHR 0x0A \<notin> set l \<and> (l \<noteq> [] \<longrightarrow> last l \<noteq> CHR 0x0D)"
    using assms by (fastforce simp: physical_lines_def plain_fragment_def list_all_iff)
  with assms show ?thesis
    by (simp add: logical_lines_def str_lines_file_text logical_steps_file)
qed

theorem logical_lines_roundtrip_witness:
  "logical_lines (file_text [''a=one'' @ [CHR 0x5C], ''two'', ''b=three'']) = [''a=onetwo'', ''b=three'']"
  using logical_lines_roundtrip [of "[([''a=one''], ''two''), ([], ''b=three'')]"]
  by (simp add: plain_fragment_def slash_count_def physical_lines_def)

end
