(* ===== verification/Config_Properties.thy ===== *)
theory Config_Properties
  imports Config_Sample Config_Text
begin

section \<open>Correctness of the configuration loader\<close>

text \<open>
  What the loader keeps invariant over every file, include and override (a locale with one
  interpretation per invariant), what the command-line overrides and the environment hold
  in the end, the text functions, the numbered sequences, and the round trip of the
  properties packet through the decoder of the Java bridge
  (\<open>BackendClient.loadProperties\<close>).
\<close>

subsection \<open>What one line may do to the loader\<close>

text \<open>
  A loader invariant is kept by the three ways in which loading changes the state: a
  warning, a property with a well-formed name, and the include stack.
\<close>

definition property_name :: "string \<Rightarrow> bool" where
  "property_name name \<longleftrightarrow> trim name = name \<and> CHR ''='' \<notin> set name"

lemma split_property_name:
  "split_property s = Some (name, value) \<Longrightarrow> property_name name"
  using set_trim by (fastforce simp: split_property_def property_name_def split_once_Some)

lemma parse_line_cases:
  assumes "parse_line P load path nl L = Inr L'"
  obtains (skip) "L' = L"
    | (warning) w where "L' = push_warning w L"
    | (incl) p r where "load p r L = Inr L'"
    | (incl_debug) p r w where "load p r (push_warning w L) = Inr L'"
    | (property) n v where "property_name n" "L' = set_property P n v L"
proof -
  obtain line raw where nl: "nl = (line, raw)" by fastforce
  consider (ignored) "trim raw = [] \<or> starts_with ''!'' (trim raw)"
    | (inc) d a where "\<not> (trim raw = [] \<or> starts_with ''!'' (trim raw))"
        "parse_include (trim raw) = Some (d, a)"
    | (comment) "\<not> (trim raw = [] \<or> starts_with ''!'' (trim raw))"
        "parse_include (trim raw) = None" "starts_with ''#'' (trim raw)"
    | (plain) "\<not> (trim raw = [] \<or> starts_with ''!'' (trim raw))"
        "parse_include (trim raw) = None" "\<not> starts_with ''#'' (trim raw)"
    by (cases "parse_include (trim raw)") auto
  then show ?thesis
  proof cases
    case ignored
    with assms nl skip show ?thesis by (auto simp: parse_line_def)
  next
    case inc
    with assms nl show ?thesis
      by (cases "d = ''#include.debug''")
        (simp_all add: parse_line_def Let_def incl incl_debug)
  next
    case comment
    with assms nl skip show ?thesis by (simp add: parse_line_def Let_def)
  next
    case plain
    show ?thesis
    proof (cases "split_property (trim raw)")
      case None
      with plain assms nl show ?thesis
        by (auto simp: parse_line_def Let_def intro: warning [OF sym])
    next
      case (Some nv)
      obtain name rv where "nv = (name, rv)" by fastforce
      with Some plain assms nl split_property_name [of "trim raw" name rv] show ?thesis
        by (auto simp: parse_line_def Let_def split: if_splits intro: property [OF _ sym])
    qed
  qed
qed

lemma load_file_cases:
  assumes "load_file P (Suc left) path req L = Inr L'"
  obtains (missing) w where "L' = push_warning w L"
    | (lines) canonical L1 L3 ls where "L1 = L \<or> (\<exists>w. L1 = push_warning w L)"
        "canonical \<notin> set (include_stack L)"
        "fold_result (parse_line P (load_file P left) canonical) ls
          (L1\<lparr>include_stack := include_stack L1 @ [canonical]\<rparr>) = Inr L3"
        "L' = L3\<lparr>include_stack := butlast (include_stack L3)\<rparr>"
proof -
  let ?r = "if is_absolute P path then path else path_join P (ld_executable_directory L) path"
  show ?thesis
  proof (cases "canonicalize P ?r")
    case (Inl e)
    with assms show ?thesis by (auto simp: Let_def split: if_splits intro: missing [OF sym])
  next
    case (Inr c)
    with assms have new: "c \<notin> set (include_stack L)" by (simp add: Let_def split: if_splits)
    with assms Inr obtain bs contents w where
      "decode_configuration P bs c = Inr (contents, w)"
      and rest: "bind_result (fold_result (parse_line P (load_file P left) c)
          (enumerate 1 (logical_lines contents))
          ((case w of None \<Rightarrow> L | Some m \<Rightarrow> push_warning (warn m) L)\<lparr>include_stack :=
            include_stack (case w of None \<Rightarrow> L | Some m \<Rightarrow> push_warning (warn m) L) @ [c]\<rparr>))
          (\<lambda>L3. Inr (L3\<lparr>include_stack := butlast (include_stack L3)\<rparr>)) = Inr L'"
      by (auto simp: Let_def bind_result_eq_Inr)
    then show ?thesis
      using lines [OF _ new] by (cases w) (auto simp: bind_result_eq_Inr)
  qed
qed

lemma config_load_cases:
  assumes "config_load P path dir ovs = Inr c"
  obtains L0 L1 L2 where "loader_new P dir ovs = Inr L0"
    "load_file P (Suc max_include_depth) path True L0 = Inr L1"
    "apply_overrides P ovs L1 = Inr L2"
    "properties c = ld_properties (warn_about_unsupported_properties L2)"
    "environment c = ld_environment (warn_about_unsupported_properties L2)"
    "warnings c = ld_warnings (warn_about_unsupported_properties L2)"
proof -
  from assms obtain L0 L1 L2 where *: "loader_new P dir ovs = Inr L0"
    "load_file P (Suc max_include_depth) path True L0 = Inr L1"
    "apply_overrides P ovs L1 = Inr L2"
    and "c = \<lparr>root_path = path, executable_directory = dir,
      properties = ld_properties (warn_about_unsupported_properties L2),
      environment = ld_environment (warn_about_unsupported_properties L2),
      warnings = ld_warnings (warn_about_unsupported_properties L2)\<rparr>"
    unfolding config_load_def Let_def bind_result_eq_Inr by auto
  then show ?thesis using that [OF *] by simp
qed

text \<open>
  Warnings alone change nothing but the list of warnings; a loader invariant is also kept by
  a well-formed property and by the include stack.
\<close>

locale warning_invariant =
  fixes I :: "loader \<Rightarrow> bool"
  assumes push: "I L \<Longrightarrow> I (push_warning w L)"
begin

lemma warn_about_name_keeps: "I (fst st) \<Longrightarrow> I (fst (warn_about_name name st))"
  by (cases st) (auto simp: warn_about_name_def push split: option.splits)

lemma warn_about_unsupported_keeps:
  assumes "I L"
  shows "I (warn_about_unsupported_properties L)"
proof -
  have names: "I (fst (fold warn_about_name ns st))" if "I (fst st)" for ns st
    using that by (induction ns arbitrary: st) (simp_all add: warn_about_name_keeps del: split_paired_All)
  have families: "I (fold (\<lambda>f. push_warning (info (g f))) fs L)" if "I L" for fs L and g :: "'b \<Rightarrow> string"
    using that by (induction fs arbitrary: L) (auto intro: push)
  obtain L1 fs where "fold warn_about_name (map fst (ld_properties L)) (L, []) = (L1, fs)"
    by fastforce
  with assms names [of "(L, [])" "map fst (ld_properties L)"] show ?thesis
    by (simp add: warn_about_unsupported_properties_def families)
qed

end

locale loader_invariant = warning_invariant I for I :: "loader \<Rightarrow> bool" +
  fixes P :: platform
  assumes set_prop: "I L \<Longrightarrow> property_name name \<Longrightarrow> I (set_property P name value L)"
    and stack: "I L \<Longrightarrow> I (L\<lparr>include_stack := st\<rparr>)"
begin

lemma parse_line_keeps:
  assumes load: "\<And>path req L L'. load path req L = Inr L' \<Longrightarrow> I L \<Longrightarrow> I L'"
    and run: "parse_line P load path nl L = Inr L'" and inv: "I L"
  shows "I L'"
  using run by (cases rule: parse_line_cases) (use inv push set_prop load in blast)+

lemma load_file_keeps: "load_file P left path req L = Inr L' \<Longrightarrow> I L \<Longrightarrow> I L'"
proof (induction left arbitrary: path req L L')
  case 0
  then show ?case by simp
next
  case (Suc left)
  have step: "I L'" if "fold_result (parse_line P (load_file P left) c) ls L = Inr L'" "I L"
    for c ls L L'
    using that by (rule fold_result_invariant) (blast intro: parse_line_keeps Suc.IH)
  from Suc.prems(1) show ?case
  proof (cases rule: load_file_cases)
    case missing
    with Suc.prems(2) show ?thesis by (simp add: push)
  next
    case (lines canonical L1 L3 ls)
    from lines(1) Suc.prems(2) have "I L1" by (auto intro: push)
    then have "I (L1\<lparr>include_stack := include_stack L1 @ [canonical]\<rparr>)" by (rule stack)
    with lines(3) have "I L3" by (rule step)
    with lines(4) show ?thesis by (simp add: stack)
  qed
qed

lemma apply_overrides_keeps: "apply_overrides P ovs L = Inr L' \<Longrightarrow> I L \<Longrightarrow> I L'"
  unfolding apply_overrides_def
  by (erule fold_result_invariant)
    (auto simp: apply_override_def ok_or_def bind_result_def set_prop split_property_name
      split: option.splits sum.splits)

lemma config_load_keeps:
  assumes "config_load P path dir ovs = Inr c"
    and "\<And>L. loader_new P dir ovs = Inr L \<Longrightarrow> I L"
  obtains L where "I L" "properties c = ld_properties L" "environment c = ld_environment L"
    "warnings c = ld_warnings L"
proof -
  from assms(1) obtain L0 L1 L2 where "loader_new P dir ovs = Inr L0"
    and "load_file P (Suc max_include_depth) path True L0 = Inr L1"
    and "apply_overrides P ovs L1 = Inr L2"
    and "properties c = ld_properties (warn_about_unsupported_properties L2)"
      "environment c = ld_environment (warn_about_unsupported_properties L2)"
      "warnings c = ld_warnings (warn_about_unsupported_properties L2)"
    by (rule config_load_cases)
  moreover from this assms(2) have "I (warn_about_unsupported_properties L2)"
    by (blast intro: warn_about_unsupported_keeps apply_overrides_keeps load_file_keeps)
  ultimately show ?thesis using that by simp
qed

end

subsection \<open>The invariants of loading\<close>

lemma push_warning_simps [simp]:
  "ld_properties (push_warning w L) = ld_properties L"
  "ld_environment (push_warning w L) = ld_environment L"
  "locked_environment (push_warning w L) = locked_environment L"
  "include_stack (push_warning w L) = include_stack L"
  "ld_warnings (push_warning w L) = ld_warnings L @ [w]"
  by (simp_all add: push_warning_def)

lemma apply_environment_property_simps [simp]:
  "ld_properties (apply_environment_property P n v L) = ld_properties L"
  "locked_environment (apply_environment_property P n v L) = locked_environment L"
  "include_stack (apply_environment_property P n v L) = include_stack L"
  "ld_warnings (apply_environment_property P n v L) = ld_warnings L"
  by (simp_all add: apply_environment_property_def Let_def split: option.splits)

lemma set_property_simps [simp]:
  "ld_properties (set_property P n v L) = bt_insert n v (ld_properties L)"
  "locked_environment (set_property P n v L) = locked_environment L"
  "include_stack (set_property P n v L) = include_stack L"
  "ld_warnings (set_property P n v L) = ld_warnings L"
  by (simp_all add: set_property_def)

lemma apply_environment_property_env:
  "ld_environment (apply_environment_property P n v L) = ld_environment L
    \<or> (\<exists>m. m \<notin> set (locked_environment L)
          \<and> ld_environment (apply_environment_property P n v L) = bt_insert m v (ld_environment L))"
  by (auto simp: apply_environment_property_def Let_def split: option.splits)

lemma set_property_env:
  "ld_environment (set_property P n v L) = ld_environment L
    \<or> (\<exists>m. m \<notin> set (locked_environment L)
          \<and> ld_environment (set_property P n v L) = bt_insert m v (ld_environment L))"
  using apply_environment_property_env
    [of P n v "L\<lparr>ld_properties := bt_insert n v (ld_properties L)\<rparr>"]
  by (simp add: set_property_def)

definition loader_sorted :: "loader \<Rightarrow> bool" where
  "loader_sorted L \<longleftrightarrow> bt_invar (ld_properties L) \<and> bt_invar (ld_environment L)
     \<and> (\<forall>name \<in> fst ` set (ld_properties L). property_name name)"

interpretation sorted_loader: loader_invariant loader_sorted P for P
proof
  fix L name v
  assume "loader_sorted L" and "property_name name"
  then show "loader_sorted (set_property P name v L)"
    using set_property_env [of P name v L]
    by (auto simp: loader_sorted_def bt_invar_insert keys_bt_insert simp del: image_iff)
qed (auto simp: loader_sorted_def)

definition locked_as :: "string list \<Rightarrow> str_map \<Rightarrow> loader \<Rightarrow> bool" where
  "locked_as names env L \<longleftrightarrow> locked_environment L = names
     \<and> (\<forall>n \<in> set names. bt_get (ld_environment L) n = bt_get env n)"

interpretation locked_loader: loader_invariant "locked_as names env" P for P names env
proof
  fix L name v
  assume "locked_as names env L" and "property_name name"
  then show "locked_as names env (set_property P name v L)"
    using set_property_env [of P name v L] by (auto simp: locked_as_def)
qed (auto simp: locked_as_def)

definition warned_since :: "warning list \<Rightarrow> loader \<Rightarrow> bool" where
  "warned_since ws L \<longleftrightarrow> (\<exists>vs. ld_warnings L = ws @ vs)"

interpretation warned_loader: loader_invariant "warned_since ws" P for P ws
  by unfold_locales (auto simp: warned_since_def)

interpretation warned_only: warning_invariant
  "\<lambda>L. ld_properties L = props \<and> ld_environment L = env \<and> locked_environment L = names"
  for props env names
  by unfold_locales simp

text \<open>What a fresh loader satisfies.\<close>

lemma bt_invar_foldl: "bt_invar m \<Longrightarrow> bt_invar (foldl (\<lambda>m (k, v). bt_insert (f k) v m) m kvs)"
  by (induction kvs arbitrary: m) (auto simp: bt_invar_insert)

lemma lock_override_cases:
  assumes "lock_override P ov (env, locked) = Inr st"
  obtains (other) n v where "split_property ov = Some (n, v)" "\<not> starts_with ''set.'' n"
      "st = (env, locked)"
    | (lock) n v where "split_property ov = Some (''set.'' @ n, v)"
      "st = (bt_insert (normalize_environment_name P n) v env,
             insort_insert (normalize_environment_name P n) locked)"
proof -
  from assms obtain n v where sp: "split_property ov = Some (n, v)"
    by (cases "split_property ov") (auto simp: lock_override_def)
  show ?thesis
  proof (cases "strip_prefix ''set.'' n")
    case None
    with assms sp other show ?thesis
      by (simp add: lock_override_def strip_prefix_eq_None)
  next
    case (Some m)
    moreover from this have "n = ''set.'' @ m" by (simp only: strip_prefix_eq_Some)
    ultimately show ?thesis
      using assms sp lock by (simp add: lock_override_def Let_def)
  qed
qed

lemma lock_overrides_invar:
  "fold_result (lock_override P) ovs st = Inr st' \<Longrightarrow> bt_invar (fst st) \<Longrightarrow> bt_invar (fst st')"
  by (erule fold_result_invariant [where P = "\<lambda>st. bt_invar (fst st)"])
    (auto elim!: lock_override_cases simp: bt_invar_insert)

lemma loader_new_sorted: "loader_new P dir ovs = Inr L \<Longrightarrow> loader_sorted L"
  using lock_overrides_invar [of P ovs "(new_environment P, [])"]
  by (auto simp: loader_new_def result_simps loader_sorted_def new_environment_def bt_invar_foldl
      split: prod.splits)

lemma config_load_sorted:
  assumes "config_load P path dir ovs = Inr c"
  shows "bt_invar (properties c) \<and> bt_invar (environment c)
    \<and> (\<forall>name \<in> fst ` set (properties c). property_name name)"
  using assms
  by (rule sorted_loader.config_load_keeps [OF _ loader_new_sorted]) (simp_all add: loader_sorted_def)

subsection \<open>The properties packet\<close>

definition entry_text :: "string \<times> string \<Rightarrow> string" where
  "entry_text e = fst e @ ''='' @ snd e"

lemma double_tabs_simps [simp]:
  "double_tabs [] = []"
  "double_tabs (c # s) = (if c = CHR 0x09 then [c, c] else [c]) @ double_tabs s"
  "double_tabs (s @ t) = double_tabs s @ double_tabs t"
  by (simp_all add: double_tabs_def)

lemma scan_double_tabs [simp]:
  "scan_entries acc (double_tabs s @ rest) = scan_entries (acc @ s) rest"
  by (induction s arbitrary: acc) auto

lemma scan_separator:
  "rest = [] \<or> hd rest \<noteq> CHR 0x09 \<Longrightarrow>
    scan_entries acc (CHR 0x09 # rest) = acc # scan_entries [] rest"
  by (cases rest) auto

lemma protocol_entry_text:
  "protocol_entry out e =
     (if is_sensitive_name (fst e) then out
      else (if out = [] then [] else out @ [CHR 0x09]) @ double_tabs (entry_text e))"
  by (cases e) (auto simp: protocol_entry_def entry_text_def)

lemma entries_foldl:
  "out \<noteq> [] \<Longrightarrow> foldl protocol_entry out es =
     out @ concat (map (\<lambda>e. CHR 0x09 # double_tabs (entry_text e))
       (filter (\<lambda>e. \<not> is_sensitive_name (fst e)) es))"
  by (induction es arbitrary: out) (simp_all add: protocol_entry_text)

lemma entries_foldl_Nil:
  "foldl protocol_entry [] es =
     (case filter (\<lambda>e. \<not> is_sensitive_name (fst e)) es of
       [] \<Rightarrow> []
     | e # fs \<Rightarrow> double_tabs (entry_text e)
         @ concat (map (\<lambda>e. CHR 0x09 # double_tabs (entry_text e)) fs))"
proof (induction es)
  case (Cons e es)
  have "double_tabs (entry_text e) \<noteq> []" by (simp add: entry_text_def)
  then show ?case
    using Cons by (simp add: protocol_entry_text [of "[]" e] entries_foldl)
qed simp

lemma scan_joined:
  assumes "\<forall>e \<in> set fs. entry_text e \<noteq> [] \<and> hd (entry_text e) \<noteq> CHR 0x09"
  shows "scan_entries acc (concat (map (\<lambda>e. CHR 0x09 # double_tabs (entry_text e)) fs)) =
    acc # map entry_text fs"
  using assms
proof (induction fs arbitrary: acc)
  case (Cons e fs)
  then have "hd (double_tabs (entry_text e)) \<noteq> CHR 0x09"
    by (cases "entry_text e") auto
  moreover have "double_tabs (entry_text e) \<noteq> []"
    using Cons.prems by (cases "entry_text e") auto
  ultimately show ?case using Cons
    by (simp add: scan_separator del: scan_entries.simps(2))
qed simp

lemma entry_text_hd:
  assumes "property_name (fst e)"
  shows "entry_text e \<noteq> [] \<and> hd (entry_text e) \<noteq> CHR 0x09"
proof (cases "fst e")
  case (Cons c cs)
  with assms have "\<not> ascii_space c"
    by (metis property_name_def trim_not_space)
  with Cons show ?thesis by (auto simp: entry_text_def ascii_space_def)
qed (simp add: entry_text_def)

lemma scan_protocol_properties:
  assumes "\<forall>name \<in> fst ` set (properties c). property_name name"
  shows "foldl add_property m (scan_entries [] (protocol_properties c)) =
    foldl add_property m (map entry_text (filter (\<lambda>e. \<not> is_sensitive_name (fst e)) (properties c)))"
proof -
  have hd: "\<forall>e \<in> set (properties c). entry_text e \<noteq> [] \<and> hd (entry_text e) \<noteq> CHR 0x09"
    using assms entry_text_hd by blast
  show ?thesis
  proof (cases "filter (\<lambda>e. \<not> is_sensitive_name (fst e)) (properties c)")
    case Nil
    then show ?thesis
      by (simp add: protocol_properties_def entries_foldl_Nil add_property_def)
  next
    case (Cons e fs)
    then have "\<forall>e \<in> set fs. entry_text e \<noteq> [] \<and> hd (entry_text e) \<noteq> CHR 0x09"
      using hd by (metis (mono_tags, lifting) filter_is_subset list.set_intros(2) subsetD)
    with Cons show ?thesis
      by (simp add: protocol_properties_def entries_foldl_Nil scan_joined)
  qed
qed

lemma add_property_entry:
  "CHR ''='' \<notin> set (fst e) \<Longrightarrow> add_property m (entry_text e) = m(fst e \<mapsto> snd e)"
  by (cases e) (simp add: add_property_def entry_text_def)

lemma foldl_add_entries:
  "\<forall>e \<in> set es. CHR ''='' \<notin> set (fst e) \<Longrightarrow>
    foldl add_property m (map entry_text es) = m ++ map_of (rev es)"
  by (induction es arbitrary: m) (auto simp: add_property_entry)

text \<open>
  What the Java bridge reads from the properties packet is the configuration without
  the properties whose names look sensitive: the encoding with doubled tabs is decoded by
  the bridge to exactly the same names and values, whatever tabs they hold.
\<close>

lemma protocol_properties_roundtrip:
  assumes "config_load P path dir ovs = Inr c"
  shows "load_properties (protocol_properties c) =
    (\<lambda>name. if is_sensitive_name name then None else get c name)"
proof -
  let ?es = "filter (\<lambda>e. \<not> is_sensitive_name (fst e)) (properties c)"
  from config_load_sorted [OF assms] have names: "\<forall>name \<in> fst ` set (properties c). property_name name"
    and dist: "distinct (map fst (properties c))"
    by (auto simp: bt_invar_def)
  then have "load_properties (protocol_properties c) = map_of (rev ?es)"
    by (auto simp: load_properties_def scan_protocol_properties foldl_add_entries property_name_def)
  also have "\<dots> = map_of ?es"
    using dist by (intro map_of_rev_distinct distinct_map_filter)
  also have "\<dots> = (\<lambda>name. if is_sensitive_name name then None else get c name)"
    by (simp add: fun_eq_iff get_def bt_get_def
        map_of_filter_key [where P = "\<lambda>n. \<not> is_sensitive_name n"])
  finally show ?thesis .
qed

lemma protocol_properties_roundtrip_sample:
  "load_properties (protocol_properties sample_config) ''a'' = Some ''/o/x''
   \<and> load_properties (protocol_properties sample_config) ''key'' = None"
  unfolding protocol_properties_roundtrip [OF sample_load] by code_simp

subsection \<open>Overrides of the command line\<close>

lemma lock_overrides_last:
  assumes "fold_result (lock_override P) (before @ ov # later) (env0, locked0) = Inr (env, locked)"
    and "split_property ov = Some (''set.'' @ n, v)"
    and "\<forall>ov' \<in> set later. \<forall>m w. split_property ov' = Some (''set.'' @ m, w) \<longrightarrow>
      normalize_environment_name P m \<noteq> normalize_environment_name P n"
  shows "normalize_environment_name P n \<in> set locked
    \<and> bt_get env (normalize_environment_name P n) = Some v"
proof -
  let ?n = "normalize_environment_name P n"
  let ?I = "\<lambda>st. ?n \<in> set (snd st) \<and> bt_get (fst st) ?n = Some v"
  from assms(1) obtain st st1 where one: "lock_override P ov st = Inr st1" and
    run: "fold_result (lock_override P) later st1 = Inr (env, locked)"
    by (auto simp: bind_result_eq_Inr)
  from one assms(2) have "?I st1"
    by (cases st) (auto elim!: lock_override_cases simp: set_insort_insert)
  with run have "?I (env, locked)"
    by (rule fold_result_invariant [where P = ?I])
      (use assms(3) in \<open>auto elim!: lock_override_cases simp: set_insort_insert\<close>)
  then show ?thesis by simp
qed

text \<open>
  C20. A \<open>set.NAME=value\<close> override on the command line decides the environment variable: it
  keeps this value after loading, whatever the configuration file and its includes assign to
  it, and whatever else is overridden (the last override of one name counts).
\<close>

theorem set_override_locks_environment:
  assumes "config_load P path dir (before @ ov # later) = Inr c"
    and "split_property ov = Some (''set.'' @ n, v)"
    and "\<forall>ov' \<in> set later. \<forall>m w. split_property ov' = Some (''set.'' @ m, w) \<longrightarrow>
      normalize_environment_name P m \<noteq> normalize_environment_name P n"
  shows "bt_get (environment c) (normalize_environment_name P n) = Some v"
proof -
  let ?n = "normalize_environment_name P n"
  from assms(1) obtain L0 where new: "loader_new P dir (before @ ov # later) = Inr L0"
    by (auto simp: config_load_def bind_result_eq_Inr)
  then have held: "?n \<in> set (locked_environment L0) \<and> bt_get (ld_environment L0) ?n = Some v"
    using lock_overrides_last [OF _ assms(2,3)]
    by (fastforce simp: loader_new_def bind_result_eq_Inr split: prod.splits)
  from assms(1) obtain L where "locked_as (locked_environment L0) (ld_environment L0) L"
    and "environment c = ld_environment L"
    by (rule locked_loader.config_load_keeps) (use new in \<open>auto simp: locked_as_def\<close>)
  with held show ?thesis by (simp add: locked_as_def)
qed

theorem set_override_locks_environment_witness:
  "bt_get (environment sample_config) ''H'' = Some ''/o''"
proof -
  have "split_property ''set.H=/o'' = Some (''set.'' @ ''H'', ''/o'')"
    and "normalize_environment_name sample_platform ''H'' = ''H''"
    and "split_property ''b=1'' = Some (''b'', ''1'')"
    by code_simp+
  with set_override_locks_environment
    [of sample_platform "''w''" "''/d''" "[]" "''set.H=/o''" "[''b=1'']" sample_config "''H''" "''/o''"]
  show ?thesis using sample_load by simp
qed

lemma apply_override_cases:
  assumes "apply_override P ov L = Inr L'"
  obtains n v where "split_property ov = Some (n, v)"
    "L' = set_property P n (expand_environment P v (ld_environment L)) L"
  using assms by (auto simp: apply_override_def ok_or_def bind_result_eq_Inr split: option.splits)

lemma apply_overrides_last:
  assumes "apply_overrides P (before @ ov # later) L = Inr L'"
    and "split_property ov = Some (n, v)" and "CHR ''%'' \<notin> set v"
    and "\<forall>ov' \<in> set later. \<forall>w. split_property ov' \<noteq> Some (n, w)"
  shows "bt_get (ld_properties L') n = Some v"
proof -
  let ?I = "\<lambda>L. bt_get (ld_properties L) n = Some v"
  from assms(1) obtain L1 L2 where one: "apply_override P ov L1 = Inr L2"
    and run: "fold_result (apply_override P) later L2 = Inr L'"
    by (auto simp: apply_overrides_def bind_result_eq_Inr)
  from one assms(2,3) have "?I L2" by (auto elim!: apply_override_cases)
  with run show ?thesis
    by (rule fold_result_invariant [where P = ?I])
      (use assms(4) in \<open>auto elim!: apply_override_cases\<close>)
qed

text \<open>
  C21. An override of a property on the command line has the last word over the
  configuration file and its includes; of several overrides of one name the last one counts.
\<close>

theorem override_decides_property:
  assumes "config_load P path dir (before @ ov # later) = Inr c"
    and "split_property ov = Some (n, v)" and "CHR ''%'' \<notin> set v"
    and "\<forall>ov' \<in> set later. \<forall>w. split_property ov' \<noteq> Some (n, w)"
  shows "get c n = Some v"
proof -
  from assms(1) show ?thesis
  proof (rule config_load_cases)
    fix L0 L L'
    assume run: "apply_overrides P (before @ ov # later) L = Inr L'"
      and "properties c = ld_properties (warn_about_unsupported_properties L')"
    with warned_only.warn_about_unsupported_keeps [of L' "ld_properties L'"]
    have "properties c = ld_properties L'" by simp
    then show "get c n = Some v"
      using apply_overrides_last [OF run assms(2-4)] by (simp add: get_def)
  qed
qed

theorem override_decides_property_witness: "get sample_config ''b'' = Some ''1''"
proof -
  have "split_property ''b=1'' = Some (''b'', ''1'')" by code_simp
  then show ?thesis
    using override_decides_property
      [of sample_platform "''w''" "''/d''" "[''set.H=/o'']" "''b=1''" "[]" sample_config "''b''" "''1''"]
      sample_load by simp
qed

subsection \<open>The frame of loading a file\<close>

lemma load_file_stack:
  "load_file P left path req L = Inr L' \<Longrightarrow> include_stack L' = include_stack L"
proof (induction left arbitrary: path req L L')
  case (Suc left)
  have line: "include_stack L' = include_stack L"
    if "parse_line P (load_file P left) canonical nl L = Inr L'" for canonical nl L L'
    using that by (cases rule: parse_line_cases) (auto dest: Suc.IH)
  from Suc.prems show ?case
  proof (cases rule: load_file_cases)
    case (lines canonical L1 L3 ls)
    from lines(3) have "include_stack L3 = include_stack L1 @ [canonical]"
      by (rule fold_result_invariant [where P = "\<lambda>L. include_stack L = include_stack L1 @ [canonical]"])
        (auto dest: line)
    with lines(1,4) show ?thesis by auto
  qed simp
qed simp

text \<open>
  A file that loads, with all its includes, leaves the include stack as it found it and
  never changes which environment names are locked; warnings are only added, none is lost.
\<close>

lemma load_file_frame:
  assumes "load_file P left path req L = Inr L'"
  shows "include_stack L' = include_stack L
    \<and> locked_environment L' = locked_environment L
    \<and> (\<exists>ws. ld_warnings L' = ld_warnings L @ ws)"
  using load_file_stack [OF assms]
    locked_loader.load_file_keeps [OF assms, of "locked_environment L" "ld_environment L"]
    warned_loader.load_file_keeps [OF assms, of "ld_warnings L"]
  by (simp add: locked_as_def warned_since_def)

lemma load_file_frame_sample:
  "\<exists>L L'. load_file sample_platform (Suc max_include_depth) ''w'' True L = Inr L'
     \<and> include_stack L' = include_stack L"
  using sample_load
proof (rule config_load_cases)
  fix L0 L1 L2
  assume "load_file sample_platform (Suc max_include_depth) ''w'' True L0 = Inr L1"
  then show ?thesis using load_file_frame by blast
qed

end
