(* ===== verification/Config_Numbered.thy ===== *)
theory Config_Numbered
  imports Config_Sample
begin

section \<open>Correctness of numbered properties and of the include stack\<close>

text \<open>
  \<open>Config::numbered\<close> against its two readings (an uninterrupted sequence from 1, or every
  index there is), and the frame of \<open>Loader::load_file\<close>.
\<close>

subsection \<open>Numbered properties\<close>

lemma numbered_from_upt:
  "\<exists>k. i \<le> k \<and> get c (numbered_name p k) = None
     \<and> numbered_from c p i = map (\<lambda>j. (j, the (get c (numbered_name p j)))) [i..<k]
     \<and> (\<forall>j. i \<le> j \<and> j < k \<longrightarrow> get c (numbered_name p j) \<noteq> None)"
proof (induction c p i rule: numbered_from.induct)
  case (1 c p i)
  show ?case
  proof (cases "get c (numbered_name p i)")
    case None
    then show ?thesis by (intro exI [of _ i]) (auto simp: numbered_from.simps)
  next
    case (Some v)
    with 1 obtain k where "Suc i \<le> k" "get c (numbered_name p k) = None"
      "numbered_from c p (Suc i) = map (\<lambda>j. (j, the (get c (numbered_name p j)))) [Suc i..<k]"
      "\<forall>j. Suc i \<le> j \<and> j < k \<longrightarrow> get c (numbered_name p j) \<noteq> None"
      by blast
    moreover from this(4) have "\<forall>j. i \<le> j \<and> j < k \<longrightarrow> get c (numbered_name p j) \<noteq> None"
      using Some by (metis Suc_leI le_neq_implies_less option.distinct(1))
    ultimately show ?thesis using Some
      by (intro exI [of _ k])
        (auto simp: numbered_from.simps [of c p i] upt_rec [of i k] Suc_le_eq)
  qed
qed

text \<open>
  Without \<open>wrapper.ignore_sequence_gaps\<close> a numbered family is the longest
  uninterrupted sequence that starts at index 1, in order: the scan ends (it is a total
  function) at the first index that is not defined and has skipped none.
\<close>

lemma numbered_is_longest_sequence:
  assumes "\<not> get_bool c ''wrapper.ignore_sequence_gaps'' False"
  shows "\<exists>k. get c (numbered_name p (Suc k)) = None
    \<and> map fst (numbered c p) = [1..<Suc k]
    \<and> (\<forall>j. 1 \<le> j \<and> j \<le> k \<longrightarrow>
        (\<exists>v. get c (numbered_name p j) = Some v \<and> numbered c p ! (j - 1) = (j, v)))"
proof -
  from numbered_from_upt [of 1 c p] obtain k where k: "1 \<le> k" "get c (numbered_name p k) = None"
    "numbered_from c p 1 = map (\<lambda>j. (j, the (get c (numbered_name p j)))) [1..<k]"
    "\<forall>j. 1 \<le> j \<and> j < k \<longrightarrow> get c (numbered_name p j) \<noteq> None"
    by blast
  from k(1) obtain l where "k = Suc l" by (cases k) auto
  with k assms show ?thesis
    by (intro exI [of _ l]) (auto simp: numbered_def comp_def nth_append simp del: upt_Suc)
qed

definition numbered_sample :: config where
  "numbered_sample =
     \<lparr>root_path = ''w'', executable_directory = ''/d'',
      properties = [(''p.1'', ''a''), (''p.2'', ''b''), (''p.4'', ''d'')],
      environment = [], warnings = []\<rparr>"

definition gaps_sample :: config where
  "gaps_sample = numbered_sample
     \<lparr>properties := properties numbered_sample @ [(''wrapper.ignore_sequence_gaps'', ''true'')]\<rparr>"

lemma numbered_is_longest_sequence_sample:
  "\<exists>k. get numbered_sample (numbered_name ''p'' (Suc k)) = None
    \<and> map fst (numbered numbered_sample ''p'') = [1..<Suc k]"
proof -
  have "\<not> get_bool numbered_sample ''wrapper.ignore_sequence_gaps'' False" by code_simp
  from numbered_is_longest_sequence [OF this, of "''p''"] show ?thesis by blast
qed

lemma map_filter_member: "y \<in> set (List.map_filter f xs) \<longleftrightarrow> (\<exists>x \<in> set xs. f x = Some y)"
  by (force simp: List.map_filter_def)

lemma gap_entry:
  "(case strip_prefix q name of None \<Rightarrow> None
    | Some suffix \<Rightarrow>
        (case parse_unsigned m suffix of None \<Rightarrow> None
         | Some index \<Rightarrow> if 0 < index then Some (index, w) else None)) = Some (i, v) \<longleftrightarrow>
   (\<exists>suffix. name = q @ suffix \<and> parse_unsigned m suffix = Some i \<and> 0 < i \<and> w = v)"
  by (cases "strip_prefix q name")
    (auto simp: strip_prefix_eq_None starts_with_iff strip_prefix_eq_Some split: option.splits if_splits)

lemma numbered_with_gaps_set:
  "(i, v) \<in> set (numbered_with_gaps c p) \<longleftrightarrow>
     (\<exists>suffix. (p @ ''.'' @ suffix, v) \<in> set (properties c)
        \<and> parse_unsigned (2 ^ 32 - 1) suffix = Some i \<and> 0 < i)"
  unfolding numbered_with_gaps_def set_sort map_filter_member
  by (simp add: split_beta gap_entry Bex_def split_paired_Ex) blast

text \<open>
  With \<open>wrapper.ignore_sequence_gaps\<close> a numbered family is ordered by its index and
  complete: every property \<open>prefix.N\<close> with an index from 1 to the largest 32-bit integer
  is in it with its value, and nothing is in it that is not such a property.
\<close>

lemma numbered_with_gaps_complete:
  assumes "get_bool c ''wrapper.ignore_sequence_gaps'' False"
  shows "sorted (map fst (numbered c p))
    \<and> (\<forall>i v. 1 \<le> i \<and> i < 2 ^ 32 \<and> get c (numbered_name p i) = Some v \<longrightarrow> (i, v) \<in> set (numbered c p))
    \<and> (\<forall>(i, v) \<in> set (numbered c p). 1 \<le> i
        \<and> (\<exists>suffix. parse_unsigned (2 ^ 32 - 1) suffix = Some i
             \<and> (p @ ''.'' @ suffix, v) \<in> set (properties c)))"
proof (intro conjI)
  show "sorted (map fst (numbered c p))"
    using assms by (simp add: numbered_def numbered_with_gaps_def)
  show "\<forall>i v. 1 \<le> i \<and> i < 2 ^ 32 \<and> get c (numbered_name p i) = Some v \<longrightarrow> (i, v) \<in> set (numbered c p)"
    using assms
    by (auto simp: numbered_def numbered_with_gaps_set numbered_name_def get_def bt_get_def
        dest!: map_of_SomeD intro!: exI [of _ "show_nat i" for i])
  show "\<forall>(i, v) \<in> set (numbered c p). 1 \<le> i
        \<and> (\<exists>suffix. parse_unsigned (2 ^ 32 - 1) suffix = Some i
             \<and> (p @ ''.'' @ suffix, v) \<in> set (properties c))"
    using assms by (auto simp: numbered_def numbered_with_gaps_set)
qed

lemma numbered_with_gaps_complete_sample:
  "(4, ''d'') \<in> set (numbered gaps_sample ''p'')"
proof -
  have gaps: "get_bool gaps_sample ''wrapper.ignore_sequence_gaps'' False"
    and "get gaps_sample (numbered_name ''p'' 4) = Some ''d''" by code_simp+
  with numbered_with_gaps_complete [OF gaps, of "''p''"] show ?thesis by simp
qed

end
