(* ===== verification/Cli.thy ===== *)
theory Cli
  imports Platform
begin

section \<open>The command line: \<open>src/cli.rs\<close>\<close>

text \<open>
  The commands, \<open>Cli::parse\<close> with its branches in the order of the code, and the
  resolution of the configuration path. An operating-system string is a byte string; it is
  valid Unicode if it is valid UTF-8.
\<close>

datatype legacy_command =
    Cmd_Console | Cmd_Service | Cmd_Start | Cmd_Pause | Cmd_Resume | Cmd_Stop
  | Cmd_Install | Cmd_InstallStart | Cmd_Remove | Cmd_ControlCode u32
  | Cmd_Dump | Cmd_HeapDump | Cmd_Query bool | Cmd_Version | Cmd_Help

definition needs_configuration :: "legacy_command \<Rightarrow> bool" where
  "needs_configuration cmd \<longleftrightarrow> \<not> (cmd = Cmd_Version \<or> cmd = Cmd_Help)"

record cli =
  command :: legacy_command
  configuration :: string
  overrides :: "string list"
  application_args :: "string list"

definition to_str :: "string \<Rightarrow> string option" where
  "to_str s = from_utf8 (as_bytes s)"

definition looks_like_override :: "string \<Rightarrow> bool" where
  "looks_like_override value \<longleftrightarrow> CHR ''='' \<in> set (display value)"

definition control_code :: "string \<Rightarrow> error + legacy_command option" where
  "control_code code =
     (case parse_word code of
       None \<Rightarrow> Inl (Error_Cli (''invalid control code: '' @ code))
     | Some n \<Rightarrow> Inr (Some (Cmd_ControlCode n)))"

definition command_words :: "(string \<times> legacy_command) list" where
  "command_words =
     [(''-c'', Cmd_Console), (''--console'', Cmd_Console),
      (''-s'', Cmd_Service), (''--service'', Cmd_Service),
      (''-t'', Cmd_Start), (''--start'', Cmd_Start),
      (''-a'', Cmd_Pause), (''--pause'', Cmd_Pause),
      (''-e'', Cmd_Resume), (''--resume'', Cmd_Resume),
      (''-p'', Cmd_Stop), (''--stop'', Cmd_Stop),
      (''-i'', Cmd_Install), (''--install'', Cmd_Install),
      (''-it'', Cmd_InstallStart), (''--installstart'', Cmd_InstallStart),
      (''-r'', Cmd_Remove), (''--remove'', Cmd_Remove),
      (''-d'', Cmd_Dump), (''--dump'', Cmd_Dump), (''--heapdump'', Cmd_HeapDump),
      (''-q'', Cmd_Query False), (''--query'', Cmd_Query False),
      (''-qs'', Cmd_Query True), (''--querysilent'', Cmd_Query True),
      (''-v'', Cmd_Version), (''--version'', Cmd_Version),
      (''-?'', Cmd_Help), (''--help'', Cmd_Help), (''-h'', Cmd_Help)]"

definition parse_command :: "string \<Rightarrow> error + legacy_command option" where
  "parse_command argument =
     (let lower = to_ascii_lowercase (display argument) in
      case map_of command_words lower of
        Some cmd \<Rightarrow> Inr (Some cmd)
      | None \<Rightarrow>
          (case strip_prefix ''-l='' lower of
            Some code \<Rightarrow> control_code code
          | None \<Rightarrow>
              (case strip_prefix ''--controlcode='' lower of
                Some code \<Rightarrow> control_code code
              | None \<Rightarrow> Inr None)))"

text \<open>The three stages of \<open>Cli::parse\<close>: the command, the configuration, the overrides.\<close>

definition split_arguments :: "string list \<Rightarrow> string list \<times> string list" where
  "split_arguments arguments =
     (let wrapper_args = takeWhile (\<lambda>a. a \<noteq> ''--'') arguments
      in (wrapper_args, drop (Suc (length wrapper_args)) arguments))"

definition select_command :: "string list \<Rightarrow> error + legacy_command \<times> nat \<times> bool" where
  "select_command wrapper_args =
     (case wrapper_args of
       [] \<Rightarrow> Inr (Cmd_Console, 0, False)
     | first # _ \<Rightarrow>
         bind_result (parse_command first) (\<lambda>parsed.
           case parsed of
             Some cmd \<Rightarrow> Inr (cmd, 1, True)
           | None \<Rightarrow>
               if starts_with ''-'' (display first) then
                 Inl (Error_Cli (''unknown command: '' @ display first))
               else Inr (Cmd_Console, 0, False)))"

definition select_configuration ::
    "string list \<Rightarrow> legacy_command \<times> nat \<times> bool \<Rightarrow> error + string \<times> nat" where
  "select_configuration wrapper_args st =
     (case st of (cmd, cursor, explicit_command) \<Rightarrow>
       if needs_configuration cmd \<and> cursor < length wrapper_args then
         (let candidate = wrapper_args ! cursor in
          if \<not> looks_like_override candidate then Inr (candidate, cursor + 1)
          else if \<not> explicit_command then Inl (Error_Cli ''missing configuration file'')
          else Inr (''wrapper.conf'', cursor))
       else Inr (''wrapper.conf'', cursor))"

definition collect_override :: "string \<Rightarrow> string list \<Rightarrow> error + string list" where
  "collect_override argument collected =
     bind_result
       (ok_or (Error_Cli ''configuration property overrides must be valid Unicode'') (to_str argument))
       (\<lambda>text.
         if CHR ''='' \<notin> set text then
           Inl (Error_Cli (''expected a name=value property, found: '' @ text))
         else Inr (collected @ [text]))"

definition parse :: "string list \<Rightarrow> error + cli" where
  "parse arguments =
     (case split_arguments arguments of (wrapper_args, app_args) \<Rightarrow>
       bind_result (select_command wrapper_args) (\<lambda>(cmd, cursor, explicit_command).
       bind_result (select_configuration wrapper_args (cmd, cursor, explicit_command))
         (\<lambda>(conf, cursor).
       bind_result (fold_result collect_override (drop cursor wrapper_args) []) (\<lambda>ovs.
         Inr \<lparr>command = cmd, configuration = conf, overrides = ovs,
              application_args = app_args\<rparr>))))"

definition resolve_configuration :: "platform \<Rightarrow> cli \<Rightarrow> string \<Rightarrow> string" where
  "resolve_configuration P c executable_directory =
     (if is_absolute P (configuration c) then configuration c
      else path_join P executable_directory (configuration c))"

subsection \<open>Correctness\<close>

lemma takeWhile_no_separator: "''--'' \<notin> set ws \<Longrightarrow> takeWhile (\<lambda>a. a \<noteq> ''--'') (ws @ r) =
    ws @ takeWhile (\<lambda>a. a \<noteq> ''--'') r"
  by (induction ws) auto

lemma split_arguments_append:
  "''--'' \<notin> set ws \<Longrightarrow> split_arguments (ws @ ''--'' # apps) = (ws, apps)"
  by (simp add: split_arguments_def takeWhile_no_separator)

lemma split_arguments_none: "''--'' \<notin> set ws \<Longrightarrow> split_arguments ws = (ws, [])"
  using takeWhile_no_separator [of ws "[]"]
  by (simp add: split_arguments_def Let_def del: takeWhile_eq_all_conv)

lemma to_str_same: "to_str s = Some t \<Longrightarrow> t = s"
  by (auto simp: to_str_def from_utf8_def split: if_splits)

lemma collect_overrides:
  "fold_result collect_override args acc = Inr result \<longleftrightarrow>
     result = acc @ args \<and> (\<forall>a \<in> set args. to_str a = Some a \<and> CHR ''='' \<in> set a)"
proof (induction args arbitrary: acc)
  case (Cons a args)
  then show ?case
    using to_str_same [of a]
    by (cases "to_str a") (auto simp: collect_override_def bind_result_eq_Inr)
qed auto

lemma select_command_cursor: "select_command ws = Inr (cmd, cursor, b) \<Longrightarrow> cursor \<le> 1"
  by (auto simp: select_command_def bind_result_eq_Inr split: list.splits option.splits if_splits)

lemma select_configuration_cursor:
  "select_configuration ws (cmd, cursor, b) = Inr (conf, cursor') \<Longrightarrow> cursor' \<le> Suc cursor"
  by (auto simp: select_configuration_def Let_def split: if_splits)

lemma parse_cases:
  assumes "parse arguments = Inr c"
  obtains cursor where "cursor \<le> 2" "overrides c = drop cursor (fst (split_arguments arguments))"
    "\<forall>a \<in> set (overrides c). to_str a = Some a \<and> CHR ''='' \<in> set a"
proof -
  obtain ws apps where split: "split_arguments arguments = (ws, apps)" by fastforce
  with assms obtain cmd cursor b conf cursor' where sel: "select_command ws = Inr (cmd, cursor, b)"
    and conf: "select_configuration ws (cmd, cursor, b) = Inr (conf, cursor')"
    and ovs: "overrides c = drop cursor' ws"
    and ok: "\<forall>a \<in> set (drop cursor' ws). to_str a = Some a \<and> CHR ''='' \<in> set a"
    by (auto simp: parse_def bind_result_eq_Inr collect_overrides)
  from select_command_cursor [OF sel] select_configuration_cursor [OF conf] have "cursor' \<le> 2"
    by simp
  with that [of cursor'] ovs ok split show ?thesis by simp
qed

text \<open>
  What follows the first \<open>--\<close> is the application's: it reaches the command line's
  result as it is, and it has no influence on anything else of the result or on the error.
\<close>

lemma parse_application_arguments:
  assumes "''--'' \<notin> set ws"
  shows "parse (ws @ ''--'' # apps) =
    bind_result (parse ws) (\<lambda>c. Inr (c\<lparr>application_args := apps\<rparr>))"
  using assms
  by (auto simp: parse_def split_arguments_append split_arguments_none bind_result_def
      split: sum.splits prod.splits)

lemma parse_application_arguments_sample:
  "parse ([''-s'', ''w.conf''] @ ''--'' # [''-x'', ''--'', ''a=b'']) =
     Inr \<lparr>command = Cmd_Service, configuration = ''w.conf'', overrides = [],
          application_args = [''-x'', ''--'', ''a=b'']\<rparr>"
proof -
  have "parse [''-s'', ''w.conf''] =
     Inr \<lparr>command = Cmd_Service, configuration = ''w.conf'', overrides = [], application_args = []\<rparr>"
    by code_simp
  with parse_application_arguments [of "[''-s'', ''w.conf'']" "[''-x'', ''--'', ''a=b'']"]
  show ?thesis by simp
qed

text \<open>
  An accepted command line is consumed completely: after at most a command and a
  configuration file, every wrapper argument is an override of the form \<open>name=value\<close> in
  valid Unicode, all of them are kept verbatim and in order.
\<close>

lemma parse_keeps_overrides:
  assumes "parse arguments = Inr c"
  shows "\<exists>prefix. length prefix \<le> 2
    \<and> takeWhile (\<lambda>a. a \<noteq> ''--'') arguments = prefix @ overrides c
    \<and> (\<forall>a \<in> set (overrides c). to_str a = Some a \<and> CHR ''='' \<in> set a)"
  using assms
proof (rule parse_cases)
  fix cursor
  assume "cursor \<le> 2" and "overrides c = drop cursor (fst (split_arguments arguments))"
    and "\<forall>a \<in> set (overrides c). to_str a = Some a \<and> CHR ''='' \<in> set a"
  then show ?thesis
    by (intro exI [of _ "take cursor (fst (split_arguments arguments))"])
      (simp add: split_arguments_def Let_def)
qed

subsection \<open>The grammar of the command line\<close>

text \<open>
  What a command line looks like, without a cursor: nothing, a configuration file, a command
  word, or a command word and a configuration file; then overrides. A configuration file
  without a command word must not look like an option.
\<close>

definition override_words :: "string list \<Rightarrow> bool" where
  "override_words ovs \<longleftrightarrow> (\<forall>a \<in> set ovs. to_str a = Some a \<and> CHR ''='' \<in> set a)"

inductive wrapper_words :: "string list \<Rightarrow> legacy_command \<Rightarrow> string \<Rightarrow> string list \<Rightarrow> bool" where
  bare: "wrapper_words [] Cmd_Console ''wrapper.conf'' []"
| file_only: "parse_command f = Inr None \<Longrightarrow> \<not> starts_with ''-'' (display f) \<Longrightarrow> \<not> looks_like_override f
    \<Longrightarrow> override_words ovs \<Longrightarrow> wrapper_words (f # ovs) Cmd_Console f ovs"
| command_only: "parse_command w = Inr (Some cmd) \<Longrightarrow> override_words ovs
    \<Longrightarrow> wrapper_words (w # ovs) cmd ''wrapper.conf'' ovs"
| command_and_file: "parse_command w = Inr (Some cmd) \<Longrightarrow> needs_configuration cmd \<Longrightarrow> \<not> looks_like_override f
    \<Longrightarrow> override_words ovs \<Longrightarrow> wrapper_words (w # f # ovs) cmd f ovs"

inductive_cases wrapper_words_NilE: "wrapper_words [] cmd f ovs"
inductive_cases wrapper_words_ConsE: "wrapper_words (w # ws) cmd f ovs"

lemma override_looks_like_one: "to_str a = Some a \<Longrightarrow> CHR ''='' \<in> set a \<Longrightarrow> looks_like_override a"
  by (auto simp: to_str_def from_utf8_def looks_like_override_def display_def utf8_lossy_valid split: if_splits)

text \<open>The three stages after the separator has been found.\<close>

definition parse_words :: "string list \<Rightarrow> error + legacy_command \<times> string \<times> string list" where
  "parse_words ws =
     bind_result (select_command ws) (\<lambda>(cmd, cursor, explicit_command).
     bind_result (select_configuration ws (cmd, cursor, explicit_command)) (\<lambda>(conf, cursor).
     bind_result (fold_result collect_override (drop cursor ws) []) (\<lambda>ovs. Inr (cmd, conf, ovs))))"

lemma overrides_read:
  "bind_result (fold_result collect_override ws []) (\<lambda>ovs. Inr (cmd, conf, ovs)) = Inr (cmd', conf', ovs') \<longleftrightarrow>
     cmd' = cmd \<and> conf' = conf \<and> ovs' = ws \<and> override_words ws"
  by (auto simp: bind_result_eq_Inr collect_overrides override_words_def)

lemma parse_words_Nil: "parse_words [] = Inr (cmd, conf, ovs) \<longleftrightarrow> wrapper_words [] cmd conf ovs"
  by (auto simp: parse_words_def select_command_def select_configuration_def intro: bare elim: wrapper_words_NilE)

lemma parse_words_command:
  assumes "parse_command w = Inr (Some cmd)"
  shows "parse_words (w # ws) =
    (if needs_configuration cmd \<and> ws \<noteq> [] \<and> \<not> looks_like_override (hd ws)
     then bind_result (fold_result collect_override (tl ws) []) (\<lambda>ovs. Inr (cmd, hd ws, ovs))
     else bind_result (fold_result collect_override ws []) (\<lambda>ovs. Inr (cmd, ''wrapper.conf'', ovs)))"
  using assms by (cases ws) (simp_all add: parse_words_def select_command_def select_configuration_def)

lemma parse_words_file:
  assumes "parse_command w = Inr None"
  shows "parse_words (w # ws) =
    (if starts_with ''-'' (display w) then Inl (Error_Cli (''unknown command: '' @ display w))
     else if looks_like_override w then Inl (Error_Cli ''missing configuration file'')
     else bind_result (fold_result collect_override ws []) (\<lambda>ovs. Inr (Cmd_Console, w, ovs)))"
  using assms
  by (simp add: parse_words_def select_command_def select_configuration_def needs_configuration_def)

lemma parse_words_explicit:
  assumes "parse_command w = Inr (Some cmd)"
  shows "parse_words (w # ws) = Inr (cmd', conf, ovs) \<longleftrightarrow> wrapper_words (w # ws) cmd' conf ovs" (is "?l \<longleftrightarrow> ?r")
proof
  assume read: ?l
  show ?r
  proof (cases "needs_configuration cmd \<and> ws \<noteq> [] \<and> \<not> looks_like_override (hd ws)")
    case True
    with read assms have "cmd' = cmd" "conf = hd ws" "ovs = tl ws" "override_words ovs"
      by (simp_all add: parse_words_command overrides_read)
    with command_and_file [OF assms, of "hd ws" "tl ws"] True show ?thesis by simp
  next
    case False
    with read assms have "cmd' = cmd" "conf = ''wrapper.conf''" "ovs = ws" "override_words ws"
      unfolding parse_words_command [OF assms] if_not_P [OF False] overrides_read by blast+
    with assms show ?thesis by (simp only: command_only)
  qed
next
  assume ?r
  then show ?l
  proof (rule wrapper_words_ConsE)
    assume "conf = ''wrapper.conf''" "ovs = ws" and word: "parse_command w = Inr (Some cmd')" and "override_words ws"
    moreover have "\<not> (ws \<noteq> [] \<and> \<not> looks_like_override (hd ws))"
      using \<open>override_words ws\<close> override_looks_like_one by (cases ws) (auto simp: override_words_def)
    ultimately show ?l unfolding parse_words_command [OF word] by (auto simp: overrides_read)
  next
    assume "ws = conf # ovs" and word: "parse_command w = Inr (Some cmd')" and "needs_configuration cmd'"
      and "\<not> looks_like_override conf" and "override_words ovs"
    then show ?l unfolding parse_words_command [OF word] by (simp add: overrides_read)
  qed (use assms in simp)
qed

lemma parse_words_implicit:
  assumes "parse_command w = Inr None"
  shows "parse_words (w # ws) = Inr (cmd, conf, ovs) \<longleftrightarrow> wrapper_words (w # ws) cmd conf ovs"
  using assms
  by (auto simp: parse_words_file overrides_read intro: file_only elim: wrapper_words_ConsE)

lemma parse_words_grammar: "parse_words ws = Inr (cmd, conf, ovs) \<longleftrightarrow> wrapper_words ws cmd conf ovs"
proof (cases ws)
  case (Cons w rest)
  show ?thesis
  proof (cases "parse_command w")
    case (Inl e)
    then show ?thesis
      unfolding Cons by (auto simp: parse_words_def select_command_def elim: wrapper_words_ConsE)
  next
    case (Inr parsed)
    then show ?thesis
      unfolding Cons by (cases parsed) (simp_all add: parse_words_implicit parse_words_explicit)
  qed
qed (simp add: parse_words_Nil)

text \<open>
  C23. The parser accepts exactly the command lines of the grammar, with the reading the
  grammar gives them: the words before the first \<open>--\<close> are an optional command word, an
  optional configuration file and \<open>name=value\<close> overrides, everything after it is the
  application's. Every other command line is rejected with an error.
\<close>

theorem parse_accepts_grammar:
  "parse args = Inr c \<longleftrightarrow>
     wrapper_words (takeWhile (\<lambda>a. a \<noteq> ''--'') args) (command c) (configuration c) (overrides c)
     \<and> application_args c = tl (dropWhile (\<lambda>a. a \<noteq> ''--'') args)"
proof -
  have rest: "drop (Suc (length (takeWhile (\<lambda>a. a \<noteq> ''--'') args))) args = tl (dropWhile (\<lambda>a. a \<noteq> ''--'') args)"
    by (simp add: dropWhile_eq_drop drop_Suc tl_drop)
  have "parse args = Inr c \<longleftrightarrow>
      parse_words (fst (split_arguments args)) = Inr (command c, configuration c, overrides c)
      \<and> application_args c = snd (split_arguments args)"
    by (cases c) (auto simp: parse_def parse_words_def bind_result_eq_Inr split: prod.splits)
  then show ?thesis
    unfolding parse_words_grammar using rest by (simp add: split_arguments_def Let_def)
qed

end
