(* ===== verification/Telemetry.thy ===== *)
theory Telemetry
  imports Prelude
begin

section \<open>Telemetry events: \<open>src/telemetry.rs\<close>\<close>

text \<open>
  The lifecycle events and their publication through a bounded channel. A send never blocks:
  an event that does not fit is dropped.
\<close>

datatype event_kind =
    WrapperStarted
  | JvmLaunching u32
  | JvmStarted u32 u32
  | JvmStopped u32 "int option"
  | RestartRequested string
  | FilterMatched u32
  | ProtocolAuthenticated
  | ProtocolDisconnected
  | ServicePaused
  | ServiceResumed
  | ThreadDumpStarted u32 u32 string
  | ThreadDumpCompleted u32 string
  | HeapDumpStarted u32 u32 string
  | HeapDumpCompleted u32 string u64
  | Event_Warning string

record event =
  observed_at :: nat
  event_kind :: event_kind

record event_publisher =
  capacity :: nat
  queued :: "event list"

definition bounded :: "nat \<Rightarrow> event_publisher" where
  "bounded n = \<lparr>capacity = n, queued = []\<rparr>"

definition publish :: "nat \<Rightarrow> event_kind \<Rightarrow> event_publisher \<Rightarrow> event_publisher" where
  "publish now k p =
     (if length (queued p) < capacity p
      then p\<lparr>queued := queued p @ [\<lparr>observed_at = now, event_kind = k\<rparr>]\<rparr> else p)"

definition take_event :: "event_publisher \<Rightarrow> event option \<times> event_publisher" where
  "take_event p =
     (case queued p of [] \<Rightarrow> (None, p) | e # es \<Rightarrow> (Some e, p\<lparr>queued := es\<rparr>))"

lemma capacity_publish [simp]: "capacity (publish now k p) = capacity p"
  by (simp add: publish_def)

lemma capacity_publishes: "capacity (fold (\<lambda>(t, k). publish t k) es p) = capacity p"
  by (induction es arbitrary: p) auto

lemma publishes_take:
  "queued (fold (\<lambda>(t, k). publish t k) es p) =
     queued p @ take (capacity p - length (queued p))
       (map (\<lambda>(t, k). \<lparr>observed_at = t, event_kind = k\<rparr>) es)"
proof (induction es arbitrary: p)
  case (Cons e es)
  obtain t k where "e = (t, k)" by fastforce
  then show ?case
    using Cons [of "publish t k p"]
    by (cases "length (queued p) < capacity p") (simp_all add: publish_def [of t k p] take_Cons')
qed simp


end
