(* ===== verification/Protocol.thy ===== *)
theory Protocol
  imports Platform
begin

section \<open>The control channel: \<open>src/protocol.rs\<close>\<close>

text \<open>
  Packets and their framing, the reader of a connection, the listener with its pending
  handshakes, and the one-time key. What the sockets answer (accepted connections, bytes
  read, ports that are taken, the result of a write) is an argument of the operation that
  asks; a socket is identified by a number. Instants are nanoseconds; adding a duration
  that leaves the range of the clock panics, as in the standard library.
\<close>

subsection \<open>Failures and instants\<close>

datatype fault = Failed error | Panicked

definition instant_limit :: nat where
  "instant_limit = 2 ^ 64 * 1000000000"

definition instant_add :: "nat \<Rightarrow> nat \<Rightarrow> fault + nat" where
  "instant_add t d = (if t + d < instant_limit then Inr (t + d) else Inl Panicked)"

definition lift_error :: "error + 'a \<Rightarrow> fault + 'a" where
  "lift_error r = map_error Failed r"

subsection \<open>Packets\<close>

definition START :: u8 where "START = 100"
definition STOP :: u8 where "STOP = 101"
definition RESTART :: u8 where "RESTART = 102"
definition PING :: u8 where "PING = 103"
definition STOP_PENDING :: u8 where "STOP_PENDING = 104"
definition START_PENDING :: u8 where "START_PENDING = 105"
definition STARTED :: u8 where "STARTED = 106"
definition STOPPED :: u8 where "STOPPED = 107"
definition KEY :: u8 where "KEY = 110"
definition BAD_KEY :: u8 where "BAD_KEY = 111"
definition LOW_LOG_LEVEL :: u8 where "LOW_LOG_LEVEL = 112"
definition SERVICE_CONTROL :: u8 where "SERVICE_CONTROL = 114"
definition PROPERTIES :: u8 where "PROPERTIES = 115"
definition LOG_BASE :: u8 where "LOG_BASE = 116"
definition LOGFILE :: u8 where "LOGFILE = 134"
definition PAUSE :: u8 where "PAUSE = 138"
definition RESUME :: u8 where "RESUME = 139"
definition GC :: u8 where "GC = 140"

lemmas packet_codes =
  START_def STOP_def RESTART_def PING_def STOP_PENDING_def START_PENDING_def STARTED_def
  STOPPED_def KEY_def BAD_KEY_def LOW_LOG_LEVEL_def SERVICE_CONTROL_def PROPERTIES_def
  LOG_BASE_def LOGFILE_def PAUSE_def RESUME_def GC_def

definition max_packet_size :: nat where
  "max_packet_size = 1024 * 1024"

definition max_pending_handshakes :: nat where
  "max_pending_handshakes = 8"

definition event_queue_capacity :: nat where
  "event_queue_capacity = 256"

definition bad_key_message :: string where
  "bad_key_message = ''Authentication failed.''"

record packet =
  code :: u8
  message :: bytes

definition packet_text :: "u8 \<Rightarrow> string \<Rightarrow> packet" where
  "packet_text c m = \<lparr>code = c, message = as_bytes m\<rparr>"

definition message_lossy :: "packet \<Rightarrow> string" where
  "message_lossy p = utf8_lossy (message p)"

definition packet_too_large :: error where
  "packet_too_large = Error_Protocol (''packet larger than '' @ show_nat max_packet_size @ '' bytes'')"

text \<open>\<open>write_to\<close>: the frame it builds, and the one write of it.\<close>

definition packet_frame :: "packet \<Rightarrow> error + bytes" where
  "packet_frame p =
     (if max_packet_size < length (message p) then Inl packet_too_large
      else if 0 \<in> set (message p) then
        Inl (Error_Protocol ''a packet payload cannot contain a NUL byte'')
      else Inr ([code p] @ message p @ [0]))"

definition write_to :: "(bytes \<Rightarrow> io_error + unit) \<Rightarrow> packet \<Rightarrow> error + unit" where
  "write_to write p = bind_result (packet_frame p) (\<lambda>frame. map_error Error_Io (write frame))"

subsection \<open>The incremental decoder\<close>

record framer =
  pending_code :: "u8 option"
  partial :: bytes

definition framer_default :: framer where
  "framer_default = \<lparr>pending_code = None, partial = []\<rparr>"

definition is_idle :: "framer \<Rightarrow> bool" where
  "is_idle f \<longleftrightarrow> pending_code f = None"

definition feed_byte :: "u8 \<Rightarrow> framer \<times> packet list \<Rightarrow> error + framer \<times> packet list" where
  "feed_byte byte st =
     (case st of (f, completed) \<Rightarrow>
       (case pending_code f of
         None \<Rightarrow> Inr (f\<lparr>pending_code := Some byte\<rparr>, completed)
       | Some c \<Rightarrow>
           if byte = 0 then
             Inr (f\<lparr>pending_code := None, partial := []\<rparr>,
                  completed @ [\<lparr>code = c, message = partial f\<rparr>])
           else if max_packet_size \<le> length (partial f) then Inl packet_too_large
           else Inr (f\<lparr>partial := partial f @ [byte]\<rparr>, completed)))"

definition feed :: "bytes \<Rightarrow> framer \<Rightarrow> error + framer \<times> packet list" where
  "feed bs f = fold_result feed_byte bs (f, [])"

text \<open>
  What one \<open>read\<close> call answers; no bytes is the end of the stream. \<open>read_from\<close> reads
  byte by byte: the list holds the answers it gets, and it has not returned when they run out.
\<close>

datatype read_result = Read_Bytes bytes | Read_Failed io_error

fun read_from :: "framer \<Rightarrow> read_result list \<Rightarrow> (error + packet option) option" where
  "read_from f [] = None"
| "read_from f (Read_Bytes bs # rs) =
     (if bs = [] then
        Some (if is_idle f then Inr None
              else Inl (Error_Protocol ''connection closed inside a packet''))
      else case feed (take 1 bs) f of
        Inl e \<Rightarrow> Some (Inl e)
      | Inr (f', ps) \<Rightarrow> if ps = [] then read_from f' rs else Some (Inr (Some (last ps))))"
| "read_from f (Read_Failed e # rs) =
     (if kind e = Interrupted then read_from f rs else Some (Inl (Error_Io e)))"

subsection \<open>Connections\<close>

datatype receive_event = Packet_Received packet | Disconnected

record connection =
  writer :: nat
  events :: "receive_event list"
  reader_framer :: framer

text \<open>
  \<open>setup\<close> is the failure of a socket option or of the thread creation, if any. The initial
  packets are queued before the reader thread runs.
\<close>

definition connection_spawn ::
    "io_error option \<times> io_error option \<Rightarrow> nat \<Rightarrow> framer \<Rightarrow> packet list \<Rightarrow> error + connection" where
  "connection_spawn setup s f initial =
     (case fst setup of
       Some e \<Rightarrow> Inl (Error_Io e)
     | None \<Rightarrow>
         if event_queue_capacity < length initial then
           Inl (Error_Protocol ''too many packets before the handshake completed'')
         else (case snd setup of
           Some e \<Rightarrow> Inl (Error_Io e)
         | None \<Rightarrow> Inr \<lparr>writer = s, events = map Packet_Received initial, reader_framer = f\<rparr>))"

definition send :: "(bytes \<Rightarrow> io_error + unit) \<Rightarrow> u8 \<Rightarrow> string \<Rightarrow> error + unit" where
  "send write c m = write_to write (packet_text c m)"

text \<open>
  The reader thread, over the answers of its socket: the events it sends, in order. The
  sends wait for room in the channel, so none is lost; a thread whose answers run out is
  still reading.
\<close>

fun reader_loop :: "framer \<Rightarrow> read_result list \<Rightarrow> receive_event list" where
  "reader_loop f [] = []"
| "reader_loop f (Read_Bytes bs # rs) =
     (if bs = [] then [Disconnected]
      else case feed bs f of
        Inl e \<Rightarrow> [Disconnected]
      | Inr (f', ps) \<Rightarrow> map Packet_Received ps @ reader_loop f' rs)"
| "reader_loop f (Read_Failed e # rs) =
     (if kind e \<in> {Interrupted, WouldBlock, TimedOut} then reader_loop f rs else [Disconnected])"

subsection \<open>The listener\<close>

record handshake =
  hs_stream :: nat
  hs_framer :: framer
  hs_deadline :: nat

record listener =
  port :: u16
  pending :: "handshake list"

definition bind_port :: "(u16 \<Rightarrow> io_error option) \<Rightarrow> u16 \<Rightarrow> error + listener" where
  "bind_port try_bind p =
     (case try_bind p of Some e \<Rightarrow> Inl (Error_Io e) | None \<Rightarrow> Inr \<lparr>port = p, pending = []\<rparr>)"

fun bind_first :: "(u16 \<Rightarrow> io_error option) \<Rightarrow> u16 list \<Rightarrow> io_error option \<Rightarrow> error + listener" where
  "bind_first try_bind [] last_error =
     (case last_error of
       None \<Rightarrow> Inl (Error_Protocol ''no free port for the control channel'')
     | Some e \<Rightarrow> Inl (Error_Io e))"
| "bind_first try_bind (p # ps) last_error =
     (case bind_port try_bind p of
       Inr l \<Rightarrow> Inr l
     | Inl (Error_Io e) \<Rightarrow>
         if kind e = AddrInUse then bind_first try_bind ps (Some e) else Inl (Error_Io e)
     | Inl e \<Rightarrow> Inl e)"

definition port_range :: "u16 \<Rightarrow> u16 \<Rightarrow> u16 list" where
  "port_range minimum maximum = map of_nat [unat minimum ..< Suc (unat maximum)]"

definition bind :: "(u16 \<Rightarrow> io_error option) \<Rightarrow> u16 option \<Rightarrow> u16 \<Rightarrow> u16 \<Rightarrow> error + listener" where
  "bind try_bind configured minimum maximum =
     (case configured of
       Some p \<Rightarrow>
         if p \<noteq> 0 then bind_port try_bind p
         else if maximum < minimum then
           Inl (Error_Config (''wrapper.port.max ('' @ show_nat (unat maximum)
             @ '') is lower than wrapper.port.min ('' @ show_nat (unat minimum) @ '')''))
         else bind_first try_bind (port_range minimum maximum) None
     | None \<Rightarrow>
         if maximum < minimum then
           Inl (Error_Config (''wrapper.port.max ('' @ show_nat (unat maximum)
             @ '') is lower than wrapper.port.min ('' @ show_nat (unat minimum) @ '')''))
         else bind_first try_bind (port_range minimum maximum) None)"

datatype handshake_step = Keep | Drop | Authenticated "packet list"

definition advance_handshake ::
    "string \<Rightarrow> nat \<Rightarrow> read_result \<Rightarrow> handshake \<Rightarrow> handshake \<times> packet list \<times> handshake_step" where
  "advance_handshake expected_key now answer h =
     (if hs_deadline h \<le> now then (h, [], Drop)
      else case answer of
        Read_Failed e \<Rightarrow>
          if kind e \<in> {WouldBlock, Interrupted} then (h, [], Keep) else (h, [], Drop)
      | Read_Bytes bs \<Rightarrow>
          if bs = [] then (h, [], Drop)
          else case feed bs (hs_framer h) of
            Inl e \<Rightarrow> (h, [], Drop)
          | Inr (f, ps) \<Rightarrow>
              (case ps of
                [] \<Rightarrow> (h\<lparr>hs_framer := f\<rparr>, [], Keep)
              | first # rest \<Rightarrow>
                  if code first = KEY \<and> message first = as_bytes expected_key
                  then (h\<lparr>hs_framer := f\<rparr>, [], Authenticated rest)
                  else (h\<lparr>hs_framer := f\<rparr>, [packet_text BAD_KEY bad_key_message], Drop)))"

text \<open>
  The accept loop, over the answers before the one that would block. An accepted connection
  comes with its socket, whether its peer is loopback, whether its options could be set, and
  the instant at which it is queued.
\<close>

datatype accept_result = Accepted nat bool bool nat | Accept_Failed io_error

fun accept_all :: "nat \<Rightarrow> accept_result list \<Rightarrow> handshake list \<Rightarrow> (fault + unit) \<times> handshake list" where
  "accept_all timeout [] hs = (Inr (), hs)"
| "accept_all timeout (Accepted s loopback options_ok now # as) hs =
     (if \<not> loopback \<or> max_pending_handshakes \<le> length hs then accept_all timeout as hs
      else if \<not> options_ok then accept_all timeout as hs
      else case instant_add now timeout of
        Inl e \<Rightarrow> (Inl e, hs)
      | Inr deadline \<Rightarrow>
          accept_all timeout as
            (hs @ [\<lparr>hs_stream = s, hs_framer = framer_default, hs_deadline = deadline\<rparr>]))"
| "accept_all timeout (Accept_Failed e # as) hs =
     (if kind e = WouldBlock then (Inr (), hs)
      else if kind e = Interrupted then accept_all timeout as hs
      else (Inl (Failed (Error_Io e)), hs))"

definition swap_remove :: "nat \<Rightarrow> 'a list \<Rightarrow> 'a list" where
  "swap_remove i xs = butlast (xs[i := last xs])"

text \<open>The loop over the pending handshakes; each of the sockets answers one read.\<close>

function advance_from ::
    "string \<Rightarrow> nat \<Rightarrow> (nat \<Rightarrow> read_result) \<Rightarrow> nat \<Rightarrow> handshake list
      \<Rightarrow> handshake list \<times> (handshake \<times> packet list) option" where
  "advance_from key now answers index hs =
     (if index < length hs then
        (case advance_handshake key now (answers (hs_stream (hs ! index))) (hs ! index) of
          (h, replies, Keep) \<Rightarrow> advance_from key now answers (Suc index) (hs[index := h])
        | (h, replies, Drop) \<Rightarrow> advance_from key now answers index (swap_remove index hs)
        | (h, replies, Authenticated initial) \<Rightarrow> (swap_remove index hs, Some (h, initial)))
      else (hs, None))"
  by pat_completeness auto
termination
  by (relation "measure (\<lambda>(key, now, answers, index, hs). length hs - index)")
    (auto simp: swap_remove_def)

declare advance_from.simps [simp del]

definition poll_authentication ::
    "accept_result list \<Rightarrow> nat \<Rightarrow> (nat \<Rightarrow> read_result) \<Rightarrow> io_error option \<times> io_error option
      \<Rightarrow> string \<Rightarrow> nat \<Rightarrow> listener \<Rightarrow> (fault + connection option) \<times> listener" where
  "poll_authentication accepts now answers setup expected_key timeout l =
     (case accept_all timeout accepts (pending l) of
       (Inl e, hs) \<Rightarrow> (Inl e, l\<lparr>pending := hs\<rparr>)
     | (Inr u, hs) \<Rightarrow>
         (case advance_from expected_key now answers 0 hs of
           (hs', None) \<Rightarrow> (Inr None, l\<lparr>pending := hs'\<rparr>)
         | (hs', Some (h, initial)) \<Rightarrow>
             (lift_error
                (bind_result (connection_spawn setup (hs_stream h) (hs_framer h) initial)
                  (\<lambda>c. Inr (Some c))),
              l\<lparr>pending := hs'\<rparr>)))"

text \<open>
  The blocking helper polls until a JVM authenticates or the time is up. A round is the input
  of its poll and the instant at which the deadline is looked at; \<open>None\<close> if it is still
  polling after the given rounds.
\<close>

record poll_round =
  round_accepts :: "accept_result list"
  round_now :: nat
  round_answers :: "nat \<Rightarrow> read_result"
  round_setup :: "io_error option \<times> io_error option"
  round_end :: nat

primrec authenticate_rounds ::
    "string \<Rightarrow> nat \<Rightarrow> nat \<Rightarrow> poll_round list \<Rightarrow> listener \<Rightarrow> ((fault + connection) \<times> listener) option" where
  "authenticate_rounds expected_key timeout deadline [] l = None"
| "authenticate_rounds expected_key timeout deadline (r # rs) l =
     (case poll_authentication (round_accepts r) (round_now r) (round_answers r) (round_setup r)
         expected_key timeout l of
       (Inl e, l') \<Rightarrow> Some (Inl e, l')
     | (Inr (Some c), l') \<Rightarrow> Some (Inr c, l')
     | (Inr None, l') \<Rightarrow>
         if deadline \<le> round_end r then
           Some (Inl (Failed (Error_Protocol ''the JVM did not authenticate the control channel in time'')), l')
         else authenticate_rounds expected_key timeout deadline rs l')"

definition authenticate ::
    "string \<Rightarrow> nat \<Rightarrow> nat \<Rightarrow> poll_round list \<Rightarrow> listener \<Rightarrow> ((fault + connection) \<times> listener) option" where
  "authenticate expected_key timeout started_at rounds l =
     (case instant_add started_at timeout of
       Inl e \<Rightarrow> Some (Inl e, l)
     | Inr deadline \<Rightarrow> authenticate_rounds expected_key timeout deadline rounds l)"

subsection \<open>The one-time key\<close>

definition hex_digit :: "nat \<Rightarrow> char" where
  "hex_digit n = ''0123456789abcdef'' ! n"

definition hex_byte :: "u8 \<Rightarrow> string" where
  "hex_byte b = [hex_digit (unat b div 16), hex_digit (unat b mod 16)]"

definition generate_key :: "string + bytes \<Rightarrow> error + string" where
  "generate_key fill =
     bind_result (map_error (\<lambda>e. Error_Protocol (''could not generate the channel key: '' @ e)) fill)
       (\<lambda>bs. Inr (concat (map hex_byte bs)))"

end
