(* ===== verification/Protocol_Framing.thy ===== *)
theory Protocol_Framing
  imports Protocol
begin

section \<open>Correctness of the packet framing\<close>

text \<open>
  The decoder does not depend on how the stream is cut into reads, inverts the encoder, and
  keeps its buffers bounded; the reader thread delivers exactly the packets of the stream.
\<close>

subsection \<open>The decoder\<close>

lemma feed_Nil [simp]: "feed [] f = Inr (f, [])"
  by (simp add: feed_def)

lemma feed_byte_prefix:
  "feed_byte b (f, ps) = bind_result (feed_byte b (f, [])) (\<lambda>(f', qs). Inr (f', ps @ qs))"
  by (auto simp: feed_byte_def split: option.splits)

lemma feed_bytes_prefix:
  "fold_result feed_byte bs (f, ps) = bind_result (feed bs f) (\<lambda>(f', qs). Inr (f', ps @ qs))"
proof (induction bs arbitrary: f ps)
  case (Cons b bs)
  show ?case
  proof (cases "feed_byte b (f, [])")
    case (Inr r)
    obtain f' qs where r: "r = (f', qs)" by fastforce
    with Inr Cons [of f' "ps @ qs"] Cons [of f' qs] show ?thesis
      by (auto simp: feed_def feed_byte_prefix [of b f ps] bind_result_def split: sum.splits)
  qed (simp add: feed_def feed_byte_prefix [of b f ps])
qed simp

lemma feed_append:
  "feed (a @ b) f =
     bind_result (feed a f) (\<lambda>(f', ps). bind_result (feed b f') (\<lambda>(f'', qs). Inr (f'', ps @ qs)))"
proof (cases "feed a f")
  case (Inr r)
  obtain f' ps where "r = (f', ps)" by fastforce
  with Inr show ?thesis
    using feed_bytes_prefix [of b f' ps] by (simp add: feed_def [of "a @ b"] feed_def [of a])
qed (simp add: feed_def)

text \<open>
  The decoder is incremental: feeding a stream read by read, cut anywhere and into any
  number of parts, gives the same packets, the same decoder state and the same error as
  feeding it at once. A packet that is split over reads is never lost or misread.
\<close>

lemma feed_in_chunks:
  "fold_result (\<lambda>chunk (f, ps). bind_result (feed chunk f) (\<lambda>(f', qs). Inr (f', ps @ qs))) chunks (f, ps) =
     bind_result (feed (concat chunks) f) (\<lambda>(f', qs). Inr (f', ps @ qs))"
proof (induction chunks arbitrary: f ps)
  case (Cons c cs)
  then show ?case
    by (auto simp: feed_append bind_result_def split: sum.splits prod.splits)
qed simp

lemma feed_append_Inr:
  "feed (a @ b) f = Inr (f'', rs) \<longleftrightarrow>
     (\<exists>f' ps qs. feed a f = Inr (f', ps) \<and> feed b f' = Inr (f'', qs) \<and> rs = ps @ qs)"
  by (auto simp: feed_append bind_result_eq_Inr split: prod.splits)

subsection \<open>Round trip\<close>

lemma feed_payload:
  "0 \<notin> set m \<Longrightarrow> length p + length m \<le> max_packet_size \<Longrightarrow>
    feed m \<lparr>pending_code = Some c, partial = p\<rparr> = Inr (\<lparr>pending_code = Some c, partial = p @ m\<rparr>, [])"
proof (induction m arbitrary: p)
  case (Cons b m)
  then show ?case using Cons.IH [of "p @ [b]"]
    by (simp add: feed_def feed_byte_def)
qed simp

lemma feed_frame:
  assumes "packet_frame p = Inr bs"
  shows "feed bs framer_default = Inr (framer_default, [p])"
proof -
  from assms have m: "0 \<notin> set (message p)" "length (message p) \<le> max_packet_size"
    and bs: "bs = [code p] @ message p @ [0]"
    by (auto simp: packet_frame_def split: if_splits)
  have "feed [code p] framer_default = Inr (\<lparr>pending_code = Some (code p), partial = []\<rparr>, [])"
    by (simp add: feed_def feed_byte_def framer_default_def)
  moreover have "feed [0] \<lparr>pending_code = Some (code p), partial = message p\<rparr> = Inr (framer_default, [p])"
    by (simp add: feed_def feed_byte_def framer_default_def)
  ultimately show ?thesis
    using feed_payload [of "message p" "[]" "code p"] m
    unfolding bs by (simp add: feed_append del: append_Cons)
qed

lemma feed_frames:
  "list_all2 (\<lambda>p frame. packet_frame p = Inr frame) ps frames \<Longrightarrow>
    feed (concat frames) framer_default = Inr (framer_default, ps)"
  by (induction rule: list_all2_induct) (simp_all add: feed_append feed_frame)

text \<open>
  C17. Decoding inverts encoding: whatever packets are written, one after the other, the
  decoder yields exactly these packets and is idle again. A packet that \<open>write_to\<close>
  accepts can therefore not be confused with its neighbours.
\<close>

theorem framing_roundtrip:
  assumes "list_all2 (\<lambda>p frame. packet_frame p = Inr frame) ps frames"
  shows "feed (concat frames) framer_default = Inr (framer_default, ps)"
  using assms by (rule feed_frames)

theorem framing_roundtrip_witness:
  "feed (concat [[106, 0], [115, 97, 61, 49, 0]]) framer_default =
     Inr (framer_default, [\<lparr>code = STARTED, message = []\<rparr>, packet_text PROPERTIES ''a=1''])"
proof -
  have "packet_frame \<lparr>code = STARTED, message = []\<rparr> = Inr [106, 0]"
    and "packet_frame (packet_text PROPERTIES ''a=1'') = Inr [115, 97, 61, 49, 0]"
    by (simp_all add: packet_frame_def packet_text_def as_bytes_def packet_codes max_packet_size_def)
  then have "list_all2 (\<lambda>p frame. packet_frame p = Inr frame)
      [\<lparr>code = STARTED, message = []\<rparr>, packet_text PROPERTIES ''a=1''] [[106, 0], [115, 97, 61, 49, 0]]"
    by (intro list.rel_intros)
  then show ?thesis by (rule framing_roundtrip)
qed

subsection \<open>Bounds\<close>

definition framer_ok :: "framer \<Rightarrow> bool" where
  "framer_ok f \<longleftrightarrow> length (partial f) \<le> max_packet_size \<and> 0 \<notin> set (partial f)
     \<and> (pending_code f = None \<longrightarrow> partial f = [])"

definition packet_ok :: "packet \<Rightarrow> bool" where
  "packet_ok p \<longleftrightarrow> length (message p) \<le> max_packet_size \<and> 0 \<notin> set (message p)"

lemma framer_ok_default [invariant_intros]: "framer_ok framer_default"
  by (simp add: framer_ok_def framer_default_def)

lemma feed_byte_ok:
  "feed_byte b (f, ps) = Inr (f', ps') \<Longrightarrow> framer_ok f \<Longrightarrow> list_all packet_ok ps \<Longrightarrow>
    framer_ok f' \<and> list_all packet_ok ps'"
  by (auto simp: feed_byte_def framer_ok_def packet_ok_def split: option.splits if_splits)

lemma feed_ok:
  assumes "feed bs f = Inr (f', ps)" and "framer_ok f"
  shows "framer_ok f' \<and> list_all packet_ok ps"
proof -
  have "framer_ok (fst (f', ps)) \<and> list_all packet_ok (snd (f', ps))"
    by (rule fold_result_invariant
        [where P = "\<lambda>st. framer_ok (fst st) \<and> list_all packet_ok (snd st)",
          OF assms(1) [unfolded feed_def]])
      (use assms(2) feed_byte_ok in \<open>auto dest: feed_byte_ok\<close>)
  then show ?thesis by simp
qed

lemma packet_ok_frame: "packet_ok p \<longleftrightarrow> packet_frame p = Inr ([code p] @ message p @ [0])"
  by (auto simp: packet_ok_def packet_frame_def)

text \<open>
  Whatever bytes arrive and however they are cut, the decoder's buffer never exceeds
  \<open>MAX_PACKET_SIZE\<close>, and every packet it hands out is one that \<open>write_to\<close> would accept and
  whose encoding is a part of the stream; an idle decoder holds no bytes.
\<close>

lemma decoder_bounded:
  assumes "feed bs framer_default = Inr (f, ps)"
  shows "length (partial f) \<le> max_packet_size
    \<and> (is_idle f \<longrightarrow> partial f = [])
    \<and> (\<forall>p \<in> set ps. packet_frame p = Inr ([code p] @ message p @ [0]))"
  using feed_ok [OF assms framer_ok_default]
  by (simp add: framer_ok_def is_idle_def list_all_iff packet_ok_frame)

lemma decoder_bounded_sample:
  "length (partial \<lparr>pending_code = Some 7, partial = [8]\<rparr>) \<le> max_packet_size"
proof -
  have "feed [106, 0, 7, 8] framer_default =
      Inr (\<lparr>pending_code = Some 7, partial = [8]\<rparr>, [\<lparr>code = STARTED, message = []\<rparr>])"
    by (simp add: feed_def feed_byte_def framer_default_def STARTED_def max_packet_size_def)
  from decoder_bounded [OF this] show ?thesis by blast
qed

subsection \<open>Exactly the bytes of the stream\<close>

definition framer_bytes :: "framer \<Rightarrow> bytes" where
  "framer_bytes f = (case pending_code f of None \<Rightarrow> [] | Some c \<Rightarrow> c # partial f)"

definition packet_bytes :: "packet \<Rightarrow> bytes" where
  "packet_bytes p = [code p] @ message p @ [0]"

lemma feed_byte_bytes:
  "feed_byte b (f, ps) = Inr (f', ps') \<Longrightarrow> framer_ok f \<Longrightarrow>
    concat (map packet_bytes ps') @ framer_bytes f' =
    concat (map packet_bytes ps) @ framer_bytes f @ [b]"
  by (auto simp: feed_byte_def framer_ok_def framer_bytes_def packet_bytes_def
      split: option.splits if_splits)

lemma feed_bytes:
  "feed bs f = Inr (f', ps) \<Longrightarrow> framer_ok f \<Longrightarrow>
    concat (map packet_bytes ps) @ framer_bytes f' = framer_bytes f @ bs"
proof (induction bs arbitrary: f ps)
  case (Cons b bs)
  from Cons.prems(1) have "feed ([b] @ bs) f = Inr (f', ps)" by simp
  then obtain f1 ps1 ps2 where one: "feed [b] f = Inr (f1, ps1)" "feed bs f1 = Inr (f', ps2)"
    and ps: "ps = ps1 @ ps2"
    unfolding feed_append_Inr by blast
  from one(1) have "feed_byte b (f, []) = Inr (f1, ps1)"
    by (auto simp: feed_def bind_result_eq_Inr)
  from feed_byte_bytes [OF this Cons.prems(2)]
  have "concat (map packet_bytes ps1) @ framer_bytes f1 = framer_bytes f @ [b]" by simp
  with Cons.IH [OF one(2)] feed_ok [OF one(1) Cons.prems(2)] ps show ?case
    by (metis append.assoc append_Cons append_Nil concat_append map_append)
qed simp

subsection \<open>The reader thread\<close>

text \<open>
  What the reader sees as the end of a stream: no bytes, or a failure that is not a pause.
\<close>

definition is_pause :: "read_result \<Rightarrow> bool" where
  "is_pause r = (case r of Read_Bytes _ \<Rightarrow> False | Read_Failed e \<Rightarrow> kind e \<in> {Interrupted, WouldBlock, TimedOut})"

fun received_bytes :: "read_result list \<Rightarrow> bytes" where
  "received_bytes [] = []"
| "received_bytes (Read_Bytes bs # rs) = (if bs = [] then [] else bs @ received_bytes rs)"
| "received_bytes (Read_Failed e # rs) = (if is_pause (Read_Failed e) then received_bytes rs else [])"

fun stream_ends :: "read_result list \<Rightarrow> bool" where
  "stream_ends [] = False"
| "stream_ends (Read_Bytes bs # rs) = (bs = [] \<or> stream_ends rs)"
| "stream_ends (Read_Failed e # rs) = (\<not> is_pause (Read_Failed e) \<or> stream_ends rs)"

text \<open>
  The reader thread delivers exactly the packets of its stream, in order, however the
  stream is cut into reads and whatever interruptions and timeouts come between; it reports
  the disconnection once, after the last packet, if and only if the stream ends.
\<close>

lemma reader_loop_delivers:
  assumes "feed (received_bytes rs) f = Inr (f', ps)"
  shows "reader_loop f rs =
    map Packet_Received ps @ (if stream_ends rs then [Disconnected] else [])"
  using assms
proof (induction f rs arbitrary: ps rule: reader_loop.induct)
  case (2 f bs rs)
  show ?case
  proof (cases "bs = []")
    case False
    with "2.prems" have "feed (bs @ received_bytes rs) f = Inr (f', ps)" by simp
    then obtain f1 ps1 ps2 where "feed bs f = Inr (f1, ps1)" "feed (received_bytes rs) f1 = Inr (f', ps2)"
      and "ps = ps1 @ ps2"
      unfolding feed_append_Inr by blast
    with False "2.IH" show ?thesis by simp
  qed (use "2.prems" in simp)
qed (auto simp: is_pause_def split: if_splits)

lemma reader_loop_delivers_sample:
  "reader_loop framer_default [Read_Bytes [106], Read_Failed (Io_Error TimedOut ''''), Read_Bytes [0, 107, 0], Read_Bytes []] =
     [Packet_Received \<lparr>code = STARTED, message = []\<rparr>, Packet_Received \<lparr>code = STOPPED, message = []\<rparr>, Disconnected]"
proof -
  have "feed [106, 0, 107, 0] framer_default =
      Inr (framer_default, [\<lparr>code = STARTED, message = []\<rparr>, \<lparr>code = STOPPED, message = []\<rparr>])"
    by (simp add: feed_def feed_byte_def framer_default_def packet_codes)
  then show ?thesis
    using reader_loop_delivers [of "[Read_Bytes [106], Read_Failed (Io_Error TimedOut ''''), Read_Bytes [0, 107, 0], Read_Bytes []]"]
    by (simp add: is_pause_def)
qed

end
