(* ===== verification/Protocol_Handshake.thy ===== *)
theory Protocol_Handshake
  imports Protocol_Framing "HOL-Library.Multiset"
begin

section \<open>Correctness of the listener, the handshakes and the key\<close>

text \<open>
  The listener over any sequence of polls: its pending handshakes are bounded, each of them
  is advanced exactly once by a poll although \<open>swap_remove\<close> reorders them, and only a
  stream that begins with the key packet authenticates. The search for a free port and
  the key.
\<close>

subsection \<open>Removing by swapping\<close>

lemma take_swap_remove: "i < length xs \<Longrightarrow> take i (swap_remove i xs) = take i xs"
  by (simp add: swap_remove_def take_butlast)

lemma mset_drop_swap_remove:
  assumes "i < length xs"
  shows "mset (drop i (swap_remove i xs)) = mset (drop (Suc i) xs)"
proof -
  have "drop i (swap_remove i xs) = butlast (last xs # drop (Suc i) xs)"
    using assms Cons_nth_drop_Suc [of i "xs[i := last xs]"]
    by (simp add: swap_remove_def drop_butlast)
  also have "mset \<dots> = mset (drop (Suc i) xs)"
  proof (cases "drop (Suc i) xs = []")
    case False
    then have "last xs = last (drop (Suc i) xs)" by (simp add: last_drop)
    with False have "mset (drop (Suc i) xs) = mset (butlast (drop (Suc i) xs)) + {#last xs#}"
      by (metis append_butlast_last_id mset.simps mset_append)
    with False show ?thesis by simp
  qed simp
  finally show ?thesis .
qed

lemma length_swap_remove [simp]: "length (swap_remove i xs) = length xs - 1"
  by (simp add: swap_remove_def)

lemma set_swap_remove: "i < length xs \<Longrightarrow> set (swap_remove i xs) \<subseteq> set xs"
  by (metis append_take_drop_id mset_drop_swap_remove set_append set_drop_subset set_mset_mset
      set_take_subset sup.boundedI take_swap_remove)

subsection \<open>One poll of the pending handshakes\<close>

definition handshake_result ::
    "string \<Rightarrow> nat \<Rightarrow> (nat \<Rightarrow> read_result) \<Rightarrow> handshake \<Rightarrow> handshake \<times> packet list \<times> handshake_step" where
  "handshake_result key now answers h = advance_handshake key now (answers (hs_stream h)) h"

definition handshake_kept :: "string \<Rightarrow> nat \<Rightarrow> (nat \<Rightarrow> read_result) \<Rightarrow> handshake \<Rightarrow> bool" where
  "handshake_kept key now answers h \<longleftrightarrow> snd (snd (handshake_result key now answers h)) = Keep"

lemma advance_from_step:
  "i < length hs \<Longrightarrow> advance_from key now answers i hs =
     (case handshake_result key now answers (hs ! i) of
       (h, replies, Keep) \<Rightarrow> advance_from key now answers (Suc i) (hs[i := h])
     | (h, replies, Drop) \<Rightarrow> advance_from key now answers i (swap_remove i hs)
     | (h, replies, Authenticated initial) \<Rightarrow> (swap_remove i hs, Some (h, initial)))"
  by (subst advance_from.simps) (simp add: handshake_result_def)

lemma advance_from_end: "\<not> i < length hs \<Longrightarrow> advance_from key now answers i hs = (hs, None)"
  by (subst advance_from.simps) simp

lemma mset_drop_nth: "i < length hs \<Longrightarrow> mset (drop i hs) = add_mset (hs ! i) (mset (drop (Suc i) hs))"
  by (metis Cons_nth_drop_Suc mset.simps(2))

lemma advance_from_none:
  assumes "advance_from key now answers i hs = (hs', None)" and "i \<le> length hs"
  shows "mset hs' = mset (take i hs)
      + image_mset (\<lambda>h. fst (handshake_result key now answers h))
          (filter_mset (handshake_kept key now answers) (mset (drop i hs)))"
  using assms
proof (induction key now answers i hs rule: advance_from.induct)
  case (1 key now answers i hs)
  show ?case
  proof (cases "i < length hs")
    case True
    obtain h rs st where step: "handshake_result key now answers (hs ! i) = (h, rs, st)"
      using prod_cases3 by blast
    then have adv: "(h, rs, st) = advance_handshake key now (answers (hs_stream (hs ! i))) (hs ! i)"
      by (simp add: handshake_result_def)
    have kept: "handshake_kept key now answers (hs ! i) \<longleftrightarrow> st = Keep"
      by (simp add: handshake_kept_def step)
    show ?thesis
    proof (cases st)
      case Keep
      with True step "1.prems" have "advance_from key now answers (Suc i) (hs[i := h]) = (hs', None)"
        by (simp add: advance_from_step)
      with "1.IH"(1) [OF True adv] True Keep
      have "mset hs' = mset (take (Suc i) (hs[i := h]))
          + image_mset (\<lambda>h. fst (handshake_result key now answers h))
              (filter_mset (handshake_kept key now answers) (mset (drop (Suc i) (hs[i := h]))))"
        by simp
      with True step Keep show ?thesis
        by (simp add: take_Suc_conv_app_nth mset_drop_nth kept)
    next
      case Drop
      with True step "1.prems" have "advance_from key now answers i (swap_remove i hs) = (hs', None)"
        by (simp add: advance_from_step)
      with "1.IH"(2) [OF True adv] True Drop
      have "mset hs' = mset (take i (swap_remove i hs))
          + image_mset (\<lambda>h. fst (handshake_result key now answers h))
              (filter_mset (handshake_kept key now answers) (mset (drop i (swap_remove i hs))))"
        by simp
      with True step Drop show ?thesis
        by (simp add: take_swap_remove mset_drop_swap_remove mset_drop_nth kept)
    next
      case (Authenticated initial)
      with True step "1.prems" show ?thesis by (simp add: advance_from_step)
    qed
  qed (use "1.prems" in \<open>simp add: advance_from_end\<close>)
qed

lemma advance_from_some:
  assumes "advance_from key now answers i hs = (hs', Some (h', initial))"
  shows "\<exists>h rs. h \<in> set (drop i hs) \<and> handshake_result key now answers h = (h', rs, Authenticated initial)"
  using assms
proof (induction key now answers i hs rule: advance_from.induct)
  case (1 key now answers i hs)
  show ?case
  proof (cases "i < length hs")
    case True
    obtain h rs st where step: "handshake_result key now answers (hs ! i) = (h, rs, st)"
      using prod_cases3 by blast
    then have adv: "(h, rs, st) = advance_handshake key now (answers (hs_stream (hs ! i))) (hs ! i)"
      by (simp add: handshake_result_def)
    have drop: "set (drop i hs) = insert (hs ! i) (set (drop (Suc i) hs))"
      using True by (metis Cons_nth_drop_Suc list.simps(15))
    show ?thesis
    proof (cases st)
      case Keep
      with True step "1.prems" "1.IH"(1) [OF True adv] show ?thesis
        by (simp add: advance_from_step drop) blast
    next
      case Drop
      have "set (drop i (swap_remove i hs)) = set (drop (Suc i) hs)"
        using mset_drop_swap_remove [OF True] by (rule mset_eq_setD)
      moreover have "advance_from key now answers i (swap_remove i hs) = (hs', Some (h', initial))"
        using Drop True step "1.prems" by (simp add: advance_from_step)
      with "1.IH"(2) [OF True adv] Drop obtain h1 rs1 where "h1 \<in> set (drop i (swap_remove i hs))"
        "handshake_result key now answers h1 = (h', rs1, Authenticated initial)"
        by blast
      ultimately show ?thesis unfolding drop by blast
    next
      case (Authenticated initial)
      with True step "1.prems" drop show ?thesis by (auto simp: advance_from_step)
    qed
  qed (use "1.prems" in \<open>simp add: advance_from_end\<close>)
qed

text \<open>
  C36. A poll in which nobody authenticates advances every pending handshake exactly once:
  afterwards the pending handshakes are, up to their order, the advanced images of those
  that were kept. That the loop removes by \<open>swap_remove\<close> while it iterates neither skips
  a handshake nor advances one twice.
\<close>

theorem poll_advances_each_once:
  assumes "advance_from key now answers 0 hs = (hs', None)"
  shows "mset hs' = image_mset (\<lambda>h. fst (handshake_result key now answers h))
      (filter_mset (handshake_kept key now answers) (mset hs))"
  using advance_from_none [OF assms] by simp

theorem poll_advances_each_once_witness:
  "mset [\<lparr>hs_stream = 2, hs_framer = \<lparr>pending_code = Some 110, partial = []\<rparr>, hs_deadline = 9\<rparr>] =
    image_mset (\<lambda>h. fst (handshake_result ''k'' 5 (\<lambda>s. Read_Bytes [110]) h))
      (filter_mset (handshake_kept ''k'' 5 (\<lambda>s. Read_Bytes [110]))
        (mset [\<lparr>hs_stream = 1, hs_framer = framer_default, hs_deadline = 5\<rparr>,
               \<lparr>hs_stream = 2, hs_framer = framer_default, hs_deadline = 9\<rparr>]))"
  by (rule poll_advances_each_once)
    (simp add: advance_from.simps advance_handshake_def swap_remove_def feed_def feed_byte_def
      framer_default_def)

subsection \<open>The listener over all its polls\<close>

inductive listening :: "string \<Rightarrow> listener \<Rightarrow> bool" for key where
  bound: "listening key \<lparr>port = p, pending = []\<rparr>"
| polled: "listening key l \<Longrightarrow>
    poll_authentication accepts now answers setup key timeout l = (result, l') \<Longrightarrow>
    listening key l'"

definition pending_ok :: "handshake list \<Rightarrow> bool" where
  "pending_ok hs \<longleftrightarrow> length hs \<le> max_pending_handshakes \<and> (\<forall>h \<in> set hs. framer_ok (hs_framer h))"

lemma pending_ok_Nil [invariant_intros]: "pending_ok []"
  by (simp add: pending_ok_def)

lemma accept_all_ok: "pending_ok hs \<Longrightarrow> pending_ok (snd (accept_all timeout as hs))"
proof (induction timeout as hs rule: accept_all.induct)
  case (2 timeout s loopback options_ok now as hs)
  then show ?case
    by (auto simp: pending_ok_def framer_ok_default split: sum.splits)
qed auto

lemma handshake_result_cases:
  assumes "handshake_result key now answers h = (h', rs, st)"
  obtains (same) "h' = h" "st = Keep \<or> st = Drop"
    | (fed) bs f ps where "now < hs_deadline h" "answers (hs_stream h) = Read_Bytes bs"
        "feed bs (hs_framer h) = Inr (f, ps)" "h' = h\<lparr>hs_framer := f\<rparr>"
        "st = (case ps of [] \<Rightarrow> Keep
               | p # qs \<Rightarrow> if code p = KEY \<and> message p = as_bytes key then Authenticated qs else Drop)"
proof -
  consider (late) "hs_deadline h \<le> now"
    | (failed) e where "now < hs_deadline h" "answers (hs_stream h) = Read_Failed e"
    | (eof) "now < hs_deadline h" "answers (hs_stream h) = Read_Bytes []"
    | (bad) bs e where "now < hs_deadline h" "answers (hs_stream h) = Read_Bytes bs"
        "bs \<noteq> []" "feed bs (hs_framer h) = Inl e"
    | (good) bs f ps where "now < hs_deadline h" "answers (hs_stream h) = Read_Bytes bs"
        "bs \<noteq> []" "feed bs (hs_framer h) = Inr (f, ps)"
    by (metis not_le obj_sumE old.prod.exhaust read_result.exhaust)
  then show ?thesis
  proof cases
    case good
    with assms show ?thesis
      by (cases ps) (auto simp: handshake_result_def advance_handshake_def
          intro!: fed [of bs f ps] split: if_splits)
  qed (use assms same in \<open>auto simp: handshake_result_def advance_handshake_def split: if_splits\<close>)
qed

lemma handshake_result_ok:
  "handshake_result key now answers h = (h', rs, st) \<Longrightarrow> framer_ok (hs_framer h) \<Longrightarrow>
    framer_ok (hs_framer h')"
  by (erule handshake_result_cases) (auto dest: feed_ok)

lemma pending_ok_update: "pending_ok hs \<Longrightarrow> framer_ok (hs_framer h) \<Longrightarrow> pending_ok (hs[i := h])"
  using set_update_subset_insert [of hs i h] by (auto simp: pending_ok_def)

lemma pending_ok_swap_remove: "pending_ok hs \<Longrightarrow> i < length hs \<Longrightarrow> pending_ok (swap_remove i hs)"
  using set_swap_remove [of i hs] by (auto simp: pending_ok_def)

lemma advance_from_ok: "pending_ok hs \<Longrightarrow> pending_ok (fst (advance_from key now answers i hs))"
proof (induction key now answers i hs rule: advance_from.induct)
  case (1 key now answers i hs)
  show ?case
  proof (cases "i < length hs")
    case True
    obtain h rs st where step: "handshake_result key now answers (hs ! i) = (h, rs, st)"
      using prod_cases3 by blast
    then have adv: "(h, rs, st) = advance_handshake key now (answers (hs_stream (hs ! i))) (hs ! i)"
      by (simp add: handshake_result_def)
    have "framer_ok (hs_framer h)"
      using step 1 True by (auto simp: pending_ok_def intro: handshake_result_ok)
    with True step "1.prems" "1.IH"(1,2) [OF True adv] show ?thesis
      by (cases st) (simp_all add: advance_from_step pending_ok_update pending_ok_swap_remove)
  qed (use "1.prems" in \<open>simp add: advance_from_end\<close>)
qed

lemma poll_ok:
  assumes "poll_authentication accepts now answers setup key timeout l = (result, l')"
    and "pending_ok (pending l)"
  shows "pending_ok (pending l')"
proof -
  obtain r hs where acc: "accept_all timeout accepts (pending l) = (r, hs)" by fastforce
  with accept_all_ok [OF assms(2), of timeout accepts] have "pending_ok hs" by simp
  moreover from this have "pending_ok (fst (advance_from key now answers 0 hs))"
    by (rule advance_from_ok)
  moreover have "pending l' = hs \<or> pending l' = fst (advance_from key now answers 0 hs)"
    using assms(1) acc
    by (cases r; cases "snd (advance_from key now answers 0 hs)")
      (auto simp: poll_authentication_def split: prod.splits)
  ultimately show ?thesis by metis
qed

text \<open>
  However many connections arrive and whatever they send, the listener never holds more
  than \<open>MAX_PENDING_HANDSHAKES\<close> of them, each with a buffer of at most \<open>MAX_PACKET_SIZE\<close>
  bytes.
\<close>

lemma listener_bounded:
  assumes "listening key l"
  shows "length (pending l) \<le> max_pending_handshakes
    \<and> (\<forall>h \<in> set (pending l). length (partial (hs_framer h)) \<le> max_packet_size)"
proof -
  from assms have "pending_ok (pending l)"
    by (induction rule: listening.induct) (simp_all add: pending_ok_Nil poll_ok)
  then show ?thesis by (simp add: pending_ok_def framer_ok_def)
qed

lemma listener_bounded_sample:
  "length (pending \<lparr>port = 5, pending = [\<lparr>hs_stream = 1, hs_framer = framer_default, hs_deadline = 30\<rparr>]\<rparr>)
     \<le> max_pending_handshakes"
proof -
  have "poll_authentication [Accepted 1 True True 10] 10
      (\<lambda>s. Read_Failed (Io_Error WouldBlock '''')) (None, None) ''k'' 20 \<lparr>port = 5, pending = []\<rparr> =
    (Inr None, \<lparr>port = 5, pending = [\<lparr>hs_stream = 1, hs_framer = framer_default, hs_deadline = 30\<rparr>]\<rparr>)"
    by (simp add: poll_authentication_def advance_from.simps advance_handshake_def instant_add_def
        instant_limit_def max_pending_handshakes_def)
  from listener_bounded [OF polled [OF bound this]] show ?thesis by blast
qed

lemma listening_pending_ok: "listening key l \<Longrightarrow> pending_ok (pending l)"
  by (induction rule: listening.induct) (simp_all add: pending_ok_Nil poll_ok)

text \<open>
  C5. Only the key opens the channel. If a poll returns a connection, its stream has been
  pending and in time, and all that was ever received on it (what the handshake had buffered
  and what this poll read) is the packet of the expected key, followed by the packets that
  are already queued for the supervisor and the unfinished bytes that the reader goes on
  with: nothing came before the key and nothing after it is lost.
\<close>

theorem only_the_key_authenticates:
  assumes "listening key l"
    and "poll_authentication accepts now answers setup key timeout l = (Inr (Some c), l')"
  shows "\<exists>h bs initial. h \<in> set (snd (accept_all timeout accepts (pending l)))
    \<and> hs_stream h = writer c \<and> now < hs_deadline h
    \<and> answers (writer c) = Read_Bytes bs
    \<and> framer_bytes (hs_framer h) @ bs =
        packet_bytes (packet_text KEY key) @ concat (map packet_bytes initial)
          @ framer_bytes (reader_framer c)
    \<and> events c = map Packet_Received initial"
proof -
  from assms(2) obtain hs hs' h' initial where acc: "accept_all timeout accepts (pending l) = (Inr (), hs)"
    and adv: "advance_from key now answers 0 hs = (hs', Some (h', initial))"
    and spawn: "connection_spawn setup (hs_stream h') (hs_framer h') initial = Inr c"
    by (auto simp: poll_authentication_def lift_error_def bind_result_eq_Inr map_error_eq_Inr
        split: sum.splits prod.splits option.splits unit.splits)
  from accept_all_ok [OF listening_pending_ok [OF assms(1)], of timeout accepts] acc
  have ok: "pending_ok hs" by simp
  from advance_from_some [OF adv] obtain h rs where h: "h \<in> set hs"
    and res: "handshake_result key now answers h = (h', rs, Authenticated initial)" by auto
  from spawn have c: "writer c = hs_stream h'" "reader_framer c = hs_framer h'"
      "events c = map Packet_Received initial"
    by (auto simp: connection_spawn_def split: option.splits if_splits)
  from res show ?thesis
  proof (cases rule: handshake_result_cases)
    case (fed bs f ps)
    then obtain p where p: "ps = p # initial" "code p = KEY" "message p = as_bytes key"
      by (auto split: list.splits if_splits)
    from ok h have "framer_ok (hs_framer h)" by (simp add: pending_ok_def)
    from feed_bytes [OF fed(3) this] p have
      "framer_bytes (hs_framer h) @ bs = packet_bytes (packet_text KEY key)
        @ concat (map packet_bytes initial) @ framer_bytes f"
      by (simp add: packet_bytes_def packet_text_def)
    with h acc c fed show ?thesis by (intro exI [of _ h]) auto
  qed simp
qed

theorem only_the_key_authenticates_witness:
  "\<exists>bs initial. Read_Bytes [110, 107, 0, 106, 0] = Read_Bytes bs
    \<and> bs = packet_bytes (packet_text KEY ''k'') @ concat (map packet_bytes initial)
    \<and> [Packet_Received \<lparr>code = STARTED, message = []\<rparr>] = map Packet_Received initial"
proof -
  let ?l = "\<lparr>port = 5, pending = []\<rparr>"
  have "poll_authentication [Accepted 1 True True 10] 10
      (\<lambda>s. Read_Bytes [110, 107, 0, 106, 0]) (None, None) ''k'' 20 ?l =
    (Inr (Some \<lparr>writer = 1, events = [Packet_Received \<lparr>code = STARTED, message = []\<rparr>],
                reader_framer = framer_default\<rparr>), ?l)"
    by (simp add: poll_authentication_def advance_from.simps advance_handshake_def instant_add_def
        instant_limit_def max_pending_handshakes_def feed_def feed_byte_def framer_default_def
        packet_codes as_bytes_def swap_remove_def connection_spawn_def event_queue_capacity_def
        max_packet_size_def lift_error_def)
  from only_the_key_authenticates [OF bound this] show ?thesis
    by (auto simp: framer_bytes_def framer_default_def max_pending_handshakes_def
        instant_add_def instant_limit_def)
qed

subsection \<open>The blocking helper\<close>

text \<open>Its connection comes from a poll of a listener as above, and it returns by the deadline.\<close>

lemma authenticate_rounds_poll:
  assumes "authenticate_rounds key timeout deadline rounds l = Some (Inr c, l')" and "listening key l"
  shows "\<exists>r \<in> set rounds. \<exists>l0. listening key l0
    \<and> poll_authentication (round_accepts r) (round_now r) (round_answers r) (round_setup r) key timeout l0
        = (Inr (Some c), l')"
  using assms
proof (induction rounds arbitrary: l)
  case (Cons r rs)
  obtain res l1 where poll: "poll_authentication (round_accepts r) (round_now r) (round_answers r) (round_setup r)
      key timeout l = (res, l1)" by fastforce
  have "listening key l1" using Cons.prems(2) poll by (rule polled)
  with poll Cons show ?case by (force split: sum.splits option.splits if_splits)
qed simp

lemma authenticate_polls:
  assumes "authenticate key timeout started_at rounds \<lparr>port = p, pending = []\<rparr> = Some (Inr c, l')"
  shows "\<exists>r \<in> set rounds. \<exists>l0. listening key l0
    \<and> poll_authentication (round_accepts r) (round_now r) (round_answers r) (round_setup r) key timeout l0
        = (Inr (Some c), l')"
  using assms bound authenticate_rounds_poll by (auto simp: authenticate_def split: sum.splits)

lemma authenticate_in_time:
  assumes "r \<in> set rounds" and "started_at + timeout \<le> round_end r"
  shows "authenticate key timeout started_at rounds l \<noteq> None"
proof -
  have "authenticate_rounds key timeout (started_at + timeout) rounds l \<noteq> None"
    using assms by (induction rounds arbitrary: l) (auto split: sum.splits option.splits prod.splits)
  then show ?thesis by (simp add: authenticate_def instant_add_def split: sum.splits)
qed

subsection \<open>The search for a port\<close>

definition in_use :: "(u16 \<Rightarrow> io_error option) \<Rightarrow> u16 \<Rightarrow> bool" where
  "in_use try_bind p = (case try_bind p of None \<Rightarrow> False | Some e \<Rightarrow> kind e = AddrInUse)"

lemma bind_first_dropWhile:
  "bind_first try_bind ps le = Inr l \<longleftrightarrow>
     (\<exists>p vs. dropWhile (in_use try_bind) ps = p # vs \<and> try_bind p = None \<and> l = \<lparr>port = p, pending = []\<rparr>)"
  by (induction ps arbitrary: le)
    (auto simp: bind_port_def in_use_def split: option.splits)

lemma bind_first_Inr:
  "bind_first try_bind ps le = Inr l \<longleftrightarrow>
     (\<exists>us p vs. ps = us @ p # vs \<and> (\<forall>u \<in> set us. in_use try_bind u) \<and> try_bind p = None
        \<and> l = \<lparr>port = p, pending = []\<rparr>)" (is "?l \<longleftrightarrow> ?r")
proof
  assume ?l
  then show ?r
    unfolding bind_first_dropWhile by (metis set_takeWhileD takeWhile_dropWhile_id)
next
  assume ?r
  then obtain us p vs where "ps = us @ p # vs" "\<forall>u \<in> set us. in_use try_bind u" "try_bind p = None"
    "l = \<lparr>port = p, pending = []\<rparr>" by blast
  then show ?l
    unfolding bind_first_dropWhile by (simp add: dropWhile_append2 in_use_def)
qed

lemma upt_split: "[a..<b] = us @ i # vs \<longleftrightarrow> us = [a..<i] \<and> a \<le> i \<and> i < b \<and> vs = [Suc i..<b]"
proof
  assume split: "[a..<b] = us @ i # vs"
  then have "length us < b - a" by (metis add_Suc_right length_append length_upt less_add_Suc1 list.size(4))
  moreover from split have "[a..<b] ! length us = i" by simp
  ultimately have i: "i = a + length us" by simp
  have "us = take (length us) [a..<b]" and "vs = drop (Suc (length us)) [a..<b]"
    using split by simp_all
  then show "us = [a..<i] \<and> a \<le> i \<and> i < b \<and> vs = [Suc i..<b]"
    using i \<open>length us < b - a\<close> by simp
next
  assume "us = [a..<i] \<and> a \<le> i \<and> i < b \<and> vs = [Suc i..<b]"
  then show "[a..<b] = us @ i # vs"
    by (metis upt_add_eq_append upt_conv_Cons le_Suc_ex less_imp_le)
qed

lemma port_range_split:
  "(\<exists>us vs. port_range minimum maximum = us @ p # vs \<and> (\<forall>u \<in> set us. Q u)) \<longleftrightarrow>
     minimum \<le> p \<and> p \<le> maximum \<and> (\<forall>q. minimum \<le> q \<and> q < p \<longrightarrow> Q q)" (is "?l \<longleftrightarrow> ?r")
proof
  assume ?l
  then obtain us vs where eq: "port_range minimum maximum = us @ p # vs" and Q: "\<forall>u \<in> set us. Q u"
    by blast
  then obtain ns i ms where "[unat minimum..<Suc (unat maximum)] = ns @ i # ms"
    and us: "us = map of_nat ns" and p: "p = of_nat i"
    unfolding port_range_def map_eq_append_conv map_eq_Cons_conv by blast
  then have i: "ns = [unat minimum..<i]" "unat minimum \<le> i" "i < Suc (unat maximum)"
    unfolding upt_split by blast+
  then have "i < 2 ^ LENGTH(16)" using unat_bound [of maximum] by simp
  with p have ui: "unat p = i" by (simp add: unat_of_nat)
  have "Q q" if "minimum \<le> q" "q < p" for q
  proof -
    have "unat q \<in> set ns" using that i ui by (simp add: word_le_nat_alt word_less_nat_alt)
    moreover have "q = of_nat (unat q)" by simp
    ultimately have "q \<in> set us" unfolding us set_map by (rule rev_image_eqI)
    with Q show ?thesis by blast
  qed
  with i ui show ?r by (simp add: word_le_nat_alt)
next
  assume r: ?r
  have "[unat minimum..<Suc (unat maximum)]
      = [unat minimum..<unat p] @ unat p # [Suc (unat p)..<Suc (unat maximum)]"
    using r unfolding upt_split by (simp add: word_le_nat_alt)
  then have "port_range minimum maximum = map of_nat [unat minimum..<unat p]
      @ p # map of_nat [Suc (unat p)..<Suc (unat maximum)]"
    by (simp add: port_range_def)
  moreover have "Q u" if "u \<in> set (map of_nat [unat minimum..<unat p])" for u
  proof -
    from that obtain n where n: "u = of_nat n" "unat minimum \<le> n" "n < unat p" by auto
    then have "n < 2 ^ LENGTH(16)" using unat_bound [of p] by simp
    with n have "unat u = n" by (simp add: unat_of_nat)
    with n r show ?thesis by (simp add: word_le_nat_alt word_less_nat_alt)
  qed
  ultimately show ?l by blast
qed

text \<open>
  Without a fixed port the listener takes the first free port of the configured range:
  it binds port p exactly if p is in the range, can be bound, and all lower ports of the
  range are in use; a port that fails for another reason ends the search.
\<close>

lemma bind_takes_first_free:
  assumes "configured = None \<or> configured = Some 0"
  shows "bind try_bind configured minimum maximum = Inr l \<longleftrightarrow>
    minimum \<le> port l \<and> port l \<le> maximum \<and> pending l = [] \<and> try_bind (port l) = None
    \<and> (\<forall>q. minimum \<le> q \<and> q < port l \<longrightarrow> in_use try_bind q)"
proof -
  have "bind try_bind configured minimum maximum = Inr l \<longleftrightarrow>
      \<not> maximum < minimum \<and> bind_first try_bind (port_range minimum maximum) None = Inr l"
    using assms by (auto simp: bind_def)
  also have "\<dots> \<longleftrightarrow> \<not> maximum < minimum \<and> try_bind (port l) = None \<and> pending l = []
      \<and> (\<exists>us vs. port_range minimum maximum = us @ port l # vs \<and> (\<forall>u \<in> set us. in_use try_bind u))"
    unfolding bind_first_Inr by (cases l) auto
  finally show ?thesis
    unfolding port_range_split by auto
qed

lemma bind_takes_first_free_sample:
  "bind (\<lambda>p. if p = 32000 then Some (Io_Error AddrInUse '''') else None) None 32000 32999 =
     Inr \<lparr>port = 32001, pending = []\<rparr>"
proof -
  have "q = 32000" if "32000 \<le> q" "q < 32001" for q :: u16
    using that by (simp add: word_le_nat_alt word_less_nat_alt word_unat_eq_iff)
  then show ?thesis
    by (subst bind_takes_first_free) (auto simp: in_use_def)
qed

subsection \<open>The key\<close>

lemma hex_digit_inject: "i < 16 \<Longrightarrow> j < 16 \<Longrightarrow> hex_digit i = hex_digit j \<longleftrightarrow> i = j"
  unfolding hex_digit_def by (intro nth_eq_iff_index_eq) auto

lemma hex_byte_inject: "hex_byte a = hex_byte b \<longleftrightarrow> a = b"
proof
  assume "hex_byte a = hex_byte b"
  then have "unat a div 16 = unat b div 16" "unat a mod 16 = unat b mod 16"
    using unat_bound [of a] unat_bound [of b]
    by (simp_all add: hex_byte_def hex_digit_inject less_mult_imp_div_less)
  then have "unat a = unat b" by (metis div_mult_mod_eq)
  then show "a = b" by (simp add: word_unat_eq_iff)
qed simp

lemma hex_digit_not_nul: "i < 16 \<Longrightarrow> of_char (hex_digit i) \<noteq> (0 :: u8)"
proof -
  have "\<forall>i \<in> set [0..<16]. of_char (hex_digit i) \<noteq> (0 :: u8)" by code_simp
  then show "i < 16 \<Longrightarrow> ?thesis" by simp
qed

lemma hex_bytes_inject: "concat (map hex_byte as) = concat (map hex_byte bs) \<longleftrightarrow> as = bs"
proof (induction as arbitrary: bs)
  case Nil
  then show ?case by (cases bs) (auto simp: hex_byte_def)
next
  case (Cons a as)
  show ?case
  proof (cases bs)
    case Nil
    then show ?thesis by (simp add: hex_byte_def)
  next
    case (Cons b bs')
    have "length (hex_byte a) = length (hex_byte b)" by (simp add: hex_byte_def)
    with Cons Cons.IH hex_byte_inject show ?thesis by simp
  qed
qed

lemma hex_bytes_not_nul: "0 \<notin> set (as_bytes (concat (map hex_byte bs)))"
proof (induction bs)
  case (Cons b bs)
  have "unat b div 16 < 16" "unat b mod 16 < 16"
    using unat_bound [of b] by (simp_all add: less_mult_imp_div_less)
  from this [THEN hex_digit_not_nul] Cons show ?case
    by (auto simp: as_bytes_def hex_byte_def)
qed (simp add: as_bytes_def)

text \<open>
  The one-time key is the random bytes in hexadecimal: twice as many characters, no two
  random values give the same key, and its key packet can be sent (it contains no NUL byte
  and is far below the size limit).
\<close>

lemma generated_key_sound:
  assumes "generate_key (Inr bs) = Inr key" and "length bs = 32"
  shows "length key = 64
    \<and> packet_frame (packet_text KEY key) = Inr ([KEY] @ as_bytes key @ [0])
    \<and> (\<forall>bs'. generate_key (Inr bs') = Inr key \<longrightarrow> bs' = bs)"
proof -
  have key: "key = concat (map hex_byte bs)" using assms(1) by (simp add: generate_key_def)
  have "length (concat (map hex_byte xs)) = 2 * length xs" for xs
    by (induction xs) (simp_all add: hex_byte_def)
  then have "length key = 64" using key assms(2) by simp
  moreover have "\<forall>bs'. generate_key (Inr bs') = Inr key \<longrightarrow> bs' = bs"
    by (auto simp: generate_key_def key hex_bytes_inject)
  moreover have "packet_frame (packet_text KEY key) = Inr ([KEY] @ as_bytes key @ [0])"
    using hex_bytes_not_nul [of bs] key \<open>length key = 64\<close>
    by (simp add: packet_frame_def packet_text_def max_packet_size_def)
  ultimately show ?thesis by blast
qed

lemma generated_key_sound_sample:
  "\<exists>key. generate_key (Inr (replicate 32 0xA5)) = Inr key \<and> length key = 64"
proof -
  have "generate_key (Inr (replicate 32 0xA5)) = Inr (concat (map hex_byte (replicate 32 0xA5)))"
    by (simp add: generate_key_def)
  moreover from generated_key_sound [OF this]
  have "length (concat (map hex_byte (replicate 32 0xA5))) = 64"
    unfolding length_replicate by blast
  ultimately show ?thesis by blast
qed

end
