(* ===== verification/Logging.thy ===== *)
theory Logging
  imports Config
begin

section \<open>Log levels, output filters and sizes: \<open>src/logging.rs\<close>\<close>

text \<open>
  The pure part of the logging component: levels and sources with their labels, the filters
  on the JVM's output with their wildcard matcher, the configured levels, formats and sizes,
  and the rendering of a line. The files are in \<open>Log_Files\<close>.
\<close>

subsection \<open>Levels and sources\<close>

datatype stream_source = Stdout | Stderr

datatype log_level =
    Level_Debug | Level_Info | Level_Status | Level_Warn | Level_Error
  | Level_Fatal | Level_Advice | Level_Notice | Level_None

fun level_number :: "log_level \<Rightarrow> nat" where
  "level_number Level_Debug = 1"
| "level_number Level_Info = 2"
| "level_number Level_Status = 3"
| "level_number Level_Warn = 4"
| "level_number Level_Error = 5"
| "level_number Level_Fatal = 6"
| "level_number Level_Advice = 7"
| "level_number Level_Notice = 8"
| "level_number Level_None = 9"

lemma level_number_inject: "level_number a = level_number b \<Longrightarrow> a = b"
  by (cases a; cases b) auto

instantiation log_level :: linorder
begin

definition less_eq_log_level :: "log_level \<Rightarrow> log_level \<Rightarrow> bool" where
  "less_eq_log_level a b \<longleftrightarrow> level_number a \<le> level_number b"

definition less_log_level :: "log_level \<Rightarrow> log_level \<Rightarrow> bool" where
  "less_log_level a b \<longleftrightarrow> level_number a < level_number b"

instance
  by standard (auto simp: less_eq_log_level_def less_log_level_def intro: level_number_inject)

end

fun level_label :: "log_level \<Rightarrow> string" where
  "level_label Level_Debug = ''DEBUG ''"
| "level_label Level_Info = ''INFO  ''"
| "level_label Level_Status = ''STATUS''"
| "level_label Level_Warn = ''WARN  ''"
| "level_label Level_Error = ''ERROR ''"
| "level_label Level_Fatal = ''FATAL ''"
| "level_label Level_Advice = ''ADVICE''"
| "level_label Level_Notice = ''NOTICE''"
| "level_label Level_None = ''NONE  ''"

definition from_protocol_code :: "u8 \<Rightarrow> log_level option" where
  "from_protocol_code c =
     map_of [(117, Level_Debug), (118, Level_Info), (119, Level_Status), (120, Level_Warn),
       (121, Level_Error), (122, Level_Fatal), (123, Level_Advice), (124, Level_Notice)] c"

datatype log_source = From_Wrapper | From_Protocol | From_Jvm u32

definition pad_left :: "nat \<Rightarrow> string \<Rightarrow> string" where
  "pad_left n s = replicate (n - length s) CHR '' '' @ s"

definition pad_right :: "nat \<Rightarrow> string \<Rightarrow> string" where
  "pad_right n s = s @ replicate (n - length s) CHR '' ''"

definition pad_zero :: "nat \<Rightarrow> string \<Rightarrow> string" where
  "pad_zero n s = replicate (n - length s) CHR ''0'' @ s"

fun source_label :: "log_source \<Rightarrow> string" where
  "source_label From_Wrapper = ''wrapper ''"
| "source_label From_Protocol = ''wrapperp''"
| "source_label (From_Jvm jid) = ''jvm '' @ pad_right 4 (show_nat (unat jid))"

fun thread_label :: "log_source \<Rightarrow> string" where
  "thread_label (From_Jvm jid) = ''javaio ''"
| "thread_label From_Wrapper = ''main   ''"
| "thread_label From_Protocol = ''main   ''"

subsection \<open>Configured levels, formats and sizes\<close>

definition level_of_name :: "string \<Rightarrow> log_level option" where
  "level_of_name s =
     map_of [(''DEBUG'', Level_Debug), (''INFO'', Level_Info), (''STATUS'', Level_Status),
       (''WARN'', Level_Warn), (''ERROR'', Level_Error), (''FATAL'', Level_Fatal),
       (''ADVICE'', Level_Advice), (''NOTICE'', Level_Notice), (''NONE'', Level_None)] s"

definition configured_log_level :: "config \<Rightarrow> string \<Rightarrow> log_level \<Rightarrow> log_level" where
  "configured_log_level c property dflt =
     (case get c property of
       None \<Rightarrow> dflt
     | Some value \<Rightarrow>
         (case level_of_name (to_ascii_uppercase (trim value)) of None \<Rightarrow> dflt | Some l \<Rightarrow> l))"

definition low_log_level :: "config \<Rightarrow> u8" where
  "low_log_level c =
     (if get_bool c ''wrapper.debug'' False then of_nat (level_number Level_Debug)
      else of_nat (level_number
        (min (min (configured_log_level c ''wrapper.console.loglevel'' Level_Info)
                  (configured_log_level c ''wrapper.logfile.loglevel'' Level_Info))
             (configured_log_level c ''wrapper.syslog.loglevel'' Level_None))))"

definition java_command_log_level :: "config \<Rightarrow> log_level" where
  "java_command_log_level c = configured_log_level c ''wrapper.java.command.loglevel'' Level_Debug"

definition validated_format :: "string \<Rightarrow> string" where
  "validated_format format =
     (if list_ex (\<lambda>token. ascii_upper token \<in> set ''LPDQTZUGM'') format then format else ''LPTM'')"

definition size_multiplier :: "string \<Rightarrow> u64 option" where
  "size_multiplier s =
     map_of [('''', 1), (''b'', 1), (''k'', 1024), (''kb'', 1024), (''m'', 1048576),
       (''mb'', 1048576), (''g'', 1073741824), (''gb'', 1073741824)] s"

definition parse_size :: "string \<Rightarrow> u64 option" where
  "parse_size value =
     (let normalized = to_ascii_lowercase (trim value);
          digits = takeWhile is_digit normalized
      in case parse_word digits of
           None \<Rightarrow> None
         | Some number \<Rightarrow>
             (case size_multiplier (trim (drop (length digits) normalized)) of
               None \<Rightarrow> None
             | Some multiplier \<Rightarrow> checked_mul number multiplier))"

subsection \<open>Filters\<close>

datatype filter_action =
    Action_None | Action_Debug | Action_Dump | Action_Gc | Action_Restart
  | Action_Shutdown | Action_Pause | Action_Resume

record filter_match =
  match_index :: nat
  match_actions :: "filter_action list"
  match_message :: string

record filter_entry =
  filter_index :: nat
  trigger :: string
  allow_wildcards :: bool
  actions :: "filter_action list"
  filter_message :: string

definition parse_filter_action :: "string \<Rightarrow> filter_action option" where
  "parse_filter_action value =
     map_of [(''NONE'', Action_None), (''DEBUG'', Action_Debug), (''DUMP'', Action_Dump),
       (''GC'', Action_Gc), (''RESTART'', Action_Restart), (''SHUTDOWN'', Action_Shutdown),
       (''PAUSE'', Action_Pause), (''RESUME'', Action_Resume)] (to_ascii_uppercase (trim value))"

text \<open>\<open>str::split\<close> on a set of one-byte characters.\<close>

fun split_on :: "(char \<Rightarrow> bool) \<Rightarrow> string \<Rightarrow> string list" where
  "split_on p [] = [[]]"
| "split_on p (c # cs) =
     (if p c then [] # split_on p cs
      else case split_on p cs of [] \<Rightarrow> [[c]] | w # ws \<Rightarrow> (c # w) # ws)"

definition filter_actions :: "config \<Rightarrow> nat \<Rightarrow> filter_action list" where
  "filter_actions c index =
     (let actions = take 16 (List.map_filter parse_filter_action
            (split_on (\<lambda>ch. ch \<in> {CHR '','', CHR '' '', CHR 0x09})
              (get_or c (numbered_name ''wrapper.filter.action'' index) ''RESTART'')))
      in if actions = [] then [Action_Restart] else actions)"

definition filters_from_config :: "config \<Rightarrow> filter_entry list" where
  "filters_from_config c =
     List.map_filter
       (\<lambda>(index, value).
         if value = [] then None
         else Some
           \<lparr>filter_index = index, trigger = value,
            allow_wildcards = get_bool c (numbered_name ''wrapper.filter.allow_wildcards'' index) False,
            actions = filter_actions c index,
            filter_message = get_or c (numbered_name ''wrapper.filter.message'' index)
              ''Filter trigger matched.''\<rparr>)
       (numbered c ''wrapper.filter.trigger'')"

text \<open>
  The matcher with its backtracking point: \<open>last_star\<close> is the index of the last star seen
  and \<open>star_text_index\<close> how much of the text it has been tried on.
\<close>

function wildcard_loop ::
    "bytes \<Rightarrow> bytes \<Rightarrow> nat \<Rightarrow> nat \<Rightarrow> nat option \<Rightarrow> nat \<Rightarrow> bool" where
  "wildcard_loop text pattern text_index pattern_index last_star star_text_index =
     (if length pattern \<le> pattern_index then True
      else if pattern ! pattern_index = 0x2A then
        wildcard_loop text pattern text_index (pattern_index + 1) (Some pattern_index) text_index
      else if text_index < length text
          \<and> (pattern ! pattern_index = 0x3F \<or> pattern ! pattern_index = text ! text_index) then
        wildcard_loop text pattern (text_index + 1) (pattern_index + 1) last_star star_text_index
      else case last_star of
        None \<Rightarrow> False
      | Some star_index \<Rightarrow>
          if length text \<le> star_text_index then False
          else wildcard_loop text pattern (star_text_index + 1) (star_index + 1)
            (Some star_index) (star_text_index + 1))"
  by pat_completeness auto
termination
  by (relation "measures
      [\<lambda>(text, pattern, ti, pi, ls, si).
         (case ls of None \<Rightarrow> Suc (length pattern - pi) | Some s \<Rightarrow> length pattern - min (Suc s) pi),
       \<lambda>(text, pattern, ti, pi, ls, si). length text - si,
       \<lambda>(text, pattern, ti, pi, ls, si). length pattern - pi]")
    (auto split: option.splits simp: min_def)

declare wildcard_loop.simps [simp del]

definition wildcard_matches_prefix :: "bytes \<Rightarrow> bytes \<Rightarrow> bool" where
  "wildcard_matches_prefix text pattern = wildcard_loop text pattern 0 0 None 0"

definition wildcard_contains :: "bytes \<Rightarrow> bytes \<Rightarrow> bool" where
  "wildcard_contains text pattern \<longleftrightarrow>
     list_ex (\<lambda>start. wildcard_matches_prefix (drop start text) pattern) [0..<Suc (length text)]"

definition trigger_matches :: "platform \<Rightarrow> bytes \<Rightarrow> string \<Rightarrow> bool \<Rightarrow> bool" where
  "trigger_matches P line trig wildcards =
     (if trig = [] then False
      else
        let matches = (if wildcards then (\<lambda>text. wildcard_contains text (as_bytes trig))
                       else (\<lambda>text. contains_sub (as_bytes trig) text))
        in if list_all is_ascii_char trig then matches line
           else if utf8_valid line then matches line
           else matches (as_bytes (fst (encoding_decode P ''windows-1252'' line))))"

definition inspect_bytes :: "platform \<Rightarrow> filter_entry list \<Rightarrow> bytes \<Rightarrow> filter_match list" where
  "inspect_bytes P filters line =
     (case find (\<lambda>f. trigger_matches P line (trigger f) (allow_wildcards f)) filters of
       None \<Rightarrow> []
     | Some f \<Rightarrow> [\<lparr>match_index = filter_index f, match_actions = actions f,
                   match_message = filter_message f\<rparr>])"

definition inspect :: "platform \<Rightarrow> filter_entry list \<Rightarrow> string \<Rightarrow> filter_match list" where
  "inspect P filters line = inspect_bytes P filters (as_bytes line)"

subsection \<open>Rendering a line\<close>

text \<open>
  The clock readings a rendering takes: the local time as the time library formats it, its
  milliseconds, and the seconds since the writer was created.
\<close>

record log_clock =
  local_text :: string
  local_millis :: nat
  elapsed_secs :: nat

definition render_column ::
    "log_clock \<Rightarrow> log_level \<Rightarrow> log_source \<Rightarrow> bytes \<Rightarrow> char \<Rightarrow> bytes option" where
  "render_column clock level source msg token =
     (let t = ascii_upper token in
      if t = CHR ''L'' then Some (as_bytes (level_label level))
      else if t = CHR ''P'' then Some (as_bytes (source_label source))
      else if t = CHR ''D'' then Some (as_bytes (thread_label source))
      else if t = CHR ''Q'' then Some (as_bytes '' '')
      else if t = CHR ''T'' then Some (as_bytes (local_text clock))
      else if t = CHR ''Z'' then
        Some (as_bytes (local_text clock @ ''.'' @ pad_zero 3 (show_nat (local_millis clock))))
      else if t = CHR ''U'' then Some (as_bytes (pad_left 8 (show_nat (elapsed_secs clock))))
      else if t = CHR ''G'' then Some (as_bytes (pad_left 8 (show_nat 0)))
      else if t = CHR ''M'' then Some msg
      else None)"

fun join_columns :: "bytes list \<Rightarrow> bytes" where
  "join_columns [] = []"
| "join_columns [c] = c"
| "join_columns (c # d # cs) = c @ as_bytes '' | '' @ join_columns (d # cs)"

definition render_bytes ::
    "log_clock \<Rightarrow> string \<Rightarrow> log_level \<Rightarrow> log_source \<Rightarrow> bytes \<Rightarrow> bytes" where
  "render_bytes clock format level source msg =
     join_columns (List.map_filter (render_column clock level source msg) format)"

subsection \<open>Correctness of the wildcard matcher\<close>

text \<open>
  The specification: a star stands for any bytes, a question mark for any single byte,
  every other byte for itself.
\<close>

inductive glob_match :: "bytes \<Rightarrow> bytes \<Rightarrow> bool" where
  glob_nil: "glob_match [] []"
| glob_star: "glob_match p t \<Longrightarrow> glob_match (0x2A # p) (u @ t)"
| glob_byte: "glob_match p t \<Longrightarrow> c \<noteq> 0x2A \<Longrightarrow> c = 0x3F \<or> c = x \<Longrightarrow> glob_match (c # p) (x # t)"

inductive_cases glob_Nil_elim: "glob_match [] t"
inductive_cases glob_Cons_elim: "glob_match (c # p) t"

definition glob_prefix :: "bytes \<Rightarrow> bytes \<Rightarrow> bool" where
  "glob_prefix p t \<longleftrightarrow> (\<exists>m b. t = m @ b \<and> glob_match p m)"

lemma glob_prefix_Nil [simp]: "glob_prefix [] t"
  unfolding glob_prefix_def using glob_nil by auto

lemma glob_prefix_star: "glob_prefix (0x2A # p) t \<longleftrightarrow> (\<exists>k \<le> length t. glob_prefix p (drop k t))"
proof
  assume "glob_prefix (0x2A # p) t"
  then obtain m b where t: "t = m @ b" and "glob_match (0x2A # p) m"
    by (auto simp: glob_prefix_def)
  then obtain u s where "m = u @ s" "glob_match p s" by (auto elim: glob_Cons_elim)
  with t show "\<exists>k \<le> length t. glob_prefix p (drop k t)"
    by (intro exI [of _ "length u"]) (auto simp: glob_prefix_def)
next
  assume "\<exists>k \<le> length t. glob_prefix p (drop k t)"
  then obtain k m b where "drop k t = m @ b" "glob_match p m" by (auto simp: glob_prefix_def)
  moreover from this(1) have "t = (take k t @ m) @ b" by (metis append.assoc append_take_drop_id)
  moreover from calculation(2) have "glob_match (0x2A # p) (take k t @ m)" by (rule glob_star)
  ultimately show "glob_prefix (0x2A # p) t" unfolding glob_prefix_def by blast
qed

lemma glob_prefix_byte:
  assumes "c \<noteq> 0x2A"
  shows "glob_prefix (c # p) t \<longleftrightarrow> t \<noteq> [] \<and> (c = 0x3F \<or> c = hd t) \<and> glob_prefix p (tl t)"
proof
  assume "glob_prefix (c # p) t"
  then obtain m b where "t = m @ b" and "glob_match (c # p) m" by (auto simp: glob_prefix_def)
  with assms show "t \<noteq> [] \<and> (c = 0x3F \<or> c = hd t) \<and> glob_prefix p (tl t)"
    unfolding glob_prefix_def by (auto elim!: glob_Cons_elim) blast+
next
  assume r: "t \<noteq> [] \<and> (c = 0x3F \<or> c = hd t) \<and> glob_prefix p (tl t)"
  then obtain m b where "tl t = m @ b" "glob_match p m" by (auto simp: glob_prefix_def)
  with r assms have "t = (hd t # m) @ b" "glob_match (c # p) (hd t # m)"
    by (metis append_Cons list.collapse) (use \<open>glob_match p m\<close> r assms in \<open>blast intro: glob_byte\<close>)
  then show "glob_prefix (c # p) t" unfolding glob_prefix_def by blast
qed

text \<open>Matching at positions of a fixed pattern and text, as the loop does.\<close>

definition glob_at :: "bytes \<Rightarrow> bytes \<Rightarrow> nat \<Rightarrow> nat \<Rightarrow> bool" where
  "glob_at pattern text i j \<longleftrightarrow> glob_prefix (drop i pattern) (drop j text)"

lemma glob_at_end: "length pattern \<le> i \<Longrightarrow> glob_at pattern text i j"
  by (simp add: glob_at_def)

lemma glob_at_star:
  assumes "i < length pattern" and "pattern ! i = 0x2A" and "j \<le> length text"
  shows "glob_at pattern text i j \<longleftrightarrow> (\<exists>k. j \<le> k \<and> k \<le> length text \<and> glob_at pattern text (Suc i) k)"
proof -
  have "drop i pattern = 0x2A # drop (Suc i) pattern"
    using assms(1,2) by (metis Cons_nth_drop_Suc)
  then have "glob_at pattern text i j \<longleftrightarrow>
      (\<exists>k \<le> length text - j. glob_prefix (drop (Suc i) pattern) (drop (k + j) text))"
    by (simp add: glob_at_def glob_prefix_star)
  also have "\<dots> \<longleftrightarrow> (\<exists>k. j \<le> k \<and> k \<le> length text \<and> glob_at pattern text (Suc i) k)"
  proof
    assume "\<exists>k \<le> length text - j. glob_prefix (drop (Suc i) pattern) (drop (k + j) text)"
    then obtain k where "k \<le> length text - j" "glob_prefix (drop (Suc i) pattern) (drop (k + j) text)"
      by blast
    with assms(3) show "\<exists>k. j \<le> k \<and> k \<le> length text \<and> glob_at pattern text (Suc i) k"
      by (intro exI [of _ "k + j"]) (simp add: glob_at_def)
  next
    assume "\<exists>k. j \<le> k \<and> k \<le> length text \<and> glob_at pattern text (Suc i) k"
    then obtain k where "j \<le> k" "k \<le> length text" "glob_at pattern text (Suc i) k" by blast
    then show "\<exists>k \<le> length text - j. glob_prefix (drop (Suc i) pattern) (drop (k + j) text)"
      by (intro exI [of _ "k - j"]) (simp add: glob_at_def)
  qed
  finally show ?thesis .
qed

lemma glob_at_byte:
  assumes "i < length pattern" and "pattern ! i \<noteq> 0x2A"
  shows "glob_at pattern text i j \<longleftrightarrow>
    j < length text \<and> (pattern ! i = 0x3F \<or> pattern ! i = text ! j) \<and> glob_at pattern text (Suc i) (Suc j)"
proof -
  have "drop i pattern = pattern ! i # drop (Suc i) pattern"
    using assms(1) by (metis Cons_nth_drop_Suc)
  with assms(2) show ?thesis
    by (cases "j < length text")
      (auto simp: glob_at_def glob_prefix_byte hd_drop_conv_nth tl_drop drop_Suc)
qed

lemma glob_at_skip:
  assumes "glob_at pattern text a k" and "k \<le> length text" and "a \<le> b" and "b \<le> length pattern"
    and "\<forall>i. a \<le> i \<and> i < b \<longrightarrow> pattern ! i \<noteq> 0x2A"
  shows "glob_at pattern text b (k + (b - a)) \<and> k + (b - a) \<le> length text"
  using assms(3,4,5)
proof (induction b rule: dec_induct)
  case (step n)
  then have "glob_at pattern text n (k + (n - a))" by simp
  moreover have "n < length pattern" "pattern ! n \<noteq> 0x2A" using step by auto
  ultimately show ?case using step.hyps by (simp add: glob_at_byte Suc_diff_le)
qed (use assms in simp)

text \<open>
  The backtracking point: between the star and the current position there is no other star,
  and the text was matched byte by byte from where the star stopped.
\<close>

definition backtrack_ok :: "bytes \<Rightarrow> nat \<Rightarrow> nat \<Rightarrow> nat option \<Rightarrow> nat \<Rightarrow> bool" where
  "backtrack_ok pattern ti pi ls si \<longleftrightarrow>
     (case ls of None \<Rightarrow> True
      | Some s \<Rightarrow> s < pi \<and> ti = si + (pi - Suc s) \<and> (\<forall>i. Suc s \<le> i \<and> i < pi \<longrightarrow> pattern ! i \<noteq> 0x2A))"

lemma wildcard_loop_spec:
  assumes "ti \<le> length tx" and "pi \<le> length pattern" and "backtrack_ok pattern ti pi ls si"
  shows "wildcard_loop tx pattern ti pi ls si \<longleftrightarrow>
    glob_at pattern tx pi ti
    \<or> (\<exists>s k. ls = Some s \<and> si < k \<and> k \<le> length tx \<and> glob_at pattern tx (Suc s) k)"
  using assms
proof (induction tx pattern ti pi ls si rule: wildcard_loop.induct)
  case (1 tx pattern ti pi ls si)
  consider (at_end) "length pattern \<le> pi"
    | (star) "pi < length pattern" "pattern ! pi = 0x2A"
    | (byte) "pi < length pattern" "pattern ! pi \<noteq> 0x2A" "ti < length tx"
        "pattern ! pi = 0x3F \<or> pattern ! pi = tx ! ti"
    | (stuck) "pi < length pattern" "pattern ! pi \<noteq> 0x2A"
        "\<not> (ti < length tx \<and> (pattern ! pi = 0x3F \<or> pattern ! pi = tx ! ti))"
    by linarith
  then show ?case
  proof cases
    case at_end
    then show ?thesis by (simp add: wildcard_loop.simps glob_at_end)
  next
    case star
    have later: "glob_at pattern tx pi ti"
      if "ls = Some s" "si < k" "k \<le> length tx" "glob_at pattern tx (Suc s) k" for s k
    proof -
      from that "1.prems"(2,3) glob_at_skip [of pattern tx "Suc s" k pi]
      have "glob_at pattern tx pi (k + (pi - Suc s))" "k + (pi - Suc s) \<le> length tx"
        by (auto simp: backtrack_ok_def)
      then obtain k' where "k + (pi - Suc s) \<le> k'" "k' \<le> length tx" "glob_at pattern tx (Suc pi) k'"
        using star by (auto simp: glob_at_star)
      with that(1,2) star "1.prems"(1,3) show ?thesis
        by (auto simp: glob_at_star backtrack_ok_def intro!: exI [of _ k'])
    qed
    have "wildcard_loop tx pattern ti pi ls si \<longleftrightarrow>
        wildcard_loop tx pattern ti (Suc pi) (Some pi) ti"
      using star by (subst wildcard_loop.simps) simp
    also have "\<dots> \<longleftrightarrow> glob_at pattern tx pi ti"
    proof -
      have "backtrack_ok pattern ti (Suc pi) (Some pi) ti" by (auto simp: backtrack_ok_def)
      with "1.IH"(1) star "1.prems"(1)
      have "wildcard_loop tx pattern ti (Suc pi) (Some pi) ti \<longleftrightarrow> glob_at pattern tx (Suc pi) ti
          \<or> (\<exists>k. ti < k \<and> k \<le> length tx \<and> glob_at pattern tx (Suc pi) k)"
        by simp
      then show ?thesis
        using "1.prems"(1) unfolding glob_at_star [OF star "1.prems"(1)] by (metis le_less order_refl)
    qed
    finally show ?thesis using later by blast
  next
    case byte
    then have "wildcard_loop tx pattern ti pi ls si \<longleftrightarrow>
        wildcard_loop tx pattern (Suc ti) (Suc pi) ls si"
      by (subst wildcard_loop.simps) simp
    moreover have "backtrack_ok pattern (Suc ti) (Suc pi) ls si"
      using byte(2) "1.prems"(3) by (auto simp: backtrack_ok_def less_Suc_eq split: option.splits)
    with "1.IH"(2) byte
    have "wildcard_loop tx pattern (Suc ti) (Suc pi) ls si \<longleftrightarrow> glob_at pattern tx (Suc pi) (Suc ti)
        \<or> (\<exists>s k. ls = Some s \<and> si < k \<and> k \<le> length tx \<and> glob_at pattern tx (Suc s) k)"
      by simp
    ultimately show ?thesis
      using glob_at_byte [OF byte(1,2), of tx ti] byte(3,4) by blast
  next
    case stuck
    then have no: "\<not> glob_at pattern tx pi ti" by (auto simp: glob_at_byte)
    show ?thesis
    proof (cases ls)
      case None
      with stuck no show ?thesis by (subst wildcard_loop.simps) auto
    next
      case (Some s)
      show ?thesis
      proof (cases "si < length tx")
        case True
        with stuck Some have "wildcard_loop tx pattern ti pi ls si \<longleftrightarrow>
            wildcard_loop tx pattern (Suc si) (Suc s) (Some s) (Suc si)"
          by (subst wildcard_loop.simps) auto
        moreover have "backtrack_ok pattern (Suc si) (Suc s) (Some s) (Suc si)" "Suc s \<le> length pattern"
          using Some stuck(1) "1.prems"(3) by (auto simp: backtrack_ok_def)
        ultimately have "wildcard_loop tx pattern ti pi ls si \<longleftrightarrow> glob_at pattern tx (Suc s) (Suc si)
            \<or> (\<exists>k. Suc si < k \<and> k \<le> length tx \<and> glob_at pattern tx (Suc s) k)"
          using "1.IH"(3) stuck Some True by simp
        also have "\<dots> \<longleftrightarrow> (\<exists>k. si < k \<and> k \<le> length tx \<and> glob_at pattern tx (Suc s) k)"
          using True by (metis Suc_lessI Suc_leI Suc_lessD lessI)
        finally show ?thesis using no Some by simp
      next
        case False
        with stuck Some no show ?thesis by (subst wildcard_loop.simps) auto
      qed
    qed
  qed
qed

text \<open>
  C29. The wildcard matcher, an iterative search with one backtracking point, is exact: it
  finds a trigger in a line if and only if some part of the line matches the pattern, where
  a star stands for any bytes and a question mark for one byte. It terminates on every
  input.
\<close>

theorem wildcard_contains_correct:
  "wildcard_contains line pattern \<longleftrightarrow> (\<exists>a m b. line = a @ m @ b \<and> glob_match pattern m)"
proof -
  have "wildcard_matches_prefix t pattern \<longleftrightarrow> glob_prefix pattern t" for t
    using wildcard_loop_spec [of 0 t 0 pattern None 0]
    by (simp add: wildcard_matches_prefix_def backtrack_ok_def glob_at_def)
  then have "wildcard_contains line pattern \<longleftrightarrow>
      (\<exists>start \<le> length line. glob_prefix pattern (drop start line))"
    by (auto simp: wildcard_contains_def list_ex_iff less_Suc_eq_le simp del: upt_Suc)
  also have "\<dots> \<longleftrightarrow> (\<exists>a m b. line = a @ m @ b \<and> glob_match pattern m)"
    unfolding glob_prefix_def
    by (metis append_eq_conv_conj append_take_drop_id length_append le_add1)
  finally show ?thesis .
qed

subsection \<open>Correctness of the filters and sizes\<close>

lemma find_split:
  "find Q xs = Some x \<longleftrightarrow> (\<exists>us vs. xs = us @ x # vs \<and> \<not> list_ex Q us \<and> Q x)" (is "?l \<longleftrightarrow> ?r")
proof
  assume ?l
  then show ?r
  proof (induction xs)
    case (Cons y ys)
    show ?case
    proof (cases "Q y")
      case True
      with Cons.prems show ?thesis by (intro exI [of _ "[]"] exI [of _ ys]) auto
    next
      case False
      with Cons obtain us vs where "ys = us @ x # vs" "\<not> list_ex Q us" "Q x" by auto
      with False show ?thesis by (intro exI [of _ "y # us"] exI [of _ vs]) auto
    qed
  qed simp
next
  assume ?r
  then obtain us vs where "xs = us @ x # vs" "\<not> list_ex Q us" "Q x" by blast
  then show ?l by (induction us arbitrary: xs) auto
qed

lemma find_None_list_ex: "find Q xs = None \<longleftrightarrow> \<not> list_ex Q xs"
  by (auto simp: find_None_iff list_ex_iff)


lemma lower_digits: "list_all is_digit s \<Longrightarrow> map ascii_lower s = s"
  by (induction s) (auto simp: ascii_lower_def is_digit_def is_upper_def)

definition unit_word :: "string \<Rightarrow> bool" where
  "unit_word u \<longleftrightarrow> list_all (\<lambda>c. is_ascii_char c \<and> \<not> ascii_space c \<and> \<not> is_digit c) u"

lemma unit_word_trim: "unit_word u \<Longrightarrow> trim u = u"
  by (rule trim_ascii_id) (use hd_in_set [of u] last_in_set [of u] in \<open>auto simp: unit_word_def list_all_iff\<close>)

lemma parse_size_unit:
  assumes "unit_word u" and "unit_word (map ascii_lower u)"
  shows "parse_size (show_nat n @ u) =
    (case parse_word (show_nat n) of None \<Rightarrow> None
     | Some k \<Rightarrow> (case size_multiplier (map ascii_lower u) of None \<Rightarrow> None | Some m \<Rightarrow> checked_mul k m))"
proof -
  have "trim (show_nat n @ u) = show_nat n @ u"
    using show_nat_digits [of n] is_digit_ascii [OF show_nat_hd] is_digit_ascii [OF show_nat_last] assms(1)
    by (intro trim_ascii_id) (cases u rule: rev_cases; auto simp: unit_word_def)
  then have "to_ascii_lowercase (trim (show_nat n @ u)) = show_nat n @ map ascii_lower u"
    using show_nat_digits [of n] by (simp add: lower_digits)
  moreover have "takeWhile is_digit (show_nat n @ map ascii_lower u) = show_nat n"
  proof -
    have "takeWhile is_digit (map ascii_lower u) = []"
      using assms(2) by (cases u) (auto simp: unit_word_def)
    then show ?thesis
      using show_nat_digits [of n] by (simp add: list_all_iff takeWhile_append2)
  qed
  ultimately show ?thesis
    using unit_word_trim [OF assms(2)]
    unfolding parse_size_def Let_def by (simp only: drop_append drop_all diff_self_eq_0 drop_0 append_Nil order_refl)
qed

lemma parse_word_nat: "parse_word (show_nat n) = (if n < 2 ^ LENGTH('a) then Some (of_nat n :: 'a::len word) else None)"
  by (auto simp: parse_word_def dest: le_imp_less_Suc)

lemma checked_mul_nat:
  assumes "n < 2 ^ LENGTH('a)" and "m < 2 ^ LENGTH('a)"
  shows "checked_mul (of_nat n) (of_nat m :: 'a::len word) =
    (if n * m < 2 ^ LENGTH('a) then Some (of_nat (n * m)) else None)"
  using assms by (simp add: checked_mul_def unat_of_nat)

definition size_units :: "(string \<times> nat) list" where
  "size_units = [('''', 1), (''b'', 1), (''k'', 1024), (''KB'', 1024), (''M'', 1048576),
     (''mb'', 1048576), (''g'', 1073741824), (''GB'', 1073741824)]"

lemma size_units_table:
  assumes "(u, f) \<in> set size_units"
  shows "unit_word u \<and> unit_word (map ascii_lower u)
     \<and> size_multiplier (map ascii_lower u) = Some (of_nat f) \<and> 0 < f \<and> f < 2 ^ 64"
proof -
  have words: "list_all (\<lambda>u. unit_word u \<and> unit_word (map ascii_lower u))
      ['''', ''b'', ''k'', ''KB'', ''M'', ''mb'', ''g'', ''GB'']"
    and lower: "map (map ascii_lower) ['''', ''b'', ''k'', ''KB'', ''M'', ''mb'', ''g'', ''GB''] =
      ['''', ''b'', ''k'', ''kb'', ''m'', ''mb'', ''g'', ''gb'']"
    by code_simp+
  with assms show ?thesis
    by (auto simp: size_units_def size_multiplier_def)
qed

text \<open>
  A size is read exactly or refused: a decimal number with a unit is the product, and it
  is refused if and only if the product does not fit into 64 bits (it never wraps).
\<close>

lemma parse_size_exact:
  assumes "(unit, factor) \<in> set size_units"
  shows "parse_size (show_nat n @ unit) =
    (if n * factor < 2 ^ 64 then Some (of_nat (n * factor)) else None)"
proof -
  note unit = size_units_table [OF assms]
  show ?thesis
  proof (cases "n < 2 ^ 64")
    case True
    with unit show ?thesis
      using checked_mul_nat [where 'a = 64, of n factor]
      by (simp add: parse_size_unit parse_word_nat)
  next
    case False
    then have "\<not> n * factor < 2 ^ 64" using unit
      by (metis One_nat_def Suc_leI less_le_trans mult.right_neutral mult_le_mono2 not_less)
    with False unit show ?thesis by (simp add: parse_size_unit parse_word_nat)
  qed
qed

lemma parse_size_exact_sample:
  "parse_size (show_nat 17179869184 @ ''GB'') = None \<and> parse_size (show_nat 5 @ ''M'') = Some 5242880"
  using parse_size_exact [of "''GB''" 1073741824 17179869184] parse_size_exact [of "''M''" 1048576 5]
  by (simp add: size_units_def)

end
