(* ===== verification/Effects.thy ===== *)
theory Effects
  imports Platform
begin

section \<open>Stateful computations that may fail\<close>

text \<open>
  A computation takes the state and returns a result or an error together with the state it
  leaves, also when it fails: what was done before an error stays done.
\<close>

type_synonym ('s, 'e, 'a) action = "'s \<Rightarrow> ('e + 'a) \<times> 's"

definition returns :: "'a \<Rightarrow> ('s, 'e, 'a) action" where
  "returns x s = (Inr x, s)"

definition fails :: "'e \<Rightarrow> ('s, 'e, 'a) action" where
  "fails e s = (Inl e, s)"

definition followed_by ::
    "('s, 'e, 'a) action \<Rightarrow> ('a \<Rightarrow> ('s, 'e, 'b) action) \<Rightarrow> ('s, 'e, 'b) action" where
  "followed_by m f s = (case m s of (Inl e, s') \<Rightarrow> (Inl e, s') | (Inr x, s') \<Rightarrow> f x s')"

definition modifies :: "('s \<Rightarrow> 's) \<Rightarrow> ('s, 'e, unit) action" where
  "modifies g s = (Inr (), g s)"

definition reads :: "('s \<Rightarrow> 'a) \<Rightarrow> ('s, 'e, 'a) action" where
  "reads g s = (Inr (g s), s)"

definition fails_as :: "('e \<Rightarrow> 'f) \<Rightarrow> ('s, 'e, 'a) action \<Rightarrow> ('s, 'f, 'a) action" where
  "fails_as g m s = (case m s of (r, s') \<Rightarrow> (map_error g r, s'))"

primrec for_each :: "('a \<Rightarrow> ('s, 'e, unit) action) \<Rightarrow> 'a list \<Rightarrow> ('s, 'e, unit) action" where
  "for_each f [] = returns ()"
| "for_each f (x # xs) = followed_by (f x) (\<lambda>_. for_each f xs)"

text \<open>Running an action on a part of the state.\<close>

definition on_snd :: "('t, 'e, 'a) action \<Rightarrow> ('s \<times> 't, 'e, 'a) action" where
  "on_snd m s = (case m (snd s) of (r, t) \<Rightarrow> (r, (fst s, t)))"

named_theorems action_simps \<open>evaluation of actions\<close>

lemmas [action_simps] = returns_def fails_def followed_by_def modifies_def reads_def fails_as_def on_snd_def

lemma for_each_append:
  "for_each f (xs @ ys) = followed_by (for_each f xs) (\<lambda>_. for_each f ys)"
  by (induction xs) (auto simp: action_simps fun_eq_iff split: sum.splits prod.splits)

lemma followed_by_Inr:
  "m s = (Inr x, s') \<Longrightarrow> followed_by m f s = f x s'"
  by (simp add: followed_by_def)

lemma followed_by_Inl:
  "m s = (Inl e, s') \<Longrightarrow> followed_by m f s = (Inl e, s')"
  by (simp add: followed_by_def)

text \<open>An invariant kept by both parts is kept by the sequence.\<close>

definition keeps :: "('s \<Rightarrow> bool) \<Rightarrow> ('s, 'e, 'a) action \<Rightarrow> bool" where
  "keeps I m \<longleftrightarrow> (\<forall>s. I s \<longrightarrow> I (snd (m s)))"

lemma keeps_followed_by [invariant_intros]:
  "keeps I m \<Longrightarrow> (\<And>x. keeps I (f x)) \<Longrightarrow> keeps I (followed_by m f)"
  by (auto simp: keeps_def followed_by_def split: sum.splits prod.splits)

lemma keeps_returns [invariant_intros]: "keeps I (returns x)" and
  keeps_fails [invariant_intros]: "keeps I (fails e)" and
  keeps_reads [invariant_intros]: "keeps I (reads g)"
  by (simp_all add: keeps_def action_simps)

lemma keeps_modifies [invariant_intros]: "(\<And>s. I s \<Longrightarrow> I (g s)) \<Longrightarrow> keeps I (modifies g)"
  by (simp add: keeps_def modifies_def)

lemma keeps_fails_as [invariant_intros]: "keeps I m \<Longrightarrow> keeps I (fails_as g m)"
  by (auto simp: keeps_def fails_as_def split: prod.splits)

lemma keeps_for_each [invariant_intros]: "(\<And>x. keeps I (f x)) \<Longrightarrow> keeps I (for_each f xs)"
  by (induction xs) (auto intro: invariant_intros)

lemma keeps_on_snd [invariant_intros]:
  "keeps I m \<Longrightarrow> keeps (\<lambda>s. I (snd s)) (on_snd m)"
  by (auto simp: keeps_def on_snd_def split: prod.splits)

end
