(* ===== verification/Log_Files.thy ===== *)
theory Log_Files
  imports Logging Effects
begin

section \<open>Log files and their rotation: \<open>src/logging.rs\<close>\<close>

text \<open>
  The file system the log writer works on: names refer to files by number, so that an open
  file keeps its identity when it is renamed. Every operation asks the plan whether it
  fails; a failed write says how many buffered bytes reached the file. \<open>LogWriter\<close> with its
  creation, its writes and its roll-over.
\<close>

subsection \<open>The file system\<close>

record disk =
  names :: "(string \<times> nat) list"
  data :: "nat \<Rightarrow> bytes"
  next_file :: nat
  console :: bytes
  ops :: nat
  plan :: "nat \<Rightarrow> (io_error \<times> nat) option"
  clock :: "nat \<Rightarrow> log_clock"

definition lookup :: "disk \<Rightarrow> string \<Rightarrow> nat option" where
  "lookup d p = map_of (names d) p"

definition file_at :: "disk \<Rightarrow> string \<Rightarrow> bytes option" where
  "file_at d p = map_option (data d) (lookup d p)"

definition tick_op :: "disk \<Rightarrow> (io_error \<times> nat) option \<times> disk" where
  "tick_op d = (plan d (ops d), d\<lparr>ops := Suc (ops d)\<rparr>)"

definition not_found :: io_error where
  "not_found = Io_Error NotFound ''The system cannot find the file specified.''"

definition file_exists :: "string \<Rightarrow> (disk, 'e, bool) action" where
  "file_exists p d =
     (case tick_op d of (fault, d') \<Rightarrow> (Inr (fault = None \<and> lookup d' p \<noteq> None), d'))"

definition drop_name :: "string \<Rightarrow> disk \<Rightarrow> disk" where
  "drop_name p d = d\<lparr>names := filter (\<lambda>e. fst e \<noteq> p) (names d)\<rparr>"

definition set_name :: "string \<Rightarrow> nat \<Rightarrow> disk \<Rightarrow> disk" where
  "set_name p i d = d\<lparr>names := (p, i) # filter (\<lambda>e. fst e \<noteq> p) (names d)\<rparr>"

definition remove_file :: "string \<Rightarrow> (disk, error, unit) action" where
  "remove_file p d =
     (case tick_op d of
       (Some (e, _), d') \<Rightarrow> (Inl (Error_Io e), d')
     | (None, d') \<Rightarrow>
         if lookup d' p = None then (Inl (Error_Io not_found), d') else (Inr (), drop_name p d'))"

definition rename :: "string \<Rightarrow> string \<Rightarrow> (disk, error, unit) action" where
  "rename a b d =
     (case tick_op d of
       (Some (e, _), d') \<Rightarrow> (Inl (Error_Io e), d')
     | (None, d') \<Rightarrow>
         (case lookup d' a of
           None \<Rightarrow> (Inl (Error_Io not_found), d')
         | Some i \<Rightarrow> (Inr (), set_name b i (drop_name a d'))))"

definition open_append_shared :: "string \<Rightarrow> (disk, error, nat) action" where
  "open_append_shared p d =
     (case tick_op d of
       (Some (e, _), d') \<Rightarrow> (Inl (Error_Io e), d')
     | (None, d') \<Rightarrow>
         (case lookup d' p of
           Some i \<Rightarrow> (Inr i, d')
         | None \<Rightarrow>
             (Inr (next_file d'),
              set_name p (next_file d')
                (d'\<lparr>data := (data d')(next_file d' := []), next_file := Suc (next_file d')\<rparr>))))"

definition open_truncated_shared :: "string \<Rightarrow> (disk, error, nat) action" where
  "open_truncated_shared p d =
     (case tick_op d of
       (Some (e, _), d') \<Rightarrow> (Inl (Error_Io e), d')
     | (None, d') \<Rightarrow>
         (case lookup d' p of
           Some i \<Rightarrow> (Inr i, d'\<lparr>data := (data d')(i := [])\<rparr>)
         | None \<Rightarrow>
             (Inr (next_file d'),
              set_name p (next_file d')
                (d'\<lparr>data := (data d')(next_file d' := []), next_file := Suc (next_file d')\<rparr>))))"

definition file_length :: "nat \<Rightarrow> (disk, error, u64) action" where
  "file_length i d =
     (case tick_op d of
       (Some (e, _), d') \<Rightarrow> (Inl (Error_Io e), d')
     | (None, d') \<Rightarrow> (Inr (of_nat (length (data d' i))), d'))"

text \<open>The entries of a directory; reading each of them may fail too.\<close>

definition directory_entries :: "platform \<Rightarrow> string \<Rightarrow> disk \<Rightarrow> string list" where
  "directory_entries P dir d =
     List.map_filter
       (\<lambda>(p, _). if path_parent P p = Some dir then path_file_name P p else None) (names d)"

definition io_check :: "(disk, error, unit) action" where
  "io_check d =
     (case tick_op d of (Some (e, _), d') \<Rightarrow> (Inl (Error_Io e), d') | (None, d') \<Rightarrow> (Inr (), d'))"

subsection \<open>Rotation\<close>

definition rolled_path :: "string \<Rightarrow> nat \<Rightarrow> string" where
  "rolled_path path index = display path @ ''.'' @ show_nat index"

definition rolled_index :: "string \<Rightarrow> string \<Rightarrow> nat option" where
  "rolled_index prefix name =
     (case strip_prefix prefix (display name) of
       None \<Rightarrow> None
     | Some suffix \<Rightarrow> parse_unsigned (2 ^ 32 - 1) suffix)"

primrec highest_entry :: "string \<Rightarrow> string list \<Rightarrow> nat \<Rightarrow> (disk, error, nat) action" where
  "highest_entry prefix [] highest = returns highest"
| "highest_entry prefix (name # rest) highest =
     followed_by io_check (\<lambda>_.
       highest_entry prefix rest
         (case rolled_index prefix name of None \<Rightarrow> highest | Some index \<Rightarrow> max highest index))"

definition highest_rolled_index :: "platform \<Rightarrow> string \<Rightarrow> (disk, error, nat) action" where
  "highest_rolled_index P path =
     (let directory = (case path_parent P path of None \<Rightarrow> ''.'' | Some dir \<Rightarrow> dir) in
      case path_file_name P path of
        None \<Rightarrow> returns 0
      | Some file_name \<Rightarrow>
          followed_by io_check (\<lambda>_.
          followed_by (reads (directory_entries P directory)) (\<lambda>entries.
            highest_entry (display file_name @ ''.'') entries 0)))"

definition shift_archive :: "string \<Rightarrow> nat \<Rightarrow> (disk, error, unit) action" where
  "shift_archive path index =
     followed_by (file_exists (rolled_path path index)) (\<lambda>present.
       if present then rename (rolled_path path index) (rolled_path path (index + 1))
       else returns ())"

definition rotation_limit :: "platform \<Rightarrow> string \<Rightarrow> nat \<Rightarrow> (disk, error, nat) action" where
  "rotation_limit P path max_files =
     (if max_files = 0 then
        followed_by (highest_rolled_index P path) (\<lambda>highest.
          if highest + 1 < 2 ^ 32 then returns (highest + 1)
          else fails (Error_Config ''too many rotated log files''))
      else
        followed_by (file_exists (rolled_path path max_files)) (\<lambda>present.
        followed_by (if present then remove_file (rolled_path path max_files) else returns ())
          (\<lambda>_. returns max_files)))"

definition rotate_log :: "platform \<Rightarrow> string \<Rightarrow> nat \<Rightarrow> (disk, error, unit) action" where
  "rotate_log P path max_files =
     followed_by (rotation_limit P path max_files) (\<lambda>limit.
     followed_by (for_each (shift_archive path) (rev [1..<limit])) (\<lambda>_.
     followed_by (file_exists path) (\<lambda>present.
       if present then rename path (rolled_path path 1) else returns ())))"

subsection \<open>The log writer\<close>

record log_writer =
  log_path :: string
  handle :: nat
  buffered :: bytes
  current_size :: u64
  max_size :: u64
  max_files :: nat
  roll_on_jvm_restart :: bool
  file_format :: string
  threshold :: log_level
  console_enabled :: bool
  console_format :: string
  console_threshold :: log_level
  console_flush :: bool

type_synonym log_state = "log_writer \<times> disk"

definition from_config_with_console :: "platform \<Rightarrow> config \<Rightarrow> bool \<Rightarrow> (disk, error, log_writer) action" where
  "from_config_with_console P c enabled =
     (let path = resolve_path P c (get_or c ''wrapper.logfile'' ''wrapper.log'');
          files = (let n = unat (get_u64 c ''wrapper.logfile.maxfiles'' 0)
                   in if n < 2 ^ 32 then n else 2 ^ 32 - 1);
          roll_mode = to_ascii_uppercase (get_or c ''wrapper.logfile.rollmode'' ''SIZE'');
          size = (if roll_mode \<in> {''SIZE'', ''SIZE_OR_WRAPPER'', ''SIZE_OR_JVM''}
                  then (case parse_size (get_or c ''wrapper.logfile.maxsize'' ''0'') of
                          None \<Rightarrow> 0 | Some n \<Rightarrow> n)
                  else 0);
          debug = get_bool c ''wrapper.debug'' False
      in followed_by
           (if roll_mode \<in> {''WRAPPER'', ''JVM'', ''SIZE_OR_WRAPPER'', ''SIZE_OR_JVM''}
            then followed_by (file_exists path) (\<lambda>present.
              if present then rotate_log P path files else returns ())
            else returns ()) (\<lambda>_.
         followed_by (open_append_shared path) (\<lambda>file.
         followed_by (file_length file) (\<lambda>size_now.
           returns
             \<lparr>log_path = path, handle = file, buffered = [], current_size = size_now,
              max_size = size, max_files = files,
              roll_on_jvm_restart = (roll_mode \<in> {''JVM'', ''SIZE_OR_JVM''}),
              file_format = validated_format (get_or c ''wrapper.logfile.format'' ''LPTM''),
              threshold = (if debug then Level_Debug
                else configured_log_level c ''wrapper.logfile.loglevel'' Level_Info),
              console_enabled = enabled,
              console_format = validated_format (get_or c ''wrapper.console.format'' ''PM''),
              console_threshold = (if debug then Level_Debug
                else configured_log_level c ''wrapper.console.loglevel'' Level_Info),
              console_flush = get_bool c ''wrapper.console.flush'' False\<rparr>))))"

text \<open>
  The buffered writer: the first \<open>n\<close> buffered bytes reach the file, all of them unless the
  operation fails.
\<close>

definition drain_buffer :: "nat \<Rightarrow> log_state \<Rightarrow> log_state" where
  "drain_buffer n s =
     (case s of (W, d) \<Rightarrow>
       (W\<lparr>buffered := drop n (buffered W)\<rparr>,
        d\<lparr>data := (data d)(handle W := data d (handle W) @ take n (buffered W))\<rparr>))"

definition flush_writer :: "(log_state, error, unit) action" where
  "flush_writer s =
     (case tick_op (snd s) of
       (Some (e, n), d') \<Rightarrow> (Inl (Error_Io e), drain_buffer n (fst s, d'))
     | (None, d') \<Rightarrow> (Inr (), drain_buffer (length (buffered (fst s))) (fst s, d')))"

definition buffer_bytes :: "bytes \<Rightarrow> log_state \<Rightarrow> log_state" where
  "buffer_bytes bs s = ((fst s)\<lparr>buffered := buffered (fst s) @ bs\<rparr>, snd s)"

definition write_all :: "bytes \<Rightarrow> (log_state, error, unit) action" where
  "write_all bs s =
     (case tick_op (snd s) of
       (Some (e, n), d') \<Rightarrow> (Inl (Error_Io e), drain_buffer n (fst s, d'))
     | (None, d') \<Rightarrow> (Inr (), buffer_bytes bs (fst s, d')))"

definition console_write :: "bytes \<Rightarrow> (disk, error, unit) action" where
  "console_write bs d =
     (case tick_op d of
       (Some (e, n), d') \<Rightarrow> (Inl (Error_Io e), d'\<lparr>console := console d' @ take n bs\<rparr>)
     | (None, d') \<Rightarrow> (Inr (), d'\<lparr>console := console d' @ bs\<rparr>))"

definition crlf :: bytes where
  "crlf = [0x0D, 0x0A]"

definition roll_over :: "platform \<Rightarrow> (log_state, error, unit) action" where
  "roll_over P =
     followed_by flush_writer (\<lambda>_.
     followed_by (reads fst) (\<lambda>W.
     followed_by (on_snd (rotate_log P (log_path W) (max_files W))) (\<lambda>_.
     followed_by (on_snd (open_truncated_shared (log_path W))) (\<lambda>replacement.
       modifies (\<lambda>(W, d). (W\<lparr>handle := replacement, buffered := [], current_size := 0\<rparr>, d))))))"

definition roll_for_jvm_restart :: "platform \<Rightarrow> (log_state, error, unit) action" where
  "roll_for_jvm_restart P =
     followed_by (reads fst) (\<lambda>W. if \<not> roll_on_jvm_restart W then returns () else roll_over P)"

definition writes_file :: "log_level \<Rightarrow> log_writer \<Rightarrow> bool" where
  "writes_file level W \<longleftrightarrow> threshold W \<le> level \<and> threshold W \<noteq> Level_None"

definition writes_console :: "log_level \<Rightarrow> log_writer \<Rightarrow> bool" where
  "writes_console level W \<longleftrightarrow>
     console_enabled W \<and> console_threshold W \<le> level \<and> console_threshold W \<noteq> Level_None"

definition log_clock_now :: "(log_state, error, log_clock) action" where
  "log_clock_now = reads (\<lambda>(W, d). clock d (ops d))"

definition write_bytes :: "platform \<Rightarrow> log_level \<Rightarrow> log_source \<Rightarrow> bytes \<Rightarrow> (log_state, error, unit) action" where
  "write_bytes P level source msg =
     followed_by (reads fst) (\<lambda>W.
     followed_by
       (if writes_console level W then
          followed_by log_clock_now (\<lambda>now.
          followed_by (on_snd (console_write (render_bytes now (console_format W) level source msg))) (\<lambda>_.
          followed_by (on_snd (console_write crlf)) (\<lambda>_.
            if console_flush W then on_snd io_check else returns ())))
        else returns ()) (\<lambda>_.
       if writes_file level W then
         followed_by
           (if 0 < max_size W \<and> max_size W \<le> current_size W then roll_over P else returns ()) (\<lambda>_.
         followed_by log_clock_now (\<lambda>now.
           let rendered = render_bytes now (file_format W) level source msg;
               line_size = of_nat (min (length rendered + 2) (2 ^ 64 - 1))
           in followed_by (write_all rendered) (\<lambda>_.
              followed_by (write_all crlf) (\<lambda>_.
              followed_by flush_writer (\<lambda>_.
                modifies (\<lambda>(W, d). (W\<lparr>current_size := saturating_add (current_size W) line_size\<rparr>, d)))))))
       else returns ()))"

definition write_log :: "platform \<Rightarrow> log_level \<Rightarrow> log_source \<Rightarrow> string \<Rightarrow> (log_state, error, unit) action" where
  "write_log P level source m = write_bytes P level source (as_bytes m)"

end
