(* ===== verification/Log_Rotation.thy ===== *)
theory Log_Rotation
  imports Log_Files
begin

section \<open>Correctness of log rotation and of the log's history\<close>

text \<open>
  Without failures of the file system a rotation shifts the archives by exactly one place;
  with an unlimited number of archives nothing is ever lost and the text of all archives and
  of the active file only grows.
\<close>

subsection \<open>Operations without failures\<close>

definition no_faults :: "disk \<Rightarrow> bool" where
  "no_faults d \<longleftrightarrow> plan d = (\<lambda>_. None)"

lemma tick_op_ok [simp]: "no_faults d \<Longrightarrow> tick_op d = (None, d\<lparr>ops := Suc (ops d)\<rparr>)"
  by (simp add: tick_op_def no_faults_def)

lemma no_faults_updates [simp]:
  "no_faults (d\<lparr>ops := n\<rparr>) = no_faults d" "no_faults (d\<lparr>names := ns\<rparr>) = no_faults d"
  "no_faults (d\<lparr>data := f\<rparr>) = no_faults d" "no_faults (d\<lparr>next_file := n\<rparr>) = no_faults d"
  "no_faults (d\<lparr>console := c\<rparr>) = no_faults d"
  "no_faults (drop_name p d) = no_faults d" "no_faults (set_name p i d) = no_faults d"
  by (simp_all add: no_faults_def drop_name_def set_name_def)

lemma lookup_updates [simp]:
  "lookup (d\<lparr>ops := n\<rparr>) q = lookup d q" "lookup (d\<lparr>data := f\<rparr>) q = lookup d q"
  "lookup (d\<lparr>next_file := n\<rparr>) q = lookup d q" "lookup (d\<lparr>console := c\<rparr>) q = lookup d q"
  "lookup (drop_name p d) q = (if q = p then None else lookup d q)"
  "lookup (set_name p i d) q = (if q = p then Some i else lookup d q)"
  by (simp_all add: lookup_def drop_name_def set_name_def
      map_of_filter_key [where P = "\<lambda>k. k \<noteq> p"])

lemma data_updates [simp]:
  "data (drop_name p d) = data d" "data (set_name p i d) = data d"
  by (simp_all add: drop_name_def set_name_def)

text \<open>
  What an operation on names leaves alone: the plan, the contents, the numbering and the
  console. Rotation consists of such operations.
\<close>

definition same_files :: "disk \<Rightarrow> disk \<Rightarrow> bool" where
  "same_files d d' \<longleftrightarrow> no_faults d' = no_faults d \<and> data d' = data d \<and> next_file d' = next_file d
     \<and> console d' = console d \<and> clock d' = clock d"

lemma same_files_refl [simp, intro]: "same_files d d"
  by (simp add: same_files_def)

lemma same_files_trans [trans]: "same_files a b \<Longrightarrow> same_files b c \<Longrightarrow> same_files a c"
  by (simp add: same_files_def)

lemma same_files_updates [simp]:
  "same_files d (d'\<lparr>ops := n\<rparr>) = same_files d d'"
  "same_files d (drop_name p d') = same_files d d'"
  "same_files d (set_name p i d') = same_files d d'"
  by (auto simp: same_files_def drop_name_def set_name_def no_faults_def)

lemma file_exists_ok:
  "no_faults d \<Longrightarrow> file_exists p d = (Inr (lookup d p \<noteq> None), d\<lparr>ops := Suc (ops d)\<rparr>)"
  by (simp add: file_exists_def)

definition renamed :: "string \<Rightarrow> string \<Rightarrow> (string \<Rightarrow> nat option) \<Rightarrow> string \<Rightarrow> nat option" where
  "renamed a b m q = (if m a = None then m q else if q = b then m a else if q = a then None else m q)"

lemma rename_if_present:
  assumes "no_faults d"
  shows "\<exists>d'. followed_by (file_exists a) (\<lambda>present. if present then rename a b else returns ()) d = (Inr (), d')
    \<and> same_files d d' \<and> lookup d' = renamed a b (lookup d)"
proof (cases "lookup d a")
  case None
  with assms show ?thesis
    by (simp add: followed_by_def file_exists_ok returns_def renamed_def fun_eq_iff)
next
  case (Some i)
  with assms show ?thesis
    by (simp add: followed_by_def file_exists_ok rename_def renamed_def fun_eq_iff)
qed

subsection \<open>The shift of the archives\<close>

lemma rolled_inject [simp]: "rolled_path path i = rolled_path path j \<longleftrightarrow> i = j"
  by (simp add: rolled_path_def)

lemma rolled_not_path: "display path = path \<Longrightarrow> rolled_path path i \<noteq> path"
  by (simp add: rolled_path_def)

text \<open>
  The names after the archives \<open>j\<close> to \<open>n - 1\<close> have moved up by one, where \<open>n\<close> was free.
\<close>

definition shifted :: "string \<Rightarrow> nat \<Rightarrow> nat \<Rightarrow> (string \<Rightarrow> nat option) \<Rightarrow> (string \<Rightarrow> nat option) \<Rightarrow> bool" where
  "shifted path j n m m' \<longleftrightarrow>
     (\<forall>k. j < k \<and> k \<le> n \<longrightarrow> m' (rolled_path path k) = m (rolled_path path (k - 1)))
     \<and> m' (rolled_path path j) = None
     \<and> (\<forall>q. q \<notin> rolled_path path ` {j..n} \<longrightarrow> m' q = m q)"

lemma shifted_start: "m (rolled_path path n) = None \<Longrightarrow> shifted path n n m m"
  by (auto simp: shifted_def)

lemma shifted_step:
  assumes "shifted path (Suc j) n m m'" and "j < n"
  shows "shifted path j n m (renamed (rolled_path path j) (rolled_path path (Suc j)) m')"
    (is "shifted _ _ _ _ ?m")
proof -
  have "rolled_path path j \<notin> rolled_path path ` {Suc j..n}" by auto
  then have old: "m' (rolled_path path j) = m (rolled_path path j)" "m' (rolled_path path (Suc j)) = None"
    using assms(1) by (simp_all add: shifted_def)
  have "?m (rolled_path path k) = m (rolled_path path (k - 1))" if "j < k" "k \<le> n" for k
  proof (cases "k = Suc j")
    case True
    with old show ?thesis by (simp add: renamed_def)
  next
    case False
    with that have "m' (rolled_path path k) = m (rolled_path path (k - 1))"
      using assms(1) by (simp add: shifted_def)
    with that False show ?thesis by (simp add: renamed_def)
  qed
  moreover have "?m (rolled_path path j) = None"
    using old by (simp add: renamed_def)
  moreover have "?m q = m q" if "q \<notin> rolled_path path ` {j..n}" for q
  proof -
    from that have "q \<notin> rolled_path path ` {Suc j..n}" "q \<noteq> rolled_path path j"
      using assms(2) by auto
    moreover from that assms(2) have "q \<noteq> rolled_path path (Suc j)" by auto
    ultimately show ?thesis using assms(1) by (simp add: shifted_def renamed_def)
  qed
  ultimately show ?thesis unfolding shifted_def by blast
qed

lemma shift_archive_Suc:
  "shift_archive path j = followed_by (file_exists (rolled_path path j)) (\<lambda>present.
     if present then rename (rolled_path path j) (rolled_path path (Suc j)) else returns ())"
  by (simp only: shift_archive_def Suc_eq_plus1)

lemma shift_archives:
  assumes "j \<le> n" and "no_faults d" and "lookup d (rolled_path path n) = None"
  shows "\<exists>d'. for_each (shift_archive path) (rev [j..<n]) d = (Inr (), d') \<and> same_files d d'
    \<and> shifted path j n (lookup d) (lookup d')"
  using assms(1)
proof (induction j rule: inc_induct)
  case base
  then show ?case using assms(3) by (auto simp: returns_def shifted_start)
next
  case (step j)
  then obtain d1 where run: "for_each (shift_archive path) (rev [Suc j..<n]) d = (Inr (), d1)"
    and same: "same_files d d1" and sh: "shifted path (Suc j) n (lookup d) (lookup d1)"
    by blast
  from same assms(2) have "no_faults d1" by (simp add: same_files_def)
  from rename_if_present [OF this, of "rolled_path path j" "rolled_path path (Suc j)"]
  obtain d2 where "shift_archive path j d1 = (Inr (), d2)" "same_files d1 d2"
    "lookup d2 = renamed (rolled_path path j) (rolled_path path (Suc j)) (lookup d1)"
    unfolding shift_archive_Suc by blast
  moreover have "rev [j..<n] = rev [Suc j..<n] @ [j]"
    using step.hyps by (simp add: upt_conv_Cons)
  ultimately show ?case
    using run same sh step.hyps shifted_step [OF sh] same_files_trans [OF same]
    by (simp add: for_each_append followed_by_def returns_def)
qed

lemma rotate_after_limit:
  assumes limit: "rotation_limit P path n d = (Inr limit, d1)" "same_files d d1" "no_faults d"
    and free: "lookup d1 (rolled_path path limit) = None" and "1 \<le> limit" and "display path = path"
  shows "\<exists>d'. rotate_log P path n d = (Inr (), d') \<and> same_files d d'
    \<and> lookup d' path = None
    \<and> lookup d' (rolled_path path 1) = lookup d1 path
    \<and> (\<forall>i. 1 \<le> i \<and> i < limit \<longrightarrow> lookup d' (rolled_path path (Suc i)) = lookup d1 (rolled_path path i))
    \<and> (\<forall>q. q \<noteq> path \<and> q \<notin> rolled_path path ` {1..limit} \<longrightarrow> lookup d' q = lookup d1 q)"
proof -
  have nf1: "no_faults d1" using limit by (simp add: same_files_def)
  from shift_archives [OF \<open>1 \<le> limit\<close> nf1 free] obtain d2 where
    run: "for_each (shift_archive path) (rev [1..<limit]) d1 = (Inr (), d2)" and same2: "same_files d1 d2"
    and sh: "shifted path 1 limit (lookup d1) (lookup d2)" by blast
  have nf2: "no_faults d2" using nf1 same2 by (simp add: same_files_def)
  from rename_if_present [OF nf2, of path "rolled_path path 1"] obtain d3 where
    last: "followed_by (file_exists path) (\<lambda>present. if present then rename path (rolled_path path 1) else returns ()) d2
      = (Inr (), d3)" and same3: "same_files d2 d3"
    and l3: "lookup d3 = renamed path (rolled_path path 1) (lookup d2)" by blast
  have path: "path \<notin> rolled_path path ` {1..limit}" "rolled_path path 1 \<noteq> path"
    using rolled_not_path [OF \<open>display path = path\<close>] by (auto dest: sym)
  then have p2: "lookup d2 path = lookup d1 path" using sh by (simp add: shifted_def)
  have "rotate_log P path n d = (Inr (), d3)"
    using limit(1) run last by (simp add: rotate_log_def followed_by_def)
  moreover have "same_files d d3"
    using limit(2) same2 same3 by (blast intro: same_files_trans)
  moreover have "lookup d3 path = None" and "lookup d3 (rolled_path path 1) = lookup d1 path"
    using l3 p2 path sh by (auto simp: renamed_def shifted_def)
  moreover have "lookup d3 (rolled_path path (Suc i)) = lookup d1 (rolled_path path i)"
    if "1 \<le> i" "i < limit" for i
  proof -
    have "lookup d2 (rolled_path path (Suc i)) = lookup d1 (rolled_path path i)"
      using that sh by (simp add: shifted_def)
    then show ?thesis
      using that(1) rolled_not_path [OF \<open>display path = path\<close>, of "Suc i"] by (simp add: l3 renamed_def)
  qed
  moreover have "lookup d3 q = lookup d1 q" if "q \<noteq> path" "q \<notin> rolled_path path ` {1..limit}" for q
  proof -
    have "q \<noteq> rolled_path path 1" using that(2) \<open>1 \<le> limit\<close> by auto
    moreover have "lookup d2 q = lookup d1 q" using that(2) sh by (simp add: shifted_def)
    ultimately show ?thesis using that(1) by (simp add: l3 renamed_def)
  qed
  ultimately show ?thesis by blast
qed

subsection \<open>A limited number of archives\<close>

lemma rotation_limit_bounded:
  assumes "no_faults d" and "0 < n"
  shows "\<exists>d1. rotation_limit P path n d = (Inr n, d1) \<and> same_files d d1
    \<and> lookup d1 = (\<lambda>q. if q = rolled_path path n then None else lookup d q)"
  using assms
  by (cases "lookup d (rolled_path path n)")
    (auto simp: rotation_limit_def followed_by_def file_exists_ok returns_def remove_file_def)


definition sample_disk :: disk where
  "sample_disk =
     \<lparr>names = [(''/l'', 0), (''/l.1'', 1), (''/l.2'', 2)],
      data = (\<lambda>i. [of_nat i]), next_file = 3, console = [], ops = 0, plan = (\<lambda>_. None),
      clock = (\<lambda>_. \<lparr>local_text = ''t'', local_millis = 7, elapsed_secs = 0\<rparr>)\<rparr>"

lemma sample_disk_ok: "no_faults sample_disk" "display ''/l'' = ''/l''"
  by (simp add: sample_disk_def no_faults_def) code_simp


subsection \<open>An unlimited number of archives\<close>

text \<open>
  What the path library promises of archive names: appending a number to a path changes the
  last component only, and that component is valid Unicode.
\<close>

definition rolled_names :: "platform \<Rightarrow> string \<Rightarrow> bool" where
  "rolled_names P path \<longleftrightarrow> display path = path \<and>
     (\<exists>dir name. path_parent P path = Some dir \<and> path_file_name P path = Some name \<and> display name = name
       \<and> (\<forall>i. path_parent P (rolled_path path i) = Some dir
            \<and> path_file_name P (rolled_path path i) = Some (name @ ''.'' @ show_nat i)
            \<and> display (name @ ''.'' @ show_nat i) = name @ ''.'' @ show_nat i))"

text \<open>All numbered archives are below the largest index.\<close>

definition archives_below :: "platform \<Rightarrow> string \<Rightarrow> disk \<Rightarrow> bool" where
  "archives_below P path d \<longleftrightarrow>
     (\<forall>dir name entry i. path_parent P path = Some dir \<and> path_file_name P path = Some name
        \<and> entry \<in> set (directory_entries P dir d) \<and> rolled_index (display name @ ''.'') entry = Some i
        \<longrightarrow> i + 1 < 2 ^ 32)"

lemma io_check_ok: "no_faults d \<Longrightarrow> io_check d = (Inr (), d\<lparr>ops := Suc (ops d)\<rparr>)"
  by (simp add: io_check_def)

lemma highest_entry_ok:
  assumes "no_faults d"
  shows "\<exists>n h. highest_entry prefix entries m d = (Inr h, d\<lparr>ops := n\<rparr>)
    \<and> (h = m \<or> (\<exists>e \<in> set entries. rolled_index prefix e = Some h))
    \<and> m \<le> h \<and> (\<forall>e \<in> set entries. \<forall>i. rolled_index prefix e = Some i \<longrightarrow> i \<le> h)"
  using assms
proof (induction entries arbitrary: m d)
  case Nil
  then show ?case by (intro exI [of _ "ops d"] exI [of _ m]) (simp add: returns_def)
next
  case (Cons e entries)
  let ?m = "case rolled_index prefix e of None \<Rightarrow> m | Some i \<Rightarrow> max m i"
  from Cons.IH [of "d\<lparr>ops := Suc (ops d)\<rparr>" ?m] Cons.prems obtain n h where
    run: "highest_entry prefix entries ?m (d\<lparr>ops := Suc (ops d)\<rparr>) = (Inr h, d\<lparr>ops := n\<rparr>)"
    and h: "h = ?m \<or> (\<exists>e \<in> set entries. rolled_index prefix e = Some h)" "?m \<le> h"
      "\<forall>e \<in> set entries. \<forall>i. rolled_index prefix e = Some i \<longrightarrow> i \<le> h"
    by auto
  have "highest_entry prefix (e # entries) m d = (Inr h, d\<lparr>ops := n\<rparr>)"
    using run Cons.prems by (simp add: followed_by_def io_check_ok)
  with h show ?case
    by (intro exI [of _ n] exI [of _ h]) (auto split: option.splits simp: max_def split: if_splits)
qed

lemma map_filter_Some: "f x = Some y \<Longrightarrow> x \<in> set xs \<Longrightarrow> y \<in> set (List.map_filter f xs)"
  by (force simp: List.map_filter_def)

lemma rotation_limit_unlimited:
  assumes nf: "no_faults d" and syn: "rolled_names P path" and below: "archives_below P path d"
  shows "\<exists>limit n. rotation_limit P path 0 d = (Inr limit, d\<lparr>ops := n\<rparr>) \<and> 1 \<le> limit \<and> limit < 2 ^ 32
    \<and> (\<forall>i. limit \<le> i \<and> i < 2 ^ 32 \<longrightarrow> lookup d (rolled_path path i) = None)"
proof -
  from syn obtain dir name where path: "path_parent P path = Some dir" "path_file_name P path = Some name"
    "display name = name"
    and rolled: "\<And>i. path_parent P (rolled_path path i) = Some dir"
      "\<And>i. path_file_name P (rolled_path path i) = Some (name @ ''.'' @ show_nat i)"
      "\<And>i. display (name @ ''.'' @ show_nat i) = name @ ''.'' @ show_nat i"
    unfolding rolled_names_def by blast
  let ?entries = "directory_entries P dir d"
  let ?d = "d\<lparr>ops := Suc (ops d)\<rparr>"
  have "no_faults ?d" using nf by simp
  from highest_entry_ok [OF this, of "name @ ''.''" ?entries 0] obtain n h where
    run: "highest_entry (name @ ''.'') ?entries 0 ?d = (Inr h, d\<lparr>ops := n\<rparr>)"
    and h: "h = 0 \<or> (\<exists>e \<in> set ?entries. rolled_index (name @ ''.'') e = Some h)"
      "\<forall>e \<in> set ?entries. \<forall>i. rolled_index (name @ ''.'') e = Some i \<longrightarrow> i \<le> h"
    by auto
  have "h + 1 < 2 ^ 32"
    using h(1)
  proof
    assume "\<exists>e \<in> set ?entries. rolled_index (name @ ''.'') e = Some h"
    then show ?thesis using below path unfolding archives_below_def by auto
  qed simp
  have entries: "directory_entries P dir ?d = ?entries" by (simp add: directory_entries_def)
  have limit: "rotation_limit P path 0 d = (Inr (h + 1), d\<lparr>ops := n\<rparr>)"
    using run nf path \<open>h + 1 < 2 ^ 32\<close> entries
    by (simp add: rotation_limit_def highest_rolled_index_def followed_by_def io_check_ok reads_def returns_def)
  have "lookup d (rolled_path path i) = None" if "h + 1 \<le> i" "i < 2 ^ 32" for i
  proof (rule ccontr)
    assume "lookup d (rolled_path path i) \<noteq> None"
    then obtain j where "(rolled_path path i, j) \<in> set (names d)"
      by (auto simp: lookup_def dest: map_of_SomeD)
    then have "name @ ''.'' @ show_nat i \<in> set ?entries"
      unfolding directory_entries_def by (rule map_filter_Some [rotated]) (simp add: rolled)
    moreover have strip: "strip_prefix (name @ ''.'') (name @ ''.'' @ show_nat i) = Some (show_nat i)"
      by (simp add: strip_prefix_eq_Some)
    have "rolled_index (name @ ''.'') (name @ ''.'' @ show_nat i) = Some i"
      unfolding rolled_index_def rolled(3) strip option.case using that(2) by simp
    ultimately show False using h(2) that(1) by fastforce
  qed
  with limit \<open>h + 1 < 2 ^ 32\<close> show ?thesis by (intro exI [of _ "h + 1"] exI [of _ n]) simp
qed

lemma rotate_unlimited:
  assumes "no_faults d" and "rolled_names P path" and "archives_below P path d"
  shows "\<exists>d'. rotate_log P path 0 d = (Inr (), d') \<and> same_files d d'
    \<and> lookup d' path = None
    \<and> lookup d' (rolled_path path 1) = lookup d path
    \<and> (\<forall>i. 1 \<le> i \<and> Suc i < 2 ^ 32 \<longrightarrow> lookup d' (rolled_path path (Suc i)) = lookup d (rolled_path path i))
    \<and> (\<forall>q. q \<noteq> path \<and> q \<notin> rolled_path path ` {1..<2 ^ 32} \<longrightarrow> lookup d' q = lookup d q)
    \<and> lookup d (rolled_path path (2 ^ 32 - 1)) = None
    \<and> (\<forall>q i. lookup d' q = Some i \<longrightarrow> (\<exists>q'. lookup d q' = Some i))"
proof -
  from rotation_limit_unlimited [OF assms] obtain limit n where
    limit: "rotation_limit P path 0 d = (Inr limit, d\<lparr>ops := n\<rparr>)" "1 \<le> limit" "limit < 2 ^ 32"
    and free: "\<And>i. limit \<le> i \<Longrightarrow> i < 2 ^ 32 \<Longrightarrow> lookup d (rolled_path path i) = None" by blast
  have same: "same_files d (d\<lparr>ops := n\<rparr>)" by simp
  have free1: "lookup (d\<lparr>ops := n\<rparr>) (rolled_path path limit) = None" using free limit by simp
  have "display path = path" using assms(2) by (simp add: rolled_names_def)
  from rotate_after_limit [OF limit(1) same assms(1) free1 limit(2) this] obtain d' where
    run: "rotate_log P path 0 d = (Inr (), d')" "same_files d d'"
      "lookup d' path = None" "lookup d' (rolled_path path 1) = lookup d path"
    and shift: "\<And>i. 1 \<le> i \<Longrightarrow> i < limit \<Longrightarrow> lookup d' (rolled_path path (Suc i)) = lookup d (rolled_path path i)"
    and other: "\<And>q. q \<noteq> path \<Longrightarrow> q \<notin> rolled_path path ` {1..limit} \<Longrightarrow> lookup d' q = lookup d q"
    by auto
  have move: "lookup d' (rolled_path path (Suc i)) = lookup d (rolled_path path i)"
    if "1 \<le> i" "Suc i < 2 ^ 32" for i
  proof (cases "i < limit")
    case False
    then have "rolled_path path (Suc i) \<notin> rolled_path path ` {1..limit}" by auto
    with other [of "rolled_path path (Suc i)"] False that free [of i] free [of "Suc i"]
      rolled_not_path [OF \<open>display path = path\<close>] show ?thesis by simp
  qed (use shift that in blast)
  moreover have rest: "lookup d' q = lookup d q" if "q \<noteq> path" "q \<notin> rolled_path path ` {1..<2 ^ 32}" for q
    using that limit(3) by (intro other) auto
  moreover have "\<exists>q'. lookup d q' = Some i" if "lookup d' q = Some i" for q i
  proof (cases "q \<in> rolled_path path ` {1..<2 ^ 32}")
    case True
    then obtain k where k: "q = rolled_path path k" "1 \<le> k" "k < 2 ^ 32" by auto
    show ?thesis
    proof (cases "k = 1")
      case True
      with that k run(4) show ?thesis by auto
    next
      case False
      with k obtain j where "k = Suc j" "1 \<le> j" by (cases k) auto
      with that k move [of j] show ?thesis by auto
    qed
  next
    case False
    with that rest run(3) show ?thesis by (cases "q = path") auto
  qed
  moreover have "lookup d (rolled_path path (2 ^ 32 - 1)) = None"
    using free limit(3) by simp
  ultimately show ?thesis using run by blast
qed

subsection \<open>The history of the log\<close>

text \<open>
  The text of the whole log: the archives from the oldest to the newest, then the active
  file.
\<close>

definition contents :: "disk \<Rightarrow> string \<Rightarrow> bytes" where
  "contents d p = (case file_at d p of None \<Rightarrow> [] | Some bs \<Rightarrow> bs)"

definition archive_text :: "nat \<Rightarrow> disk \<Rightarrow> string \<Rightarrow> bytes" where
  "archive_text n d path = concat (map (\<lambda>i. contents d (rolled_path path i)) (rev [1..<n]))"

definition log_history :: "disk \<Rightarrow> string \<Rightarrow> bytes" where
  "log_history d path = archive_text (2 ^ 32) d path @ contents d path"

lemma archive_text_shifted:
  assumes "\<And>i. 1 \<le> i \<Longrightarrow> i \<le> N \<Longrightarrow>
      contents d' (rolled_path path (Suc i)) = contents d (rolled_path path i)"
    and "contents d (rolled_path path (Suc N)) = []"
  shows "archive_text (Suc (Suc N)) d' path = archive_text (Suc (Suc N)) d path
    @ contents d' (rolled_path path 1)"
proof -
  have "archive_text (Suc (Suc N)) d' path =
      concat (map (\<lambda>i. contents d' (rolled_path path i)) (rev (map Suc [1..<Suc N])))
        @ contents d' (rolled_path path 1)"
    by (simp add: archive_text_def upt_conv_Cons map_Suc_upt del: upt_Suc)
  also have "map (\<lambda>i. contents d' (rolled_path path i)) (rev (map Suc [1..<Suc N]))
      = map (\<lambda>i. contents d (rolled_path path i)) (rev [1..<Suc N])"
    using assms(1) by (simp add: rev_map del: upt_Suc)
  also have "concat (map (\<lambda>i. contents d (rolled_path path i)) (rev [1..<Suc N]))
      = archive_text (Suc (Suc N)) d path"
    using assms(2) by (simp add: archive_text_def)
  finally show ?thesis .
qed

lemma history_rotated:
  assumes "data d' = data d" and "lookup d' path = None" and "lookup d' (rolled_path path 1) = lookup d path"
    and shift: "\<And>i. 1 \<le> i \<Longrightarrow> Suc i < 2 ^ 32 \<Longrightarrow> lookup d' (rolled_path path (Suc i)) = lookup d (rolled_path path i)"
    and top: "lookup d (rolled_path path (2 ^ 32 - 1)) = None"
  shows "log_history d' path = log_history d path"
proof -
  obtain N where N: "(2 ^ 32 :: nat) = Suc (Suc N)" by (rule that [of "2 ^ 32 - 2"]) simp
  have "contents d (rolled_path path (Suc N)) = []"
    using top unfolding N by (simp add: contents_def file_at_def)
  moreover have "contents d' (rolled_path path (Suc i)) = contents d (rolled_path path i)"
    if "1 \<le> i" "i \<le> N" for i
    using shift [of i] that assms(1) unfolding N by (simp add: contents_def file_at_def)
  ultimately have "archive_text (2 ^ 32) d' path
      = archive_text (2 ^ 32) d path @ contents d' (rolled_path path 1)"
    unfolding N by (intro archive_text_shifted)
  moreover have "contents d' (rolled_path path 1) = contents d path" "contents d' path = []"
    using assms(1-3) by (simp_all add: contents_def file_at_def)
  ultimately show ?thesis by (simp only: log_history_def append_assoc append_Nil2)
qed

text \<open>The state between two writes.\<close>

definition log_ok :: "log_state \<Rightarrow> bool" where
  "log_ok s \<longleftrightarrow> (case s of (W, d) \<Rightarrow>
     no_faults d \<and> buffered W = [] \<and> lookup d (log_path W) = Some (handle W)
     \<and> (\<forall>q i. lookup d q = Some i \<longrightarrow> i < next_file d)
     \<and> (\<forall>q. lookup d q = Some (handle W) \<longrightarrow> q = log_path W))"

lemma contents_append:
  assumes "lookup d path = Some h" and "\<And>q. lookup d q = Some h \<Longrightarrow> q = path"
  shows "contents (d\<lparr>data := (data d)(h := data d h @ bs)\<rparr>) q =
    (if q = path then contents d path @ bs else contents d q)"
  using assms(1) by (cases "lookup d q") (auto simp: contents_def file_at_def dest: assms(2))

lemma archive_text_cong:
  "(\<And>i. contents d' (rolled_path path i) = contents d (rolled_path path i)) \<Longrightarrow>
    archive_text n d' path = archive_text n d path"
  by (simp add: archive_text_def)

lemma history_append:
  assumes "lookup d path = Some h" and "\<And>q. lookup d q = Some h \<Longrightarrow> q = path" and "display path = path"
  shows "log_history (d\<lparr>data := (data d)(h := data d h @ bs)\<rparr>) path = log_history d path @ bs"
proof -
  have eq: "contents (d\<lparr>data := (data d)(h := data d h @ bs)\<rparr>) q =
      (if q = path then contents d path @ bs else contents d q)" for q
    by (rule contents_append [OF assms(1)]) (rule assms(2))
  have "archive_text (2 ^ 32) (d\<lparr>data := (data d)(h := data d h @ bs)\<rparr>) path = archive_text (2 ^ 32) d path"
    by (rule archive_text_cong) (simp add: eq rolled_not_path [OF assms(3)])
  then show ?thesis by (simp only: log_history_def append_assoc eq simp_thms if_True)
qed

lemma contents_cong: "data d' = data d \<Longrightarrow> lookup d' = lookup d \<Longrightarrow> contents d' = contents d"
  by (rule ext) (simp add: contents_def file_at_def)

lemma history_cong: "data d' = data d \<Longrightarrow> lookup d' = lookup d \<Longrightarrow> log_history d' path = log_history d path"
  using contents_cong [of d' d] by (simp only: log_history_def archive_text_def)

lemma open_truncated_new:
  assumes "no_faults d" and "lookup d p = None"
  shows "open_truncated_shared p d = (Inr (next_file d),
    set_name p (next_file d) (d\<lparr>ops := Suc (ops d), data := (data d)(next_file d := []), next_file := Suc (next_file d)\<rparr>))"
  using assms by (simp add: open_truncated_shared_def)

lemma roll_over_ok:
  assumes ok: "log_ok (W, d)" and syn: "rolled_names P (log_path W)"
    and below: "archives_below P (log_path W) d" and unlimited: "max_files W = 0"
  shows "\<exists>h d'. roll_over P (W, d) = (Inr (), (W\<lparr>handle := h, buffered := [], current_size := 0\<rparr>, d'))
    \<and> log_ok (W\<lparr>handle := h, buffered := [], current_size := 0\<rparr>, d')
    \<and> contents d' (log_path W) = [] \<and> log_history d' (log_path W) = log_history d (log_path W)"
proof -
  let ?p = "log_path W"
  define d0 where "d0 = d\<lparr>ops := Suc (ops d), data := (data d)(handle W := data d (handle W))\<rparr>"
  have flush: "flush_writer (W, d) = (Inr (), (W, d0))"
    using ok by (simp add: flush_writer_def drain_buffer_def log_ok_def d0_def)
  have d0: "no_faults d0" "data d0 = data d" "lookup d0 = lookup d" "next_file d0 = next_file d"
    using ok by (simp_all add: d0_def log_ok_def fun_eq_iff)
  have "archives_below P ?p d0"
    using below by (simp add: archives_below_def directory_entries_def d0_def)
  from rotate_unlimited [OF d0(1) syn this] obtain d1 where
    rot: "rotate_log P ?p 0 d0 = (Inr (), d1)" "same_files d0 d1" "lookup d1 ?p = None"
      "lookup d1 (rolled_path ?p 1) = lookup d0 ?p"
    and shift: "\<forall>i. 1 \<le> i \<and> Suc i < 2 ^ 32 \<longrightarrow> lookup d1 (rolled_path ?p (Suc i)) = lookup d0 (rolled_path ?p i)"
    and top: "lookup d0 (rolled_path ?p (2 ^ 32 - 1)) = None"
    and from_old: "\<forall>q i. lookup d1 q = Some i \<longrightarrow> (\<exists>q'. lookup d0 q' = Some i)"
    by blast
  have d1: "no_faults d1" "data d1 = data d" "next_file d1 = next_file d"
    using rot(2) d0 by (simp_all add: same_files_def)
  have old: "i < next_file d" if "lookup d1 q = Some i" for q i
    using from_old that d0(3) ok by (auto simp: log_ok_def)
  define d2 where "d2 = set_name ?p (next_file d)
    (d1\<lparr>ops := Suc (ops d1), data := (data d1)(next_file d := []), next_file := Suc (next_file d)\<rparr>)"
  let ?W = "W\<lparr>handle := next_file d, buffered := [], current_size := 0\<rparr>"
  have "open_truncated_shared ?p d1 = (Inr (next_file d), d2)"
    using open_truncated_new [OF d1(1) rot(3)] d1(3) by (simp add: d2_def)
  then have run: "roll_over P (W, d) = (Inr (), (?W, d2))"
    using flush rot(1) unlimited
    by (simp add: roll_over_def followed_by_def reads_def on_snd_def modifies_def)
  have look2: "lookup d2 q = (if q = ?p then Some (next_file d) else lookup d1 q)" for q
    by (simp add: d2_def)
  have "next_file d2 = Suc (next_file d)" and "no_faults d2"
    using d1(1) by (simp_all add: d2_def) (simp add: set_name_def)
  then have "log_ok (?W, d2)"
    by (auto simp: log_ok_def look2 less_Suc_eq split: if_splits dest: old)
  moreover have same: "contents d2 q = (if q = ?p then [] else contents d1 q)" for q
  proof (cases "lookup d1 q")
    case (Some i)
    with old [OF Some] show ?thesis by (simp add: contents_def file_at_def look2) (simp add: d2_def)
  qed (simp add: contents_def file_at_def look2, simp add: d2_def)
  moreover have "log_history d2 ?p = log_history d1 ?p"
  proof -
    have "archive_text (2 ^ 32) d2 ?p = archive_text (2 ^ 32) d1 ?p"
      using syn by (intro archive_text_cong) (simp add: same rolled_names_def rolled_not_path)
    moreover have "contents d1 ?p = []" using rot(3) by (simp add: contents_def file_at_def)
    ultimately show ?thesis by (simp only: log_history_def same simp_thms if_True)
  qed
  moreover have "log_history d1 ?p = log_history d0 ?p"
    using d1(2) d0(2) rot(3,4) shift top by (intro history_rotated) auto
  moreover have "log_history d0 ?p = log_history d ?p"
    using d0 by (intro history_cong)
  ultimately show ?thesis using run by (intro exI [of _ "next_file d"] exI [of _ d2]) simp
qed

text \<open>A line that is written to the file: it is appended to the active file.\<close>

definition append_line :: "log_level \<Rightarrow> log_source \<Rightarrow> bytes \<Rightarrow> (log_state, error, unit) action" where
  "append_line level source msg =
     followed_by (reads fst) (\<lambda>W. followed_by log_clock_now (\<lambda>now.
       let rendered = render_bytes now (file_format W) level source msg;
           line_size = of_nat (min (length rendered + 2) (2 ^ 64 - 1))
       in followed_by (write_all rendered) (\<lambda>_.
          followed_by (write_all crlf) (\<lambda>_.
          followed_by flush_writer (\<lambda>_.
            modifies (\<lambda>(W, d). (W\<lparr>current_size := saturating_add (current_size W) line_size\<rparr>, d)))))))"

lemma append_line_ok:
  assumes "log_ok (W, d)" and "display (log_path W) = log_path W"
  shows "\<exists>d' now W'. append_line level source msg (W, d) = (Inr (), (W', d'))
    \<and> log_ok (W', d') \<and> log_path W' = log_path W
    \<and> current_size W' = saturating_add (current_size W)
        (of_nat (min (length (render_bytes now (file_format W) level source msg) + 2) (2 ^ 64 - 1)))
    \<and> contents d' (log_path W) = contents d (log_path W) @ render_bytes now (file_format W) level source msg @ crlf
    \<and> log_history d' (log_path W) = log_history d (log_path W) @ render_bytes now (file_format W) level source msg @ crlf"
proof -
  let ?p = "log_path W"
  let ?line = "render_bytes (clock d (ops d)) (file_format W) level source msg @ crlf"
  define d1 where "d1 = d\<lparr>ops := Suc (Suc (Suc (ops d)))\<rparr>"
  define d2 where "d2 = d1\<lparr>data := (data d1)(handle W := data d1 (handle W) @ ?line)\<rparr>"
  have nf: "no_faults d" and buf: "buffered W = []" and look: "lookup d1 ?p = Some (handle W)"
    and uniq: "\<And>q. lookup d1 q = Some (handle W) \<Longrightarrow> q = ?p"
    using assms(1) by (auto simp: log_ok_def d1_def)
  obtain W' where run: "append_line level source msg (W, d) = (Inr (), (W', d2))"
    and W': "buffered W' = []" "handle W' = handle W" "log_path W' = ?p"
    and size: "current_size W' = saturating_add (current_size W)
      (of_nat (min (length (render_bytes (clock d (ops d)) (file_format W) level source msg) + 2) (2 ^ 64 - 1)))"
    using nf buf
    by (simp add: append_line_def followed_by_def reads_def log_clock_now_def write_all_def
        buffer_bytes_def flush_writer_def drain_buffer_def modifies_def Let_def d2_def d1_def)
  have "lookup d2 = lookup d" by (simp add: d2_def d1_def fun_eq_iff)
  then have "log_ok (W', d2)"
    using assms(1) W' by (simp add: log_ok_def) (simp add: d2_def d1_def)
  moreover have "contents d2 ?p = contents d1 ?p @ ?line"
    unfolding d2_def using contents_append [OF look uniq, of ?line ?p] by simp
  moreover have "contents d1 ?p = contents d ?p"
    by (simp add: d1_def contents_def file_at_def)
  moreover have "log_history d2 ?p = log_history d1 ?p @ ?line"
    unfolding d2_def by (rule history_append [OF look uniq assms(2)])
  moreover have "log_history d1 ?p = log_history d ?p"
    by (rule history_cong) (simp_all add: d1_def fun_eq_iff)
  ultimately show ?thesis
    using run size W'(3) by (intro exI [of _ d2] exI [of _ "clock d (ops d)"] exI [of _ W']) simp
qed

lemma console_part_ok:
  assumes "log_ok (W, d)"
  shows "\<exists>d'. (if writes_console level W then
          followed_by log_clock_now (\<lambda>now.
          followed_by (on_snd (console_write (render_bytes now (console_format W) level source msg))) (\<lambda>_.
          followed_by (on_snd (console_write crlf)) (\<lambda>_.
            if console_flush W then on_snd io_check else returns ())))
        else returns ()) (W, d) = (Inr (), (W, d'))
    \<and> log_ok (W, d') \<and> names d' = names d \<and> data d' = data d"
  using assms
  by (auto simp: log_ok_def followed_by_def log_clock_now_def reads_def on_snd_def console_write_def
      io_check_ok returns_def)

text \<open>
  A write that reaches the file: it rolls over first if the active file is full, and then
  appends the line.
\<close>

lemma write_bytes_ok:
  assumes ok: "log_ok (W, d)" and syn: "rolled_names P (log_path W)"
    and below: "archives_below P (log_path W) d" and unlimited: "max_files W = 0"
    and "writes_file level W"
  obtains now and W1 :: log_writer and d1 :: disk and W' d' where
    "write_bytes P level source msg (W, d) = (Inr (), (W', d'))"
    "log_ok (W', d')" "log_path W' = log_path W"
    "log_history d' (log_path W) = log_history d (log_path W)
      @ render_bytes now (file_format W) level source msg @ crlf"
    "contents d' (log_path W) = contents d1 (log_path W) @ render_bytes now (file_format W) level source msg @ crlf"
    "current_size W' = saturating_add (current_size W1)
      (of_nat (min (length (render_bytes now (file_format W) level source msg) + 2) (2 ^ 64 - 1)))"
    "(0 < max_size W \<and> max_size W \<le> current_size W \<and> current_size W1 = 0 \<and> contents d1 (log_path W) = [])
      \<or> (\<not> (0 < max_size W \<and> max_size W \<le> current_size W)
         \<and> current_size W1 = current_size W \<and> contents d1 (log_path W) = contents d (log_path W))"
proof -
  let ?p = "log_path W"
  from syn have disp: "display ?p = ?p" by (simp add: rolled_names_def)
  from console_part_ok [OF ok, of level source msg] obtain d0 where
    cons: "(if writes_console level W then
          followed_by log_clock_now (\<lambda>now.
          followed_by (on_snd (console_write (render_bytes now (console_format W) level source msg))) (\<lambda>_.
          followed_by (on_snd (console_write crlf)) (\<lambda>_.
            if console_flush W then on_snd io_check else returns ())))
        else returns ()) (W, d) = (Inr (), (W, d0))"
    and ok0: "log_ok (W, d0)" and same: "names d0 = names d" "data d0 = data d" by blast
  have look: "lookup d0 = lookup d" using same by (simp add: lookup_def fun_eq_iff)
  have below0: "archives_below P ?p d0" using below same by (simp add: archives_below_def directory_entries_def)
  let ?full = "0 < max_size W \<and> max_size W \<le> current_size W"
  have "\<exists>W1 d1. (if ?full then roll_over P else returns ()) (W, d0) = (Inr (), (W1, d1)) \<and> log_ok (W1, d1)
    \<and> log_path W1 = ?p \<and> file_format W1 = file_format W
    \<and> log_history d1 ?p = log_history d0 ?p
    \<and> (?full \<and> current_size W1 = 0 \<and> contents d1 ?p = []
       \<or> \<not> ?full \<and> current_size W1 = current_size W \<and> contents d1 ?p = contents d0 ?p)"
  proof (cases ?full)
    case True
    from roll_over_ok [OF ok0 syn below0 unlimited] True show ?thesis by fastforce
  next
    case False
    with ok0 show ?thesis by (intro exI [of _ W] exI [of _ d0]) (auto simp: returns_def)
  qed
  then obtain W1 d1 where roll: "(if ?full then roll_over P else returns ()) (W, d0) = (Inr (), (W1, d1))"
    and ok1: "log_ok (W1, d1)" and W1: "log_path W1 = ?p" "file_format W1 = file_format W"
    and hist: "log_history d1 ?p = log_history d0 ?p"
    and which: "?full \<and> current_size W1 = 0 \<and> contents d1 ?p = []
       \<or> \<not> ?full \<and> current_size W1 = current_size W \<and> contents d1 ?p = contents d0 ?p" by blast
  from append_line_ok [OF ok1, of level source msg, unfolded W1, OF disp] obtain d' now W' where
    line: "append_line level source msg (W1, d1) = (Inr (), (W', d'))" "log_ok (W', d')" "log_path W' = ?p"
    and size: "current_size W' = saturating_add (current_size W1)
      (of_nat (min (length (render_bytes now (file_format W) level source msg) + 2) (2 ^ 64 - 1)))"
    and text': "contents d' ?p = contents d1 ?p @ render_bytes now (file_format W) level source msg @ crlf"
      "log_history d' ?p = log_history d1 ?p @ render_bytes now (file_format W) level source msg @ crlf"
    by blast
  have run: "write_bytes P level source msg (W, d) = (Inr (), (W', d'))"
    using cons roll line(1) \<open>writes_file level W\<close> W1
    by (simp add: write_bytes_def append_line_def followed_by_def reads_def)
  have hist0: "log_history d0 ?p = log_history d ?p" and cont0: "contents d0 = contents d"
    by (rule history_cong [OF same(2) look]) (rule contents_cong [OF same(2) look])
  show thesis
  proof (rule that [OF run line(2,3)])
    show "log_history d' ?p = log_history d ?p @ render_bytes now (file_format W) level source msg @ crlf"
      using text'(2) hist hist0 by simp
    show "contents d' ?p = contents d1 ?p @ render_bytes now (file_format W) level source msg @ crlf"
      by (rule text'(1))
    show "current_size W' = saturating_add (current_size W1)
      (of_nat (min (length (render_bytes now (file_format W) level source msg) + 2) (2 ^ 64 - 1)))"
      by (rule size)
    show "0 < max_size W \<and> max_size W \<le> current_size W \<and> current_size W1 = 0 \<and> contents d1 ?p = []
      \<or> \<not> (0 < max_size W \<and> max_size W \<le> current_size W)
         \<and> current_size W1 = current_size W \<and> contents d1 ?p = contents d ?p"
      using which cont0 by auto
  qed
qed

text \<open>
  C18. The log is append-only. With an unlimited number of archives, and when the file system
  works, a message at or above the threshold is written successfully, whether or not the
  write rolls the log over first, and the whole history (the archives from the oldest to the
  newest, then the active file) grows by exactly the rendered line and its line end.
\<close>

theorem log_history_append_only:
  assumes "log_ok (W, d)" and "rolled_names P (log_path W)" and "archives_below P (log_path W) d"
    and "max_files W = 0" and "writes_file level W"
  shows "\<exists>now W' d'. write_bytes P level source msg (W, d) = (Inr (), (W', d')) \<and> log_ok (W', d')
    \<and> log_history d' (log_path W) = log_history d (log_path W)
        @ render_bytes now (file_format W) level source msg @ crlf"
  using assms by (rule write_bytes_ok [of W d P level source msg]) blast


subsection \<open>Witnesses\<close>

text \<open>A log on the concrete platform, with one archive, that rolls over at the next write.\<close>

definition sample_log :: log_state where
  "sample_log =
     (\<lparr>log_path = ''/l'', handle = 0, buffered = [], current_size = 3, max_size = 2, max_files = 0,
       roll_on_jvm_restart = False, file_format = ''M'', threshold = Level_Info,
       console_enabled = False, console_format = ''PM'', console_threshold = Level_Info,
       console_flush = False\<rparr>,
      \<lparr>names = [(''/l'', 0), (''/l.1'', 1)], data = (\<lambda>i. [1, 2, 3]), next_file = 2, console = [],
       ops = 0, plan = (\<lambda>_. None),
       clock = (\<lambda>_. \<lparr>local_text = ''t'', local_millis = 7, elapsed_secs = 0\<rparr>)\<rparr>)"

definition sample_log_platform :: platform where
  "sample_log_platform = (simple_platform [] [])
     \<lparr>path_parent := \<lambda>p. Some ''/'', path_file_name := \<lambda>p. Some (drop 1 p)\<rparr>"

lemma sample_log_ok:
  "log_ok sample_log" "rolled_names sample_log_platform (log_path (fst sample_log))"
  "archives_below sample_log_platform (log_path (fst sample_log)) (snd sample_log)"
  "max_files (fst sample_log) = 0" "writes_file Level_Warn (fst sample_log)"
  "unat (current_size (fst sample_log)) = length (contents (snd sample_log) (log_path (fst sample_log)))"
  "0 < max_size (fst sample_log)"
proof -
  have l: "list_all is_ascii_char ''/l''" "list_all is_ascii_char ''l''" "list_all is_ascii_char ''.''"
    by code_simp+
  have dots: "display (''l.'' @ show_nat i) = ''l.'' @ show_nat i" for i
    using l show_nat_ascii [of i] by (intro display_ascii) simp
  have rolled: "rolled_path ''/l'' i = ''/l.'' @ show_nat i" for i
    using display_ascii [OF l(1)] by (simp add: rolled_path_def)
  show "log_ok sample_log"
    by (auto simp: log_ok_def sample_log_def no_faults_def lookup_def split: if_splits)
  show "rolled_names sample_log_platform (log_path (fst sample_log))"
    using l(1,2) [THEN display_ascii] dots
    by (simp add: rolled_names_def sample_log_def sample_log_platform_def rolled)
  have "directory_entries sample_log_platform ''/'' (snd sample_log) = [''l'', ''l.1'']"
    by (simp add: directory_entries_def sample_log_platform_def sample_log_def List.map_filter_def)
  moreover have "rolled_index ''l.'' ''l'' = None"
    using display_ascii [OF l(2)] by (simp add: rolled_index_def strip_prefix_def starts_with_def)
  moreover have "rolled_index ''l.'' ''l.1'' = Some 1"
  proof -
    have one: "''1'' = show_nat 1" by code_simp
    have "display ''l.1'' = ''l.1''" using dots [of 1] unfolding one [symmetric] by simp
    moreover have "strip_prefix ''l.'' ''l.1'' = Some (show_nat 1)"
      by (simp add: strip_prefix_def one)
    ultimately show ?thesis by (simp add: rolled_index_def)
  qed
  ultimately show "archives_below sample_log_platform (log_path (fst sample_log)) (snd sample_log)"
    using l(2) [THEN display_ascii]
    by (auto simp: archives_below_def sample_log_def sample_log_platform_def)
qed (simp_all add: sample_log_def writes_file_def less_eq_log_level_def contents_def file_at_def lookup_def)

theorem log_history_append_only_witness:
  "\<exists>now W' d'. write_bytes sample_log_platform Level_Warn From_Wrapper [65] (fst sample_log, snd sample_log)
      = (Inr (), (W', d'))
    \<and> log_history d' (log_path (fst sample_log)) = log_history (snd sample_log) (log_path (fst sample_log))
        @ render_bytes now (file_format (fst sample_log)) Level_Warn From_Wrapper [65] @ crlf"
  using log_history_append_only
    [of "fst sample_log" "snd sample_log" sample_log_platform Level_Warn From_Wrapper "[65]"]
    sample_log_ok(1-5) by auto


end
