(* ===== verification/Jvm.thy ===== *)
theory Jvm
  imports Config
begin

section \<open>The Java command: \<open>src/jvm.rs\<close>\<close>

text \<open>
  The resolution of the main class, the search of the class path for the bridge, the parser
  of configured argument fragments, \<open>JvmCommand::build\<close>, and the redacted command line.
\<close>

subsection \<open>Constants\<close>

definition bridge_package :: string where
  "bridge_package = ''io.github.jayyanez.jss.bridge''"

definition bundled_launchers :: "string list" where
  "bundled_launchers = [''SimpleApp'', ''StartStopApp'', ''JarApp'']"

definition bridge_marker_class :: string where
  "bridge_marker_class = ''io/github/jayyanez/jss/bridge/SimpleApp.class''"

definition jar_scan_limit :: nat where
  "jar_scan_limit = 4 * 1024 * 1024"

definition missing_bridge_message :: string where
  "missing_bridge_message =
     ''wrapper.java.classpath does not contain the bundled Java Service Steward bridge (wrapper.jar). ''
     @ ''Only the bundled wrapper.jar is supported; deploy it at the path named by wrapper.java.classpath.''"

definition product_version :: string where
  "product_version = ''0.3.2''"

subsection \<open>The class path\<close>

definition replace_char :: "char \<Rightarrow> string \<Rightarrow> string \<Rightarrow> string" where
  "replace_char c r s = concat (map (\<lambda>x. if x = c then r else [x]) s)"

definition is_jar :: "platform \<Rightarrow> string \<Rightarrow> bool" where
  "is_jar P path =
     (case path_extension P path of None \<Rightarrow> False | Some e \<Rightarrow> eq_ignore_ascii_case e ''jar'')"

definition jar_contains_entry :: "platform \<Rightarrow> string \<Rightarrow> string \<Rightarrow> bool" where
  "jar_contains_entry P path relative =
     (case read_file P path of
       Inl _ \<Rightarrow> False
     | Inr bs \<Rightarrow> contains_sub (as_bytes relative) (drop (length bs - jar_scan_limit) bs))"

definition directory_jars_contain_entry :: "platform \<Rightarrow> string \<Rightarrow> string \<Rightarrow> bool" where
  "directory_jars_contain_entry P directory relative =
     (case read_dir P directory of
       Inl _ \<Rightarrow> False
     | Inr paths \<Rightarrow> list_ex (\<lambda>p. is_jar P p \<and> jar_contains_entry P p relative) paths)"

definition entry_contains :: "platform \<Rightarrow> string \<Rightarrow> string \<Rightarrow> bool" where
  "entry_contains P relative entry =
     (if path_file_name P entry = Some ''*'' then
        (case path_parent P entry of
          None \<Rightarrow> False
        | Some directory \<Rightarrow> directory_jars_contain_entry P directory relative)
      else if is_dir P entry then is_file P (path_join P entry relative)
      else is_jar P entry \<and> jar_contains_entry P entry relative)"

definition classpath_contains_entry :: "platform \<Rightarrow> string list \<Rightarrow> string \<Rightarrow> bool" where
  "classpath_contains_entry P entries relative = list_ex (entry_contains P relative) entries"

definition classpath_contains_bridge :: "platform \<Rightarrow> string list \<Rightarrow> bool" where
  "classpath_contains_bridge P entries = classpath_contains_entry P entries bridge_marker_class"

definition classpath_contains_class :: "platform \<Rightarrow> string list \<Rightarrow> string \<Rightarrow> bool" where
  "classpath_contains_class P entries class_name =
     classpath_contains_entry P entries (replace_char CHR ''.'' ''/'' class_name @ ''.class'')"

subsection \<open>The main class\<close>

datatype main_class = Bundled string "string option" | Direct string

definition launched :: "main_class \<Rightarrow> string" where
  "launched m =
     (case m of Bundled launcher _ \<Rightarrow> bridge_package @ ''.'' @ launcher | Direct name \<Rightarrow> name)"

definition requires_bridge :: "main_class \<Rightarrow> bool" where
  "requires_bridge m = (case m of Bundled _ _ \<Rightarrow> True | Direct _ \<Rightarrow> False)"

definition explicit_launcher :: "string \<Rightarrow> string option" where
  "explicit_launcher configured =
     (case strip_prefix bridge_package configured of
       None \<Rightarrow> None
     | Some rest \<Rightarrow>
         (case strip_prefix ''.'' rest of
           None \<Rightarrow> None
         | Some simple_name \<Rightarrow> find (\<lambda>launcher. launcher = simple_name) bundled_launchers))"

text \<open>The part after the last dot.\<close>

definition simple_class_name :: "string \<Rightarrow> string" where
  "simple_class_name s = rev (takeWhile (\<lambda>c. c \<noteq> CHR ''.'') (rev s))"

definition resolve_main_class :: "platform \<Rightarrow> string \<Rightarrow> string list \<Rightarrow> main_class" where
  "resolve_main_class P configured classpath =
     (case explicit_launcher configured of
       Some launcher \<Rightarrow> Bundled launcher None
     | None \<Rightarrow>
         (case find (\<lambda>launcher. ends_with launcher (simple_class_name configured)) bundled_launchers of
           Some launcher \<Rightarrow>
             if \<not> classpath_contains_class P classpath configured
             then Bundled launcher (Some configured) else Direct configured
         | None \<Rightarrow> Direct configured))"

subsection \<open>Argument fragments\<close>

lemma tl_dropWhile_length: "length (tl (dropWhile Q cs)) \<le> length cs"
  by (rule order_trans [OF _ length_dropWhile_le [of Q cs]]) simp

text \<open>
  One argument: the text left, the argument so far, whether a quote is open, and whether
  anything but backslashes was seen.
\<close>

function fragment_token :: "string \<Rightarrow> string \<Rightarrow> bool \<Rightarrow> bool \<Rightarrow> string \<times> bool \<times> string" where
  "fragment_token [] argument quoted saw_token = (argument, saw_token, [])"
| "fragment_token (c # cs) argument quoted saw_token =
     (if \<not> quoted \<and> ws_len (c # cs) \<noteq> 0 then (argument, saw_token, c # cs)
      else if c = CHR 0x5C then
        (let slash_count = Suc (length (takeWhile (\<lambda>c. c = CHR 0x5C) cs));
             rest = dropWhile (\<lambda>c. c = CHR 0x5C) cs
         in if rest \<noteq> [] \<and> hd rest = CHR 0x22 then
              (if slash_count mod 2 = 0 then
                 fragment_token (tl rest) (argument @ replicate (slash_count div 2) CHR 0x5C) (\<not> quoted) True
               else
                 fragment_token (tl rest)
                   (argument @ replicate (slash_count div 2) CHR 0x5C @ [CHR 0x22]) quoted True)
            else fragment_token rest (argument @ replicate slash_count CHR 0x5C) quoted saw_token)
      else if c = CHR 0x22 then fragment_token cs argument (\<not> quoted) True
      else fragment_token cs (argument @ [c]) quoted True)"
  by pat_completeness auto
termination
  by (relation "measure (\<lambda>(s, a, q, t). length s)")
    (auto simp only: in_measure split_conv list.size less_Suc_eq_le Let_def add_0_right add_Suc_right
      length_dropWhile_le tl_dropWhile_length order_refl)

declare fragment_token.simps [simp del]

text \<open>The three ways an argument goes on.\<close>

lemma fragment_token_step:
  assumes "quoted \<or> ws_len (c # cs) = 0"
  shows "\<exists>s a q t. fragment_token (c # cs) argument quoted saw = fragment_token s a q t
    \<and> length s \<le> length cs"
proof -
  have *: "\<exists>s a q t. fragment_token X A Q T = fragment_token s a q t \<and> length s \<le> length cs"
    if "length X \<le> length cs" for X A Q T
    using that by blast
  from assms have "(\<not> quoted \<and> ws_len (c # cs) \<noteq> 0) = False" by auto
  then show ?thesis
    unfolding fragment_token.simps(2) Let_def
    by (simp only: if_False split: if_split)
      (intro conjI impI * tl_dropWhile_length length_dropWhile_le order_refl)
qed

lemma fragment_token_rest: "length (snd (snd (fragment_token s a q t))) \<le> length s"
proof (induction s arbitrary: a q t rule: length_induct)
  case (1 s)
  show ?case
  proof (cases s)
    case (Cons c cs)
    show ?thesis
    proof (cases "q \<or> ws_len (c # cs) = 0")
      case True
      then obtain s' a' q' t' where "fragment_token (c # cs) a q t = fragment_token s' a' q' t'"
        "length s' \<le> length cs" using fragment_token_step by blast
      with 1 Cons show ?thesis by (metis le_SucI le_imp_less_Suc length_Cons order_trans)
    next
      case False
      with Cons show ?thesis by (simp add: fragment_token.simps(2))
    qed
  qed (simp add: fragment_token.simps)
qed

lemma fragment_token_consumes:
  assumes "s \<noteq> []" and "ws_len s = 0"
  shows "length (snd (snd (fragment_token s a q t))) < length s"
proof -
  from assms(1) obtain c cs where s: "s = c # cs" by (cases s) auto
  with assms(2) obtain s' a' q' t' where "fragment_token s a q t = fragment_token s' a' q' t'"
    "length s' \<le> length cs"
    by (metis fragment_token_step)
  then show ?thesis using fragment_token_rest [of s' a' q' t'] s by simp
qed

lemma length_trim_start: "length (trim_start s) \<le> length s"
  using trim_start_suffix [of s] by (metis le_add2 length_append)

function parse_legacy_windows_fragment :: "string \<Rightarrow> string list" where
  "parse_legacy_windows_fragment fragment =
     (let s = trim_start fragment in
      if s = [] then []
      else case fragment_token s [] False False of
        (argument, saw_token, rest) \<Rightarrow>
          (if saw_token then [argument] else []) @ parse_legacy_windows_fragment rest)"
  by pat_completeness auto
termination
proof (relation "measure length", goal_cases)
  case (2 fragment s p y saw rest)
  then have "rest = snd (snd (fragment_token s [] False False))" by (metis snd_conv)
  with 2 fragment_token_consumes [of s "[]" False False] length_trim_start [of fragment]
  show ?case by simp
qed simp

declare parse_legacy_windows_fragment.simps [simp del]

subsection \<open>The command\<close>

record backend_launch =
  key :: string
  backend_port :: u16
  jvm_port :: "u16 option"
  jvm_port_min :: u16
  jvm_port_max :: u16
  jvm_id :: u32
  service :: bool

record jvm_command =
  program :: string
  arguments :: "string list"
  working_directory :: string
  command_environment :: "(string \<times> string) list"
  launch_note :: "string option"

definition resolve_java_command :: "platform \<Rightarrow> config \<Rightarrow> string \<Rightarrow> string" where
  "resolve_java_command P c configured =
     (let path = remove_grouping_quotes (trim configured) in
      if is_absolute P path \<or> (case path_parent P path of None \<Rightarrow> True | Some parent \<Rightarrow> parent = [])
      then path else resolve_path P c path)"

definition resolved_paths :: "platform \<Rightarrow> config \<Rightarrow> string \<Rightarrow> string list" where
  "resolved_paths P c prefix =
     List.map_filter
       (\<lambda>(_, v). let value = remove_grouping_quotes (trim v)
                 in if value = [] then None else Some (resolve_path P c value))
       (numbered c prefix)"

fun join_with :: "string \<Rightarrow> string list \<Rightarrow> string" where
  "join_with separator [] = []"
| "join_with separator [s] = s"
| "join_with separator (s # t # ss) = s @ separator @ join_with separator (t # ss)"

definition joined_paths :: "platform \<Rightarrow> string list \<Rightarrow> string" where
  "joined_paths P paths = join_with (if windows P then '';'' else '':'') (map display paths)"

definition copy_boolean_property :: "config \<Rightarrow> string \<Rightarrow> string list" where
  "copy_boolean_property c name = (if get_bool c name False then [''-D'' @ name @ ''=TRUE''] else [])"

definition memory_arguments :: "config \<Rightarrow> string list" where
  "memory_arguments c =
     (let init_memory = get_u64 c ''wrapper.java.initmemory'' 0;
          max_memory = get_u64 c ''wrapper.java.maxmemory'' 0
      in (if 0 < init_memory then [''-Xms'' @ show_nat (unat (max init_memory 1)) @ ''m''] else [])
         @ (if 0 < max_memory
            then [''-Xmx'' @ show_nat (unat (max max_memory (max init_memory 1))) @ ''m''] else []))"

definition path_arguments :: "platform \<Rightarrow> config \<Rightarrow> string list" where
  "path_arguments P c =
     (let library_path = joined_paths P (resolved_paths P c ''wrapper.java.library.path'');
          classpath = joined_paths P (resolved_paths P c ''wrapper.java.classpath'')
      in (if library_path \<noteq> [] then [''-Djava.library.path='' @ library_path] else [])
         @ (if classpath \<noteq> [] then [''-classpath'', classpath] else []))"

definition key_argument :: "backend_launch \<Rightarrow> string" where
  "key_argument b = ''-Dwrapper.key='' @ key b"

definition backend_arguments :: "platform \<Rightarrow> config \<Rightarrow> backend_launch \<Rightarrow> string list" where
  "backend_arguments P c b =
     [''-Dwrapper.port='' @ show_nat (unat (backend_port b))]
     @ (case jvm_port b of None \<Rightarrow> [] | Some p \<Rightarrow> [''-Dwrapper.jvm.port='' @ show_nat (unat p)])
     @ [''-Dwrapper.jvm.port.min='' @ show_nat (unat (jvm_port_min b)),
        ''-Dwrapper.jvm.port.max='' @ show_nat (unat (jvm_port_max b))]
     @ (if get_bool c ''wrapper.debug'' False then [''-Dwrapper.debug=TRUE''] else [])
     @ copy_boolean_property c ''wrapper.disable_console_input''
     @ copy_boolean_property c ''wrapper.listener.force_stop''
     @ [''-Dwrapper.pid='' @ show_nat (unat (process_id P))]
     @ (if get_bool c ''wrapper.use_system_time'' False then [''-Dwrapper.use_system_time=TRUE''] else [])
     @ (if service b then [''-Dwrapper.service=TRUE''] else [])
     @ copy_boolean_property c ''wrapper.disable_shutdown_hook''
     @ [''-Dwrapper.jvmid='' @ show_nat (unat (jvm_id b)), ''-Djss.version='' @ product_version]"

definition configured_main :: "config \<Rightarrow> string" where
  "configured_main c = trim (remove_grouping_quotes (get_or c ''wrapper.java.mainclass'' ''Main''))"

definition fragments :: "config \<Rightarrow> string \<Rightarrow> string list" where
  "fragments c prefix = concat (map (\<lambda>(_, v). parse_legacy_windows_fragment v) (numbered c prefix))"

definition build :: "platform \<Rightarrow> config \<Rightarrow> backend_launch \<Rightarrow> string list \<Rightarrow> error + jvm_command" where
  "build P c b app_args =
     bind_result (required c ''wrapper.java.command'') (\<lambda>java.
       let classpath_entries = resolved_paths P c ''wrapper.java.classpath'';
           main_class = resolve_main_class P (configured_main c) classpath_entries;
           launched_main = launched main_class
       in if requires_bridge main_class \<and> \<not> classpath_contains_bridge P classpath_entries
          then Inl (Error_Config missing_bridge_message)
          else Inr
            \<lparr>program = resolve_java_command P c java,
             arguments = fragments c ''wrapper.java.additional'' @ memory_arguments c @ path_arguments P c
               @ [key_argument b] @ backend_arguments P c b
               @ [launched_main] @ fragments c ''wrapper.app.parameter'' @ app_args,
             working_directory = (case get c ''wrapper.working.dir'' of
               None \<Rightarrow> executable_directory c | Some path \<Rightarrow> resolve_path P c path),
             command_environment = environment c,
             launch_note = (case main_class of
               Bundled _ (Some configured) \<Rightarrow>
                 Some (''Main class '' @ configured @ '' is not on the classpath; launching the bundled ''
                   @ launched_main @ '' instead.'')
             | _ \<Rightarrow> None)\<rparr>)"

subsection \<open>Redaction\<close>

definition redacted_summary :: "jvm_command \<Rightarrow> string" where
  "redacted_summary cmd =
     display (program cmd) @ '' ('' @ show_nat (length (arguments cmd))
     @ '' arguments; working directory '' @ display (working_directory cmd) @ '')''"

definition redact_command_argument :: "string \<Rightarrow> string" where
  "redact_command_argument argument =
     (let property = (case strip_prefix ''-D'' argument of None \<Rightarrow> argument | Some p \<Rightarrow> p) in
      case split_once CHR ''='' property of
        None \<Rightarrow> argument
      | Some (name, _) \<Rightarrow>
          if is_sensitive_name name then
            take (length argument - length property) argument @ name @ ''=<redacted>''
          else argument)"

definition has_whitespace :: "string \<Rightarrow> bool" where
  "has_whitespace s \<longleftrightarrow> list_ex (\<lambda>i. ws_len (drop i s) \<noteq> 0) [0..<length s]"

definition quote_for_display :: "string \<Rightarrow> string" where
  "quote_for_display argument =
     (if argument = [] \<or> has_whitespace argument then
        [CHR 0x22] @ replace_char CHR 0x22 [CHR 0x5C, CHR 0x22] argument @ [CHR 0x22]
      else argument)"

definition redacted_command_line :: "jvm_command \<Rightarrow> string" where
  "redacted_command_line cmd =
     join_with '' ''
       (map quote_for_display
         (display (program cmd) # map (\<lambda>a. redact_command_argument (display a)) (arguments cmd)))"

end
