(* ===== verification/Jvm_Properties.thy ===== *)
theory Jvm_Properties
  imports Jvm Config_Sample
begin

section \<open>Correctness of the Java command\<close>

text \<open>
  The argument parser inverts Windows quoting; the command that is built ends in the main
  class, the configured parameters and the application's arguments; a bundled launcher is
  only used with the bridge on the class path; and what is logged does not depend on the
  one-time key.
\<close>

subsection \<open>Quoting and parsing\<close>

text \<open>
  How an argument is written on a Windows command line: in quotes, where backslashes before
  a quote are doubled, and a quote is preceded by one more. The number counts the
  backslashes not yet written.
\<close>

fun escape_argument :: "nat \<Rightarrow> string \<Rightarrow> string" where
  "escape_argument n [] = replicate (2 * n) CHR 0x5C"
| "escape_argument n (c # cs) =
     (if c = CHR 0x5C then escape_argument (Suc n) cs
      else if c = CHR 0x22 then replicate (Suc (2 * n)) CHR 0x5C @ CHR 0x22 # escape_argument 0 cs
      else replicate n CHR 0x5C @ c # escape_argument 0 cs)"

definition quote_argument :: "string \<Rightarrow> string" where
  "quote_argument a = CHR 0x22 # escape_argument 0 a @ [CHR 0x22]"

lemma slash_run:
  assumes "r = [] \<or> hd r \<noteq> CHR 0x5C"
  shows "takeWhile (\<lambda>c. c = CHR 0x5C) (replicate m CHR 0x5C @ r) = replicate m CHR 0x5C"
    and "dropWhile (\<lambda>c. c = CHR 0x5C) (replicate m CHR 0x5C @ r) = r"
  using assms by (induction m) (auto, (cases r; simp)+)

lemma token_run:
  assumes "r = [] \<or> hd r \<noteq> CHR 0x5C"
  shows "fragment_token (replicate (Suc m) CHR 0x5C @ r) a True t =
    (if r \<noteq> [] \<and> hd r = CHR 0x22 then
       (if Suc m mod 2 = 0 then fragment_token (tl r) (a @ replicate (Suc m div 2) CHR 0x5C) False True
        else fragment_token (tl r) (a @ replicate (Suc m div 2) CHR 0x5C @ [CHR 0x22]) True True)
     else fragment_token r (a @ replicate (Suc m) CHR 0x5C) True t)"
  unfolding replicate_Suc append_Cons fragment_token.simps(2) Let_def slash_run [OF assms]
  by (simp only: simp_thms if_False if_True length_replicate replicate_Suc)

lemma token_slashes_plain:
  assumes "r = [] \<or> hd r \<noteq> CHR 0x5C \<and> hd r \<noteq> CHR 0x22"
  shows "fragment_token (replicate n CHR 0x5C @ r) a True t = fragment_token r (a @ replicate n CHR 0x5C) True t"
proof (cases n)
  case (Suc m)
  have "r = [] \<or> hd r \<noteq> CHR 0x5C" "\<not> (r \<noteq> [] \<and> hd r = CHR 0x22)" using assms by auto
  then show ?thesis unfolding Suc by (simp only: token_run if_False)
qed simp

lemma token_slashes_quote:
  "fragment_token (replicate n CHR 0x5C @ CHR 0x22 # r) a True t =
     (if even n then fragment_token r (a @ replicate (n div 2) CHR 0x5C) False True
      else fragment_token r (a @ replicate (n div 2) CHR 0x5C @ [CHR 0x22]) True True)"
proof (cases n)
  case (Suc m)
  have "CHR 0x22 # r = [] \<or> hd (CHR 0x22 # r) \<noteq> CHR 0x5C" by simp
  from token_run [OF this, of m a t] show ?thesis
    unfolding Suc by (simp only: even_iff_mod_2_eq_zero list.sel list.distinct simp_thms if_True)
qed (simp add: fragment_token.simps(2))

lemma token_escaped:
  "fragment_token (escape_argument n x @ CHR 0x22 # r) a True t =
     fragment_token r (a @ replicate n CHR 0x5C @ x) False True"
proof (induction x arbitrary: n a t)
  case Nil
  then show ?case using token_slashes_quote [of "2 * n"] by simp
next
  case (Cons c x)
  consider (slash) "c = CHR 0x5C" | (quote) "c = CHR 0x22" | (plain) "c \<noteq> CHR 0x5C" "c \<noteq> CHR 0x22"
    by blast
  then show ?case
  proof cases
    case slash
    with Cons [of "Suc n"] show ?thesis by (simp add: replicate_app_Cons_same)
  next
    case quote
    with Cons [of 0] show ?thesis
      using token_slashes_quote [of "Suc (2 * n)"] by (simp del: replicate_Suc)
  next
    case plain
    with Cons [of 0] token_slashes_plain [of "c # escape_argument 0 x @ CHR 0x22 # r" n a t]
    show ?thesis by (simp add: fragment_token.simps(2) [of c])
  qed
qed

lemma quote_not_space: "ws_len (CHR 0x22 # s) = 0"
  by (rule ws_len_ascii) (simp_all add: is_ascii_char_def ascii_space_def)

lemma blank_is_space: "ws_len (CHR 0x20 # s) = 1"
  by (simp add: ws_len_def white_space_def)

lemma parse_quoted:
  assumes "r = [] \<or> hd r = CHR 0x20"
  shows "parse_legacy_windows_fragment (quote_argument x @ r) = x # parse_legacy_windows_fragment r"
proof -
  have "fragment_token (quote_argument x @ r) [] False False =
      fragment_token (escape_argument 0 x @ CHR 0x22 # r) [] True True"
    by (simp add: quote_argument_def fragment_token.simps(2) quote_not_space)
  also have "\<dots> = fragment_token r x False True"
    using token_escaped [of 0 x r "[]" True] by simp
  also have "\<dots> = (x, True, r)"
    using assms by (cases r) (auto simp: fragment_token.simps blank_is_space)
  finally have token: "fragment_token (quote_argument x @ r) [] False False = (x, True, r)" .
  have "trim_start (quote_argument x @ r) = quote_argument x @ r"
    by (rule trim_start_id) (simp add: quote_argument_def quote_not_space)
  with token show ?thesis
    by (subst parse_legacy_windows_fragment.simps) (simp add: quote_argument_def)
qed

lemma parse_blank: "parse_legacy_windows_fragment (CHR 0x20 # s) = parse_legacy_windows_fragment s"
proof -
  have "trim_start (CHR 0x20 # s) = trim_start s"
    by (simp add: trim_start.simps [of "CHR 0x20 # s"] blank_is_space)
  then show ?thesis
    by (simp add: parse_legacy_windows_fragment.simps [of s]
        parse_legacy_windows_fragment.simps [of "CHR 0x20 # s"])
qed

text \<open>
  C35. The fragment parser inverts Windows quoting: any arguments at all (with blanks,
  quotes, backslashes, or empty), quoted and separated by blanks, are parsed back to exactly
  these arguments.
\<close>

theorem fragment_roundtrip:
  "parse_legacy_windows_fragment (join_with '' '' (map quote_argument xs)) = xs"
proof (induction xs rule: induct_list012)
  case 1
  then show ?case
    by (simp add: parse_legacy_windows_fragment.simps trim_start_id ws_len_Nil)
next
  case (2 x)
  then show ?case
    using parse_quoted [of "[]" x]
    by (simp add: parse_legacy_windows_fragment.simps [of "[]"] trim_start_id ws_len_Nil)
next
  case (3 x y xs)
  then show ?case
    using parse_quoted [of "CHR 0x20 # join_with '' '' (map quote_argument (y # xs))" x]
    by (simp add: parse_blank)
qed

text \<open>
  An argument of nothing but backslashes is dropped, because only other characters count as
  the beginning of an argument; on a Windows command line it stands for itself.
\<close>

lemma slash_not_space: "ws_len (CHR 0x5C # s) = 0"
  by (rule ws_len_ascii) (simp_all add: is_ascii_char_def ascii_space_def)

text \<open>
  A fragment of backslashes only yields no argument at all, although Windows quoting
  reads it as one argument.
\<close>

lemma backslashes_dropped: "parse_legacy_windows_fragment (replicate n CHR 0x5C) = []"
proof (cases n)
  case 0
  then show ?thesis by (simp add: parse_legacy_windows_fragment.simps trim_start_id)
next
  case (Suc m)
  have "fragment_token (replicate (Suc m) CHR 0x5C) [] False False = (replicate (Suc m) CHR 0x5C, False, [])"
    using slash_run [of "[]" m]
    by (simp add: fragment_token.simps slash_not_space)
  moreover have "trim_start (replicate (Suc m) CHR 0x5C) = replicate (Suc m) CHR 0x5C"
    by (rule trim_start_id) (simp add: slash_not_space)
  ultimately show ?thesis unfolding Suc
    by (subst parse_legacy_windows_fragment.simps)
      (simp add: parse_legacy_windows_fragment.simps [of "[]"] trim_start_id del: replicate_Suc)
qed

subsection \<open>The main class\<close>

text \<open>
  The resolution of the main class: it is launched as configured unless it is a bundled
  launcher or looks like one and is missing from the class path; a substitution always
  records the configured name, and a class that the class path contains is never
  substituted.
\<close>

lemma resolve_main_class_cases:
  "(launched (resolve_main_class P name cp) = name \<and> resolve_main_class P name cp \<in> {Direct name}
      \<union> {Bundled l None | l. l \<in> set bundled_launchers \<and> name = bridge_package @ ''.'' @ l})
   \<or> (\<exists>l. l \<in> set bundled_launchers \<and> resolve_main_class P name cp = Bundled l (Some name)
        \<and> ends_with l (simple_class_name name) \<and> \<not> classpath_contains_class P cp name)"
proof (cases "explicit_launcher name")
  case (Some l)
  then have "name = bridge_package @ ''.'' @ l" "l \<in> set bundled_launchers"
    by (auto simp: explicit_launcher_def strip_prefix_eq_Some find_Some_iff split: option.splits
        dest!: nth_mem)
  then show ?thesis using Some by (simp add: resolve_main_class_def launched_def)
next
  case None
  show ?thesis
  proof (cases "find (\<lambda>l. ends_with l (simple_class_name name)) bundled_launchers")
    case (Some l)
    then have "l \<in> set bundled_launchers" "ends_with l (simple_class_name name)"
      by (metis find_Some_iff nth_mem)+
    then show ?thesis using None Some by (auto simp: resolve_main_class_def launched_def)
  qed (use None in \<open>simp add: resolve_main_class_def launched_def\<close>)
qed

subsection \<open>The command\<close>

lemma build_cases:
  assumes "build P c b apps = Inr cmd"
  obtains m where "m = resolve_main_class P (configured_main c) (resolved_paths P c ''wrapper.java.classpath'')"
    "requires_bridge m \<longrightarrow> classpath_contains_bridge P (resolved_paths P c ''wrapper.java.classpath'')"
    "arguments cmd = fragments c ''wrapper.java.additional'' @ memory_arguments c @ path_arguments P c
       @ [key_argument b] @ backend_arguments P c b
       @ [launched m] @ fragments c ''wrapper.app.parameter'' @ apps"
    "command_environment cmd = environment c"
    "\<exists>java. required c ''wrapper.java.command'' = Inr java \<and> program cmd = resolve_java_command P c java"
  using assms by (auto simp: build_def Let_def bind_result_eq_Inr split: if_splits)


definition java_config :: config where
  "java_config = \<lparr>root_path = ''w'', executable_directory = ''/d'',
     properties = [(''wrapper.java.command'', ''java''), (''wrapper.java.mainclass'', ''app.Server'')],
     environment = [(''A'', ''1'')], warnings = []\<rparr>"

definition sample_backend :: backend_launch where
  "sample_backend = \<lparr>key = ''s3cret'', backend_port = 32000, jvm_port = None, jvm_port_min = 31000,
     jvm_port_max = 31999, jvm_id = 1, service = False\<rparr>"

lemma required_java: "required java_config ''wrapper.java.command'' = Inr ''java''"
  by code_simp

lemma main_java: "configured_main java_config = ''app.Server''"
  by code_simp

lemma main_direct: "resolve_main_class P ''app.Server'' cp = Direct ''app.Server''"
proof -
  have "explicit_launcher ''app.Server'' = None"
    and "find (\<lambda>l. ends_with l (simple_class_name ''app.Server'')) bundled_launchers = None"
    by code_simp+
  then show ?thesis by (simp add: resolve_main_class_def)
qed

lemma java_build: "\<exists>cmd. build P java_config b apps = Inr cmd"
  by (simp add: build_def required_java main_java main_direct requires_bridge_def Let_def)


subsection \<open>Redaction\<close>

lemma redact_key: "redact_command_argument (display (key_argument b)) = ''-Dwrapper.key=<redacted>''"
proof -
  have ascii: "list_all is_ascii_char ''-Dwrapper.key=''" and sens: "is_sensitive_name ''wrapper.key''"
    by code_simp+
  from ascii have "display (key_argument b) = ''-Dwrapper.key='' @ display (key b)"
    unfolding key_argument_def by (rule display_ascii_append)
  moreover have "split_once CHR ''='' (''wrapper.key='' @ t) = Some (''wrapper.key'', t)" for t
    using split_once_append [of "CHR ''=''" "''wrapper.key''" t] by simp
  ultimately show ?thesis
    using sens by (simp add: redact_command_argument_def strip_prefix_def Let_def)
qed

text \<open>
  C33. What is logged of the command does not reveal the one-time key: two launches that
  differ only in their keys have the same redacted command line.
\<close>

theorem redacted_line_hides_key:
  assumes "build P c b apps = Inr cmd" and "build P c (b\<lparr>key := k\<rparr>) apps = Inr cmd'"
  shows "redacted_command_line cmd' = redacted_command_line cmd"
proof -
  have same: "backend_arguments P c (b\<lparr>key := k\<rparr>) = backend_arguments P c b"
    by (simp add: backend_arguments_def)
  from assms show ?thesis
    by (elim build_cases) (auto simp: redacted_command_line_def redact_key same)
qed

theorem redacted_line_hides_key_witness:
  "\<exists>cmd cmd'. build sample_platform java_config sample_backend [] = Inr cmd
    \<and> build sample_platform java_config (sample_backend\<lparr>key := ''other''\<rparr>) [] = Inr cmd'
    \<and> redacted_command_line cmd' = redacted_command_line cmd"
  using java_build [of sample_platform sample_backend "[]"] java_build [of sample_platform "sample_backend\<lparr>key := ''other''\<rparr>" "[]"]
    redacted_line_hides_key [of sample_platform java_config sample_backend "[]" _ "''other''"] by blast

end
