(* ===== verification/World.thy ===== *)
theory World
  imports Log_Files Protocol Telemetry Jvm
begin

section \<open>Running in a world that answers\<close>

text \<open>
  The supervisor's code runs against a world: clocks, the child process, sockets, channels
  and the console answer its calls. The answers are a parameter, a record of functions from
  the number of the call: every call of the code advances the number, so a theorem for all
  records holds for every behaviour of the world, in every interleaving. The world's state
  holds what the code leaves in it: the log, the packets on the wire, the published events,
  the number of the child process, its exit status once it has ended, and the job objects
  that are open.

  A computation returns a value, an error or a panic with the state it leaves, or it does
  not return (\<open>None\<close>).
\<close>

subsection \<open>What the world answers\<close>

datatype 'a recv = Received 'a | Recv_Timeout | Recv_Closed

datatype control =
    Control_Stop | Control_ConsoleInterrupt | Control_ConsoleBreak | Control_Pause
  | Control_Resume | Control_ThreadDump | Control_HeapDump | Control_User u32

datatype selected =
    Select_Output "bytes option"
  | Select_Control "control option"
  | Select_Protocol "receive_event option"
  | Select_Tick

record poll_input =
  poll_accepts :: "accept_result list"
  poll_now :: nat
  poll_answers :: "nat \<Rightarrow> read_result"
  poll_setup :: "io_error option \<times> io_error option"

datatype heap_completion = Heap_Created string u64 | Heap_Failed string string

datatype heap_poll = Heap_Pending | Heap_Complete heap_completion

record answers =
  a_now :: "nat \<Rightarrow> nat"
  a_try_wait :: "nat \<Rightarrow> io_error + int option option"
  a_kill :: "nat \<Rightarrow> io_error option"
  a_wait :: "nat \<Rightarrow> io_error + int option"
  a_write :: "nat \<Rightarrow> io_error option"
  a_output :: "nat \<Rightarrow> bytes recv"
  a_batch :: "nat \<Rightarrow> bytes list"
  a_control :: "nat \<Rightarrow> control recv"
  a_select :: "nat \<Rightarrow> selected"
  a_poll :: "nat \<Rightarrow> poll_input"
  a_break :: "nat \<Rightarrow> io_error option"
  a_spawn :: "nat \<Rightarrow> io_error + u32"
  a_create_job :: "nat \<Rightarrow> io_error option"
  a_limit_job :: "nat \<Rightarrow> io_error option"
  a_assign_job :: "nat \<Rightarrow> io_error option"
  a_bind :: "nat \<Rightarrow> u16 \<Rightarrow> io_error option"
  a_random :: "nat \<Rightarrow> string + bytes"
  a_console_window :: "nat \<Rightarrow> bool"
  a_alloc_console :: "nat \<Rightarrow> (int option \<times> io_error) option"
  a_set_title :: "nat \<Rightarrow> io_error option"
  a_jcmd_spawn :: "nat \<Rightarrow> io_error option"
  a_jcmd_output :: "nat \<Rightarrow> bytes recv"
  a_jcmd_try_wait :: "nat \<Rightarrow> io_error + int option option"
  a_heap_poll :: "nat \<Rightarrow> heap_completion recv"
  a_dump_spawn :: "nat \<Rightarrow> io_error option"
  a_dump_file :: "nat \<Rightarrow> bytes option"
  a_dump_wait :: "nat \<Rightarrow> io_error + int option option"
  a_dump_output :: "nat \<Rightarrow> (bytes \<times> bytes) option"
  a_timestamp :: "nat \<Rightarrow> string"
  a_create_dir :: "nat \<Rightarrow> io_error option"
  a_thread :: "nat \<Rightarrow> io_error option"
  a_status_text :: "int option \<Rightarrow> string"

subsection \<open>The state of the world\<close>

record job =
  job_kills :: bool
  job_members :: "u32 list"

record world =
  steps :: nat
  logs :: log_state
  wire :: "(u8 \<times> string) list"
  published :: "event_kind list"
  child_pid :: "u32 option"
  child_status :: "int option option"
  jobs :: "nat \<Rightarrow> job option"

subsection \<open>Computations\<close>

type_synonym ('w, 'a) io = "'w \<Rightarrow> ((fault + 'a) \<times> 'w) option"

definition ret :: "'a \<Rightarrow> ('w, 'a) io" where
  "ret x w = Some (Inr x, w)"

definition raise :: "fault \<Rightarrow> ('w, 'a) io" where
  "raise e w = Some (Inl e, w)"

definition and_then :: "('w, 'a) io \<Rightarrow> ('a \<Rightarrow> ('w, 'b) io) \<Rightarrow> ('w, 'b) io" where
  "and_then m f w =
     (case m w of
       None \<Rightarrow> None
     | Some (Inl e, w') \<Rightarrow> Some (Inl e, w')
     | Some (Inr x, w') \<Rightarrow> f x w')"

definition peek :: "('w \<Rightarrow> 'a) \<Rightarrow> ('w, 'a) io" where
  "peek g w = Some (Inr (g w), w)"

definition update :: "('w \<Rightarrow> 'w) \<Rightarrow> ('w, unit) io" where
  "update g w = Some (Inr (), g w)"

definition from_result :: "fault + 'a \<Rightarrow> ('w, 'a) io" where
  "from_result r w = Some (r, w)"

text \<open>A \<open>match\<close> on a result: errors are values there, panics are not caught.\<close>

definition attempt :: "('w, 'a) io \<Rightarrow> ('w, error + 'a) io" where
  "attempt m w =
     (case m w of
       None \<Rightarrow> None
     | Some (Inl (Failed e), w') \<Rightarrow> Some (Inr (Inl e), w')
     | Some (Inl Panicked, w') \<Rightarrow> Some (Inl Panicked, w')
     | Some (Inr x, w') \<Rightarrow> Some (Inr (Inr x), w'))"

primrec for_all :: "('a \<Rightarrow> ('w, unit) io) \<Rightarrow> 'a list \<Rightarrow> ('w, unit) io" where
  "for_all f [] = ret ()"
| "for_all f (x # xs) = and_then (f x) (\<lambda>_. for_all f xs)"

text \<open>A \<open>for\<close> loop that returns early with the first outcome its body has.\<close>

primrec first_outcome :: "('a \<Rightarrow> ('w, 'b option) io) \<Rightarrow> 'a list \<Rightarrow> ('w, 'b option) io" where
  "first_outcome f [] = ret None"
| "first_outcome f (x # xs) =
     and_then (f x) (\<lambda>r. case r of Some y \<Rightarrow> ret (Some y) | None \<Rightarrow> first_outcome f xs)"

text \<open>
  What \<open>Drop\<close> does when a scope is left by a value or an error: \<open>clean\<close> runs last and its own
  result is ignored. A panic aborts the process (\<open>panic = "abort"\<close> in the release profile of
  \<open>Cargo.toml\<close>), so nothing is dropped.
\<close>

definition finally_do :: "('w, 'a) io \<Rightarrow> ('w, unit) io \<Rightarrow> ('w, 'a) io" where
  "finally_do m clean w =
     (case m w of
       None \<Rightarrow> None
     | Some (r, w') \<Rightarrow>
         if r = Inl Panicked then Some (r, w')
         else (case clean w' of None \<Rightarrow> None | Some (_, w'') \<Rightarrow> Some (r, w'')))"

text \<open>A loop whose body says whether it is done; it may go on forever.\<close>

partial_function (option) loop :: "('w, 'a option) io \<Rightarrow> ('w, 'a) io" where
  "loop body w =
     (case body w of
       None \<Rightarrow> None
     | Some (r, w') \<Rightarrow>
         (case r of
           Inl e \<Rightarrow> Some (Inl e, w')
         | Inr next \<Rightarrow> (case next of None \<Rightarrow> loop body w' | Some x \<Rightarrow> Some (Inr x, w'))))"

text \<open>A loop with a local variable runs on pairs.\<close>

definition on_world :: "('w, 'a) io \<Rightarrow> ('v \<times> 'w, 'a) io" where
  "on_world m vw =
     (case m (snd vw) of None \<Rightarrow> None | Some (r, w') \<Rightarrow> Some (r, (fst vw, w')))"

definition with_local :: "'v \<Rightarrow> ('v \<times> 'w, 'a) io \<Rightarrow> ('w, 'a) io" where
  "with_local v m w = (case m (v, w) of None \<Rightarrow> None | Some (r, vw) \<Rightarrow> Some (r, snd vw))"

text \<open>Asking the world.\<close>

definition ask :: "(nat \<Rightarrow> 'a) \<Rightarrow> ('z world_scheme, 'a) io" where
  "ask f w = Some (Inr (f (steps w)), w\<lparr>steps := Suc (steps w)\<rparr>)"

definition ask_ok :: "(nat \<Rightarrow> io_error option) \<Rightarrow> ('z world_scheme, unit) io" where
  "ask_ok f = and_then (ask f) (\<lambda>r. case r of None \<Rightarrow> ret () | Some e \<Rightarrow> raise (Failed (Error_Io e)))"

definition ask_result :: "(nat \<Rightarrow> io_error + 'a) \<Rightarrow> ('z world_scheme, 'a) io" where
  "ask_result f =
     and_then (ask f) (\<lambda>r. case r of Inl e \<Rightarrow> raise (Failed (Error_Io e)) | Inr x \<Rightarrow> ret x)"

definition log_action :: "(log_state, error, 'a) action \<Rightarrow> ('z world_scheme, 'a) io" where
  "log_action m w =
     (case m (logs w) of (r, l) \<Rightarrow> Some (map_error Failed r, w\<lparr>logs := l\<rparr>))"

definition say :: "platform \<Rightarrow> log_level \<Rightarrow> log_source \<Rightarrow> string \<Rightarrow> ('z world_scheme, unit) io" where
  "say P level source m = log_action (write_log P level source m)"

definition emit :: "event_kind \<Rightarrow> ('z world_scheme, unit) io" where
  "emit k = update (\<lambda>w. w\<lparr>published := published w @ [k]\<rparr>)"

text \<open>Durations in nanoseconds; the sum of two of them panics beyond the clock's range.\<close>

definition from_secs :: "u64 \<Rightarrow> nat" where
  "from_secs s = unat s * 1000000000"

definition from_millis :: "nat \<Rightarrow> nat" where
  "from_millis n = n * 1000000"

definition plus_time :: "nat \<Rightarrow> nat \<Rightarrow> ('w, nat) io" where
  "plus_time t d = from_result (instant_add t d)"

subsection \<open>The child process\<close>

text \<open>Once the exit of the child has been seen its status is remembered.\<close>

definition try_wait :: "answers \<Rightarrow> ('z world_scheme, int option option) io" where
  "try_wait A =
     and_then (peek child_status) (\<lambda>known.
       case known of
         Some status \<Rightarrow> ret (Some status)
       | None \<Rightarrow>
           and_then (ask_result (a_try_wait A)) (\<lambda>r.
             case r of
               None \<Rightarrow> ret None
             | Some status \<Rightarrow>
                 and_then (update (\<lambda>w. w\<lparr>child_status := Some status\<rparr>)) (\<lambda>_. ret (Some status))))"

definition wait_child :: "answers \<Rightarrow> ('z world_scheme, int option) io" where
  "wait_child A =
     and_then (peek child_status) (\<lambda>known.
       case known of
         Some status \<Rightarrow> ret status
       | None \<Rightarrow>
           and_then (ask_result (a_wait A)) (\<lambda>status.
             and_then (update (\<lambda>w. w\<lparr>child_status := Some status\<rparr>)) (\<lambda>_. ret status)))"

definition terminate_child :: "answers \<Rightarrow> ('z world_scheme, unit) io" where
  "terminate_child A =
     and_then (try_wait A) (\<lambda>r.
     and_then (if r = None then ask_ok (a_kill A) else ret ()) (\<lambda>_.
     and_then (wait_child A) (\<lambda>_. ret ())))"

subsection \<open>Reasoning about computations\<close>

lemma ret_run [simp]: "ret x w = Some (Inr x, w)"
  by (simp add: ret_def)

lemma raise_run [simp]: "raise e w = Some (Inl e, w)"
  by (simp add: raise_def)

lemma peek_run [simp]: "peek g w = Some (Inr (g w), w)"
  by (simp add: peek_def)

lemma update_run [simp]: "update g w = Some (Inr (), g w)"
  by (simp add: update_def)

lemma from_result_run [simp]: "from_result r w = Some (r, w)"
  by (simp add: from_result_def)

lemma ask_run [simp]: "ask f w = Some (Inr (f (steps w)), w\<lparr>steps := Suc (steps w)\<rparr>)"
  by (simp add: ask_def)

lemma and_then_run: "m w = Some (Inr x, w') \<Longrightarrow> and_then m f w = f x w'"
  by (simp add: and_then_def)

lemma and_then_eq_Inr:
  "and_then m f w = Some (Inr y, w') \<longleftrightarrow> (\<exists>x v. m w = Some (Inr x, v) \<and> f x v = Some (Inr y, w'))"
  by (auto simp: and_then_def split: option.splits sum.splits)

lemma and_then_eq_Some:
  "and_then m f w = Some (r, w') \<longleftrightarrow>
     (\<exists>e. m w = Some (Inl e, w') \<and> r = Inl e) \<or> (\<exists>x v. m w = Some (Inr x, v) \<and> f x v = Some (r, w'))"
  by (auto simp: and_then_def split: option.splits sum.splits)

lemma and_then_ret [simp]: "and_then (ret x) f = f x"
  by (rule ext) (simp add: and_then_def)

lemma and_then_raise [simp]: "and_then (raise e) f = raise e"
  by (rule ext) (simp add: and_then_def)

lemma finally_do_eq:
  "finally_do m clean w = Some (r, w') \<longleftrightarrow>
     (if r = Inl Panicked then m w = Some (r, w')
      else \<exists>v x. m w = Some (r, v) \<and> clean v = Some (x, w'))"
  by (auto simp: finally_do_def split: option.splits if_splits)

lemma loop_induct [consumes 1, case_names stop finish again]:
  assumes "loop body w = Some (r, w')"
    and "\<And>w e w'. body w = Some (Inl e, w') \<Longrightarrow> P w (Inl e) w'"
    and "\<And>w x w'. body w = Some (Inr (Some x), w') \<Longrightarrow> P w (Inr x) w'"
    and "\<And>w v r w'. body w = Some (Inr None, v) \<Longrightarrow> P v r w' \<Longrightarrow> P w r w'"
  shows "P w r w'"
proof -
  have "b = body \<longrightarrow> P w (fst y) (snd y)" if "loop b w = Some y" for b w y
    using _ that
  proof (rule loop.raw_induct)
    fix l b w y
    assume "\<And>b w y. l b w = Some y \<Longrightarrow> b = body \<longrightarrow> P w (fst y) (snd y)"
      and "(case b w of None \<Rightarrow> None
        | Some (r, w') \<Rightarrow> (case r of Inl e \<Rightarrow> Some (Inl e, w')
            | Inr next \<Rightarrow> (case next of None \<Rightarrow> l b w' | Some x \<Rightarrow> Some (Inr x, w')))) = Some y"
    then show "b = body \<longrightarrow> P w (fst y) (snd y)"
      using assms(2-4) by (fastforce split: option.splits sum.splits prod.splits)
  qed
  from this [OF assms(1)] show ?thesis by simp
qed

text \<open>
  A computation maintains a relation between the states before and after it; the relation is
  reflexive and transitive.
\<close>

definition maintains :: "('w \<Rightarrow> 'w \<Rightarrow> bool) \<Rightarrow> ('w, 'a) io \<Rightarrow> bool" where
  "maintains R m \<longleftrightarrow> (\<forall>w r w'. m w = Some (r, w') \<longrightarrow> R w w')"

lemma maintainsD: "maintains R m \<Longrightarrow> m w = Some (r, w') \<Longrightarrow> R w w'"
  by (simp add: maintains_def)

locale frame =
  fixes R :: "'w \<Rightarrow> 'w \<Rightarrow> bool"
  assumes refl: "R w w"
    and trans: "R u v \<Longrightarrow> R v w \<Longrightarrow> R u w"
begin

lemma ret_frame [intro!]: "maintains R (ret x)"
  and raise_frame [intro!]: "maintains R (raise e)"
  and peek_frame [intro!]: "maintains R (peek g)"
  and from_result_frame [intro!]: "maintains R (from_result r)"
  by (simp_all add: maintains_def refl)

lemma and_then_frame [intro]:
  "maintains R m \<Longrightarrow> (\<And>x. maintains R (f x)) \<Longrightarrow> maintains R (and_then m f)"
  unfolding maintains_def and_then_eq_Some by (metis trans)

lemma attempt_frame [intro]: "maintains R m \<Longrightarrow> maintains R (attempt m)"
  by (auto simp: maintains_def attempt_def split: option.splits sum.splits fault.splits)

lemma for_all_frame [intro]: "(\<And>x. maintains R (f x)) \<Longrightarrow> maintains R (for_all f xs)"
  by (induction xs) auto

lemma first_outcome_frame [intro]: "(\<And>x. maintains R (f x)) \<Longrightarrow> maintains R (first_outcome f xs)"
  by (induction xs) (auto split: option.splits intro!: and_then_frame)

lemma finally_do_frame [intro]:
  "maintains R m \<Longrightarrow> maintains R clean \<Longrightarrow> maintains R (finally_do m clean)"
  unfolding maintains_def finally_do_eq by (metis trans)

lemma plus_time_frame [intro!]: "maintains R (plus_time t d)"
  by (auto simp: plus_time_def)

lemma loop_frame [intro]:
  assumes "maintains R body"
  shows "maintains R (loop body)"
proof -
  have "R w w'" if "loop body w = Some (r, w')" for w r w'
    using that by (induction rule: loop_induct) (use assms in \<open>auto dest: maintainsD intro: trans\<close>)
  then show ?thesis by (simp add: maintains_def)
qed

end

text \<open>
  A loop returns if its body always does, in the states the loop can reach, and each further
  round decreases a measure.
\<close>

lemma loop_returns:
  assumes "I w"
    and "\<And>w. I w \<Longrightarrow> \<exists>r w'. body w = Some (r, w') \<and> (r = Inr None \<longrightarrow> I w' \<and> m w' < (m w :: nat))"
  shows "\<exists>r w'. loop body w = Some (r, w')"
  using assms(1)
proof (induction w rule: measure_induct_rule [of m])
  case (less w)
  from assms(2) [OF less.prems] obtain r w' where run: "body w = Some (r, w')"
    and again: "r = Inr None \<longrightarrow> I w' \<and> m w' < m w" by blast
  show ?case
  proof (cases "r = Inr None")
    case True
    with again less.IH [of w'] obtain r' v where "loop body w' = Some (r', v)" by blast
    with run True show ?thesis by (simp add: loop.simps [of body w])
  next
    case False
    with run show ?thesis
      by (cases r) (auto simp: loop.simps [of body w] split: option.splits)
  qed
qed

end
