(* ===== verification/Windows_Process.thy ===== *)
theory Windows_Process
  imports World
begin

section \<open>Process primitives of Windows: \<open>src/windows_process.rs\<close>\<close>

text \<open>
  Job objects as kernel objects with their handles, the service console, console signals to
  the JVM, and the console title. A call of the Windows API answers with nothing or with the
  last error. The module has a second implementation for other platforms, which refuses what
  Windows alone provides; \<open>windows\<close> of the platform chooses.
\<close>

subsection \<open>Job objects\<close>

text \<open>
  The handle of a new job object is the number of the call, which no open handle has. When the
  last handle of a job with the limit \<open>KILL_ON_JOB_CLOSE\<close> is closed, the kernel ends its
  processes.
\<close>

definition create_job :: "answers \<Rightarrow> ('z world_scheme, nat) io" where
  "create_job A =
     and_then (ask_ok (a_create_job A)) (\<lambda>_.
     and_then (peek steps) (\<lambda>h.
     and_then (update (\<lambda>w. w\<lparr>jobs := (jobs w)(h \<mapsto> \<lparr>job_kills = False, job_members = []\<rparr>)\<rparr>)) (\<lambda>_. ret h)))"

definition ends_child :: "job \<Rightarrow> 'z world_scheme \<Rightarrow> bool" where
  "ends_child j w \<longleftrightarrow>
     job_kills j \<and> (case child_pid w of None \<Rightarrow> False | Some p \<Rightarrow> p \<in> set (job_members j)) \<and> child_status w = None"

text \<open>\<open>Drop\<close> of \<open>JobObject\<close>; the exit status of a process that ends this way is not asked for.\<close>

definition close_handle :: "nat \<Rightarrow> 'z world_scheme \<Rightarrow> 'z world_scheme" where
  "close_handle h w =
     (case jobs w h of
       None \<Rightarrow> w
     | Some j \<Rightarrow>
         (if ends_child j w then w\<lparr>child_status := Some None, jobs := (jobs w)(h := None)\<rparr>
          else w\<lparr>jobs := (jobs w)(h := None)\<rparr>))"

definition job_update :: "nat \<Rightarrow> (job \<Rightarrow> job) \<Rightarrow> ('z world_scheme, unit) io" where
  "job_update h g = update (\<lambda>w. w\<lparr>jobs := (jobs w)(h := map_option g (jobs w h))\<rparr>)"

text \<open>What runs while a value owns the handle: an error drops the value.\<close>

definition or_close :: "nat \<Rightarrow> ('z world_scheme, 'a) io \<Rightarrow> ('z world_scheme, 'a) io" where
  "or_close h m w =
     (case m w of
       Some (Inl e, w') \<Rightarrow> Some (Inl e, close_handle h w')
     | outcome \<Rightarrow> outcome)"

definition kill_on_close :: "platform \<Rightarrow> answers \<Rightarrow> ('z world_scheme, nat) io" where
  "kill_on_close P A =
     (if windows P then
        and_then (create_job A) (\<lambda>h.
        or_close h
          (and_then (ask_ok (a_limit_job A)) (\<lambda>_.
           and_then (job_update h (\<lambda>j. j\<lparr>job_kills := True\<rparr>)) (\<lambda>_. ret h))))
      else raise (Failed (Error_UnsupportedPlatform ''job objects'')))"

definition assign :: "platform \<Rightarrow> answers \<Rightarrow> nat \<Rightarrow> u32 \<Rightarrow> ('z world_scheme, unit) io" where
  "assign P A h pid =
     (if windows P then
        and_then (ask_ok (a_assign_job A)) (\<lambda>_.
          job_update h (\<lambda>j. j\<lparr>job_members := pid # job_members j\<rparr>))
      else ret ())"

text \<open>\<open>kill_on_close().and_then(|job| job.assign(child).map(|()| job))\<close>.\<close>

definition new_job :: "platform \<Rightarrow> answers \<Rightarrow> u32 \<Rightarrow> ('z world_scheme, nat) io" where
  "new_job P A pid =
     and_then (kill_on_close P A) (\<lambda>h. or_close h (and_then (assign P A h pid) (\<lambda>_. ret h)))"

text \<open>
  A scope that owns a job object: however it is left the handle is closed, also by a panic,
  since the kernel closes the handles of a process that ends.
\<close>

definition holding_job :: "nat option \<Rightarrow> ('z world_scheme, 'a) io \<Rightarrow> ('z world_scheme, 'a) io" where
  "holding_job job m w =
     (case m w of
       None \<Rightarrow> None
     | Some (r, w') \<Rightarrow> Some (r, case job of None \<Rightarrow> w' | Some h \<Rightarrow> close_handle h w'))"

subsection \<open>The console\<close>

definition error_access_denied :: int where
  "error_access_denied = 5"

definition prepare_service_console :: "platform \<Rightarrow> answers \<Rightarrow> bool \<Rightarrow> ('z world_scheme, unit) io" where
  "prepare_service_console P A enabled =
     (if \<not> windows P \<or> \<not> enabled then ret ()
      else
        and_then (ask (a_console_window A)) (\<lambda>present.
          if present then ret ()
          else
            and_then (ask (a_alloc_console A)) (\<lambda>fault.
              case fault of
                Some (os_code, e) \<Rightarrow>
                  if os_code \<noteq> Some error_access_denied then raise (Failed (Error_Io e)) else ret ()
              | None \<Rightarrow> and_then (ask (a_console_window A)) (\<lambda>_. ret ()))))"

text \<open>A break event for the process group of the JVM.\<close>

definition send_console_break :: "platform \<Rightarrow> answers \<Rightarrow> ('z world_scheme, unit) io" where
  "send_console_break P A =
     (if windows P then ask_ok (a_break A)
      else raise (Failed (Error_UnsupportedPlatform ''CTRL_BREAK thread dumps'')))"

definition set_console_title :: "platform \<Rightarrow> answers \<Rightarrow> ('z world_scheme, unit) io" where
  "set_console_title P A = (if windows P then ask_ok (a_set_title A) else ret ())"

subsection \<open>What the primitives keep\<close>

lemma close_handle_jobs [simp]: "jobs (close_handle h w) = (jobs w)(h := None)"
  by (auto simp: close_handle_def fun_eq_iff split: option.splits)

lemma close_handle_keeps [simp]:
  "steps (close_handle h w) = steps w" "logs (close_handle h w) = logs w" "wire (close_handle h w) = wire w"
  "published (close_handle h w) = published w" "child_pid (close_handle h w) = child_pid w"
  by (auto simp: close_handle_def split: option.splits)

lemma close_handle_status: "child_status w \<noteq> None \<Longrightarrow> child_status (close_handle h w) = child_status w"
  by (auto simp: close_handle_def ends_child_def split: option.splits)

lemma close_handle_ends: "jobs w h = Some j \<Longrightarrow> ends_child j w \<Longrightarrow> child_status (close_handle h w) \<noteq> None"
  by (simp add: close_handle_def)

lemma holding_job_eq:
  "holding_job job m w = Some (r, w') \<longleftrightarrow>
     (\<exists>v. m w = Some (r, v) \<and> w' = (case job of None \<Rightarrow> v | Some h \<Rightarrow> close_handle h v))"
  by (auto simp: holding_job_def split: option.splits)

lemma holding_job_frame:
  assumes "\<And>w h. R w (close_handle h w)" and "\<And>u v w. R u v \<Longrightarrow> R v w \<Longrightarrow> R u w" and "maintains R m"
  shows "maintains R (holding_job job m)"
  using assms(1) assms(2) assms(3) unfolding maintains_def holding_job_eq
  by (cases job) (simp, simp, blast)

text \<open>Creating a job, successfully or not, leaves at most that job behind.\<close>

lemma new_job_cases:
  assumes "new_job P A pid w = Some (r, w')" and "jobs w (Suc (steps w)) = None"
  shows "(\<exists>e. r = Inl (Failed e) \<and> jobs w' = jobs w)
    \<or> (r = Inr (Suc (steps w)) \<and> windows P
        \<and> jobs w' = (jobs w)(Suc (steps w) \<mapsto> \<lparr>job_kills = True, job_members = [pid]\<rparr>))"
proof -
  have restored: "(jobs w)(Suc (steps w) := None) = jobs w" using assms(2) by auto
  show ?thesis
    using assms(1) restored
    by (auto simp: new_job_def kill_on_close_def create_job_def or_close_def assign_def job_update_def
      ask_ok_def and_then_def split: option.splits if_splits)
qed

lemma new_job_keeps:
  assumes "new_job P A pid w = Some (r, w')"
  shows "child_pid w' = child_pid w \<and> child_status w' = child_status w \<and> logs w' = logs w \<and> steps w \<le> steps w'"
  using assms
  by (auto simp: new_job_def kill_on_close_def create_job_def or_close_def assign_def job_update_def
    close_handle_def ends_child_def ask_ok_def and_then_def split: option.splits if_splits)

end
