(* ===== verification/Diagnostics.thy ===== *)
theory Diagnostics
  imports Windows_Process
begin

section \<open>Diagnostics: \<open>src/diagnostics.rs\<close> and \<open>src/thread_dump.rs\<close>\<close>

text \<open>
  The search for the diagnostic tool, the choice of the thread-dump method, and the capture of
  a thread dump with its time limit and its reader.
\<close>

subsection \<open>The diagnostic tool\<close>

definition attach_disabled :: string where
  "attach_disabled = ''-XX:+DisableAttachMechanism''"

definition attach_enabled :: string where
  "attach_enabled = ''-XX:-DisableAttachMechanism''"

definition with_file_name :: "platform \<Rightarrow> string \<Rightarrow> string \<Rightarrow> string" where
  "with_file_name P path name =
     (if path_file_name P path = None then path_join P path name
      else path_join P (case path_parent P path of None \<Rightarrow> [] | Some dir \<Rightarrow> dir) name)"

definition jcmd_executable :: "platform \<Rightarrow> string" where
  "jcmd_executable P = (if windows P then ''jcmd.exe'' else ''jcmd'')"

definition jcmd_candidate :: "platform \<Rightarrow> string \<Rightarrow> string \<Rightarrow> string" where
  "jcmd_candidate P working_dir directory =
     (if directory = [] then path_join P working_dir (jcmd_executable P)
      else if is_absolute P directory then path_join P directory (jcmd_executable P)
      else path_join P (path_join P working_dir directory) (jcmd_executable P))"

definition jcmd :: "platform \<Rightarrow> string \<Rightarrow> (string \<times> string) list \<Rightarrow> string \<Rightarrow> error + string" where
  "jcmd P java_program env working_dir =
     (let executable = jcmd_executable P in
      if 1 < path_component_count P java_program then
        (let candidate = with_file_name P java_program executable in
         if is_file P candidate then Inr candidate
         else Inl (Error_DiagnosticUnavailable
           (executable @ '' was not found next to the configured Java runtime: '' @ display java_program
            @ ''; core service supervision remains available, but JCMD thread dumps and ''
            @ ''on-demand heap dumps require the matching JDK diagnostic tool'')))
      else
        (let path = map_option snd
               (find (\<lambda>(name, _). eq_ignore_ascii_case (display name) ''PATH'') (rev env));
             candidates = (case path of None \<Rightarrow> [] | Some p \<Rightarrow> map (jcmd_candidate P working_dir) (split_paths P p))
         in case find (is_file P) candidates of
              Some candidate \<Rightarrow> Inr candidate
            | None \<Rightarrow> Inl (Error_DiagnosticUnavailable
                (executable @ '' was not found in the PATH used by the configured Java runtime; ''
                 @ ''core service supervision remains available, but JCMD thread dumps and ''
                 @ ''on-demand heap dumps require the matching JDK diagnostic tool''))))"

definition attach_setting :: "string \<Rightarrow> bool option" where
  "attach_setting argument =
     (if display argument = attach_disabled then Some True
      else if display argument = attach_enabled then Some False else None)"

definition require_attach :: "string list \<Rightarrow> error + unit" where
  "require_attach args =
     (case List.map_filter attach_setting (rev args) of
       True # _ \<Rightarrow>
         Inl (Error_DiagnosticUnavailable
           (''the JVM was launched with '' @ attach_disabled @ ''; core service supervision remains ''
            @ ''available, but JCMD thread dumps and on-demand heap dumps cannot attach''))
     | _ \<Rightarrow> Inr ())"

subsection \<open>Thread dumps\<close>

datatype dump_method = Method_ConsoleBreak | Method_Jcmd

definition has_reduced_signal_usage :: "string list \<Rightarrow> bool" where
  "has_reduced_signal_usage args \<longleftrightarrow> list_ex (\<lambda>a. eq_ignore_ascii_case (display a) ''-Xrs'') args"

definition dump_method_of :: "config \<Rightarrow> string list \<Rightarrow> error + dump_method" where
  "dump_method_of c args =
     (let value = to_ascii_uppercase (trim (get_or c ''jss.threaddump.method'' ''AUTO'')) in
      if value = ''AUTO'' then
        Inr (if has_reduced_signal_usage args then Method_Jcmd else Method_ConsoleBreak)
      else if value \<in> {''BREAK'', ''CTRL_BREAK'', ''CONSOLE_BREAK''} then
        (if has_reduced_signal_usage args then
           Inl (Error_DiagnosticUnavailable
             (''the JVM was launched with -Xrs, which disables Windows CTRL_BREAK thread dumps; ''
              @ ''remove -Xrs or use AUTO/JCMD with the matching JDK diagnostic tool''))
         else Inr Method_ConsoleBreak)
      else if value = ''JCMD'' then Inr Method_Jcmd
      else Inl (Error_Config
        (''jss.threaddump.method must be AUTO, BREAK, or JCMD; found '' @ value)))"

text \<open>
  The capture loop. Its local variable says whether the output channel is closed; the
  result is the exit status of the tool, or nothing if the deadline passed.
\<close>

definition drain_jcmd_output :: "answers \<Rightarrow> (bytes \<Rightarrow> ('z world_scheme, unit) io) \<Rightarrow> ('z world_scheme, unit) io" where
  "drain_jcmd_output A record_line =
     loop (and_then (ask (a_jcmd_output A)) (\<lambda>r.
       case r of
         Received line \<Rightarrow> and_then (record_line line) (\<lambda>_. ret None)
       | _ \<Rightarrow> ret (Some ())))"

definition capture_round ::
    "answers \<Rightarrow> nat \<Rightarrow> (bytes \<Rightarrow> ('z world_scheme, unit) io)
      \<Rightarrow> (bool \<times> 'z world_scheme, int option option option) io" where
  "capture_round A deadline record_line =
     and_then (peek fst) (\<lambda>output_disconnected.
     and_then
       (if output_disconnected then ret ()
        else and_then (on_world (ask (a_jcmd_output A))) (\<lambda>r.
          case r of
            Received line \<Rightarrow> on_world (record_line line)
          | Recv_Closed \<Rightarrow> update (\<lambda>vw. (True, snd vw))
          | Recv_Timeout \<Rightarrow> ret ())) (\<lambda>_.
     and_then (on_world (ask_result (a_jcmd_try_wait A))) (\<lambda>status.
       case status of
         Some ec \<Rightarrow>
           and_then (on_world (drain_jcmd_output A record_line)) (\<lambda>_. ret (Some (Some ec)))
       | None \<Rightarrow>
           and_then (on_world (ask (a_now A))) (\<lambda>now.
             if deadline \<le> now then ret (Some None) else ret None))))"

definition capture_with_jcmd ::
    "platform \<Rightarrow> answers \<Rightarrow> jvm_command \<Rightarrow> nat \<Rightarrow> (bytes \<Rightarrow> ('z world_scheme, unit) io)
      \<Rightarrow> ('z world_scheme, unit) io" where
  "capture_with_jcmd P A cmd timeout record_line =
     and_then (from_result (lift_error (require_attach (arguments cmd)))) (\<lambda>_.
     and_then (from_result (lift_error
         (jcmd P (program cmd) (command_environment cmd) (working_directory cmd)))) (\<lambda>tool.
     and_then (ask (a_jcmd_spawn A)) (\<lambda>spawned.
       case spawned of
         Some e \<Rightarrow> raise (Failed (Error_Config
           (''could not execute '' @ display tool @ '': '' @ io_text e)))
       | None \<Rightarrow>
           and_then (ask (a_now A)) (\<lambda>now.
           and_then (plus_time now (max timeout (from_secs 1))) (\<lambda>deadline.
           and_then (with_local False (loop (capture_round A deadline record_line))) (\<lambda>result.
             case result of
               None \<Rightarrow> raise (Failed (Error_Config
                 (display tool @ '' did not finish the thread dump within ''
                  @ show_nat (max (timeout div 1000000000) 1) @ '' seconds'')))
             | Some ec \<Rightarrow>
                 if ec = Some 0 then ret ()
                 else raise (Failed (Error_Config
                   (display tool @ '' exited with '' @ a_status_text A ec
                    @ '' while requesting a thread dump'')))))))))"

text \<open>The reader of the tool's output: what one filled buffer yields.\<close>

definition max_dump_line :: nat where
  "max_dump_line = 64 * 1024"

definition strip_line_end :: "bytes \<Rightarrow> bytes" where
  "strip_line_end line =
     (let line1 = (if line \<noteq> [] \<and> last line = 0x0A then butlast line else line)
      in if line1 \<noteq> [] \<and> last line1 = 0x0D then butlast line1 else line1)"

definition read_dump_line :: "bytes \<Rightarrow> bytes \<times> nat" where
  "read_dump_line buffer =
     (let before = takeWhile (\<lambda>b. b \<noteq> 0x0A) buffer;
          consumed = (if length before = length buffer then length buffer else Suc (length before))
      in (strip_line_end (take (min consumed max_dump_line) buffer), consumed))"

definition read_dump_step :: "bytes \<Rightarrow> bytes" where
  "read_dump_step buffer = drop (snd (read_dump_line buffer)) buffer"

lemma read_dump_step_shrinks [simp]: "buffer \<noteq> [] \<Longrightarrow> length (read_dump_step buffer) < length buffer"
  by (auto simp: read_dump_step_def read_dump_line_def Let_def)

fun buffer_lines :: "bytes \<Rightarrow> bytes list" where
  "buffer_lines buffer =
     (if buffer = [] then [] else fst (read_dump_line buffer) # buffer_lines (read_dump_step buffer))"

declare buffer_lines.simps [simp del]

text \<open>The reader ends at the end of the pipe and at any error.\<close>

fun read_dump :: "read_result list \<Rightarrow> bytes list" where
  "read_dump [] = []"
| "read_dump (Read_Bytes bs # rs) = (if bs = [] then [] else buffer_lines bs @ read_dump rs)"
| "read_dump (Read_Failed e # rs) = []"

text \<open>A line that does not end in the buffer it begins in becomes two lines.\<close>

lemma dump_line_torn:
  "read_dump [Read_Bytes [0x61, 0x62, 0x0A], Read_Bytes []] = [[0x61, 0x62]]"
  "read_dump [Read_Bytes [0x61], Read_Bytes [0x62, 0x0A], Read_Bytes []] = [[0x61], [0x62]]"
  by (simp_all add: buffer_lines.simps read_dump_step_def read_dump_line_def strip_line_end_def max_dump_line_def)

end
