(* ===== verification/Heap_Dumps.thy ===== *)
theory Heap_Dumps
  imports Diagnostics
begin

section \<open>Heap dumps: \<open>src/heap_dump.rs\<close>\<close>

text \<open>
  Starting a dump, the name of its file, the worker that waits for the tool, and the task that
  is polled for the worker's verdict. The worker runs beside the supervisor; here it is a
  computation of its own on the world it sees. What the tool writes is an answer of the world.
\<close>

subsection \<open>The task\<close>

definition default_heap_timeout :: u64 where
  "default_heap_timeout = 600"

definition heap_timeout :: "config \<Rightarrow> nat" where
  "heap_timeout c = from_secs (max (get_u64 c ''jss.heapdump.timeout'' default_heap_timeout) 1)"

record heap_task =
  task_path :: string
  task_timeout :: nat

text \<open>
  What the channel of the worker gives: its completion, nothing yet, or that the worker has
  ended without sending one.
\<close>

definition task_poll :: "heap_task \<Rightarrow> heap_completion recv \<Rightarrow> heap_poll" where
  "task_poll task r =
     (case r of
       Received completion \<Rightarrow> Heap_Complete completion
     | Recv_Timeout \<Rightarrow> Heap_Pending
     | Recv_Closed \<Rightarrow> Heap_Complete (Heap_Failed (task_path task) ''the heap-dump worker ended without a result''))"

subsection \<open>Starting a dump\<close>

definition default_directory :: "platform \<Rightarrow> config \<Rightarrow> string \<Rightarrow> string" where
  "default_directory P c logfile =
     (case path_parent P logfile of
       Some parent \<Rightarrow> if parent \<noteq> [] then parent else executable_directory c
     | None \<Rightarrow> executable_directory c)"

definition max_name_attempts :: nat where
  "max_name_attempts = 1000"

definition heap_name :: "platform \<Rightarrow> string \<Rightarrow> string \<Rightarrow> u32 \<Rightarrow> u32 \<Rightarrow> nat \<Rightarrow> string" where
  "heap_name P directory timestamp pid jid index =
     path_join P directory
       (''heap-'' @ timestamp @ ''-jvm'' @ show_nat (unat jid) @ ''-pid'' @ show_nat (unat pid)
        @ (if index = 0 then [] else ''-'' @ show_nat index) @ ''.hprof'')"

primrec first_free_name :: "(nat \<Rightarrow> string) \<Rightarrow> nat list \<Rightarrow> (log_state, error, string option) action" where
  "first_free_name name [] = returns None"
| "first_free_name name (i # is) =
     followed_by (on_snd (file_exists (name i))) (\<lambda>present.
       if \<not> present then returns (Some (name i)) else first_free_name name is)"

definition unique_path :: "platform \<Rightarrow> answers \<Rightarrow> string \<Rightarrow> u32 \<Rightarrow> u32 \<Rightarrow> ('z world_scheme, string) io" where
  "unique_path P A directory pid jid =
     and_then (ask (a_timestamp A)) (\<lambda>timestamp.
     and_then (log_action (first_free_name (heap_name P directory timestamp pid jid) [0..<max_name_attempts]))
       (\<lambda>found.
         case found of
           Some path \<Rightarrow> ret path
         | None \<Rightarrow> raise (Failed (Error_Config
             (''could not allocate a unique heap-dump name in '' @ display directory)))))"

definition heap_start ::
    "platform \<Rightarrow> answers \<Rightarrow> config \<Rightarrow> jvm_command \<Rightarrow> string \<Rightarrow> u32 \<Rightarrow> u32 \<Rightarrow> ('z world_scheme, heap_task) io" where
  "heap_start P A c cmd logfile pid jid =
     and_then (from_result (lift_error (require_attach (arguments cmd)))) (\<lambda>_.
     and_then (from_result (lift_error
         (jcmd P (program cmd) (command_environment cmd) (working_directory cmd)))) (\<lambda>_.
     (let directory = (case get c ''jss.heapdump.directory'' of
            None \<Rightarrow> default_directory P c logfile | Some path \<Rightarrow> resolve_path P c path)
      in and_then (ask_ok (a_create_dir A)) (\<lambda>_.
         and_then (unique_path P A directory pid jid) (\<lambda>path.
         and_then (ask_ok (a_thread A)) (\<lambda>_.
           ret \<lparr>task_path = path, task_timeout = heap_timeout c\<rparr>))))))"

subsection \<open>The worker\<close>

definition max_diagnostic_output :: nat where
  "max_diagnostic_output = 4096"

text \<open>The first characters of a text: a byte that continues a character does not count.\<close>

fun take_characters :: "nat \<Rightarrow> string \<Rightarrow> string" where
  "take_characters n [] = []"
| "take_characters n (c # cs) =
     (if 128 \<le> (of_char c :: nat) \<and> (of_char c :: nat) < 192 then c # take_characters n cs
      else case n of 0 \<Rightarrow> [] | Suc m \<Rightarrow> c # take_characters m cs)"

definition diagnostic_output :: "bytes \<Rightarrow> bytes \<Rightarrow> string" where
  "diagnostic_output out err =
     (let combined = (if err = [] then out else err);
          output = map (\<lambda>c. if c \<in> {CHR 0x0D, CHR 0x0A} then CHR '' '' else c)
            (trim (take_characters max_diagnostic_output (utf8_lossy combined)))
      in if output = [] then ''no diagnostic output'' else output)"

text \<open>An operation on the disk whose error is looked at.\<close>

definition on_disk :: "(disk, 'e, 'a) action \<Rightarrow> ('z world_scheme, 'e + 'a) io" where
  "on_disk m w = (case m (snd (logs w)) of (r, d) \<Rightarrow> Some (Inr r, w\<lparr>logs := (fst (logs w), d)\<rparr>))"

definition metadata_length :: "string \<Rightarrow> (disk, io_error, u64) action" where
  "metadata_length p d =
     (case tick_op d of
       (Some (e, _), d') \<Rightarrow> (Inl e, d')
     | (None, d') \<Rightarrow>
         (case file_at d' p of None \<Rightarrow> (Inl not_found, d') | Some bs \<Rightarrow> (Inr (of_nat (length bs)), d')))"

text \<open>What the tool has written so far.\<close>

definition put_file :: "string \<Rightarrow> bytes \<Rightarrow> disk \<Rightarrow> disk" where
  "put_file p bs d =
     (case lookup d p of
       Some i \<Rightarrow> d\<lparr>data := (data d)(i := bs)\<rparr>
     | None \<Rightarrow>
         set_name p (next_file d) (d\<lparr>data := (data d)(next_file d := bs), next_file := Suc (next_file d)\<rparr>))"

definition tool_writes :: "answers \<Rightarrow> string \<Rightarrow> ('z world_scheme, unit) io" where
  "tool_writes A path =
     and_then (ask (a_dump_file A)) (\<lambda>r.
       case r of
         None \<Rightarrow> ret ()
       | Some bs \<Rightarrow> update (\<lambda>w. w\<lparr>logs := (fst (logs w), put_file path bs (snd (logs w)))\<rparr>))"

definition heap_failed :: "string \<Rightarrow> string \<Rightarrow> ('z world_scheme, heap_completion) io" where
  "heap_failed path m = and_then (on_disk (remove_file path)) (\<lambda>_. ret (Heap_Failed path m))"

text \<open>One round of the wait: the failure that ends it, or the exit status of the tool.\<close>

definition dump_round ::
    "answers \<Rightarrow> string \<Rightarrow> string \<Rightarrow> nat \<Rightarrow> nat \<Rightarrow> ('z world_scheme, (heap_completion + int option) option) io" where
  "dump_round A tool path timeout deadline =
     and_then (tool_writes A path) (\<lambda>_.
     and_then (ask (a_dump_wait A)) (\<lambda>r.
       case r of
         Inl e \<Rightarrow>
           and_then (heap_failed path (''could not wait for jcmd: '' @ io_text e)) (\<lambda>c. ret (Some (Inl c)))
       | Inr (Some ec) \<Rightarrow> ret (Some (Inr ec))
       | Inr None \<Rightarrow>
           and_then (ask (a_now A)) (\<lambda>t.
             if deadline \<le> t then
               and_then (heap_failed path (display tool @ '' did not finish the heap dump within ''
                 @ show_nat (timeout div 1000000000) @ '' seconds'')) (\<lambda>c. ret (Some (Inl c)))
             else ret None)))"

definition dump_verdict ::
    "answers \<Rightarrow> string \<Rightarrow> int option \<Rightarrow> bytes \<Rightarrow> bytes \<Rightarrow> ('z world_scheme, heap_completion) io" where
  "dump_verdict A path ec out err =
     (if ec = Some 0 then
        and_then (on_disk (metadata_length path)) (\<lambda>r.
          case r of
            Inr n \<Rightarrow>
              if 0 < n then ret (Heap_Created path n)
              else heap_failed path ''jcmd reported success but created an empty heap dump''
          | Inl e \<Rightarrow>
              heap_failed path (''jcmd reported success but no heap dump was found: '' @ io_text e))
      else heap_failed path (''jcmd exited with '' @ a_status_text A ec @ '': '' @ diagnostic_output out err))"

text \<open>
  The pipes are read to their ends by two threads that are joined after the tool has exited; a
  pipe that some other process keeps open is never read to its end, and then neither is the
  worker's.
\<close>

definition join_readers :: "answers \<Rightarrow> ('z world_scheme, bytes \<times> bytes) io" where
  "join_readers A w =
     (case a_dump_output A (steps w) of
       None \<Rightarrow> None
     | Some outputs \<Rightarrow> Some (Inr outputs, w\<lparr>steps := Suc (steps w)\<rparr>))"

definition run_jcmd :: "answers \<Rightarrow> string \<Rightarrow> string \<Rightarrow> nat \<Rightarrow> ('z world_scheme, heap_completion) io" where
  "run_jcmd A tool path timeout =
     and_then (ask (a_dump_spawn A)) (\<lambda>spawned.
       case spawned of
         Some e \<Rightarrow> heap_failed path (''could not execute '' @ display tool @ '': '' @ io_text e)
       | None \<Rightarrow>
           and_then (ask (a_now A)) (\<lambda>t.
           and_then (plus_time t timeout) (\<lambda>deadline.
           and_then (loop (dump_round A tool path timeout deadline)) (\<lambda>r.
             case r of
               Inl completion \<Rightarrow> ret completion
             | Inr ec \<Rightarrow> and_then (join_readers A) (\<lambda>(out, err). dump_verdict A path ec out err)))))"

end
