(* ===== verification/Supervisor.thy ===== *)
theory Supervisor
  imports Heap_Dumps
begin

section \<open>The supervisor: \<open>src/supervisor.rs\<close>\<close>

text \<open>
  The life of the JVM: launch, start-up deadline, ping watchdog, output filters, restarts,
  pause and resume, shutdown. \<open>jvm_run\<close> is the state of one invocation (\<open>JvmRun\<close>)
  together with the world it runs in; \<open>lifecycle\<close> is what \<open>Supervisor::run\<close> keeps
  between invocations.
\<close>

subsection \<open>Data\<close>

definition started_as_service_marker :: string where
  "started_as_service_marker = ''--> Wrapper Started as Service''"

definition started_as_console_marker :: string where
  "started_as_console_marker = ''--> Wrapper Started as Console''"

definition stopped_marker :: string where
  "stopped_marker = ''<-- Wrapper Stopped''"

definition output_batch :: nat where
  "output_batch = 4096"

definition min_handshake_timeout :: nat where
  "min_handshake_timeout = from_secs 5"

datatype run_outcome =
    Outcome_Stop int
  | Outcome_Pause
  | Outcome_Exited nat int
  | Outcome_Restart nat bool int

datatype paused_outcome = Paused_Resume | Paused_Stop

datatype exit_action = Exit_Shutdown | Exit_Restart | Exit_Pause

record pid_file =
  pid_path :: string
  pid_contents :: bytes

record supervisor =
  sup_platform :: platform
  sup_config :: config
  sup_args :: "string list"
  sup_service :: bool
  sup_answers :: answers

record jvm_run = world +
  run_jvm_id :: u32
  run_resuming :: bool
  run_command :: jvm_command
  run_pid :: u32
  run_pid_file :: "pid_file option"
  output_open :: bool
  run_listener :: listener
  run_key :: string
  run_connection :: "connection option"
  ever_connected :: bool
  launched_at :: nat
  started :: bool
  startup_seconds :: u64
  startup_deadline :: "nat option"
  ping_interval :: nat
  ping_timeout :: nat
  next_ping :: nat
  last_ping_response :: nat
  paused_in_place :: bool
  heap_dump_task :: "heap_task option"

record lifecycle =
  lc_jvm_id :: u32
  lc_id_file :: "pid_file option"
  lc_failed :: u64
  lc_resuming :: bool

subsection \<open>Settings\<close>

definition shutdown_timeout :: "config \<Rightarrow> nat" where
  "shutdown_timeout c = from_secs (get_u64 c ''wrapper.shutdown.timeout'' 30)"

definition startup_delay :: "config \<Rightarrow> bool \<Rightarrow> nat" where
  "startup_delay c is_service =
     (let dflt = get_u64 c ''wrapper.startup.delay'' 0;
          property = (if is_service then ''wrapper.startup.delay.service'' else ''wrapper.startup.delay.console'')
      in from_secs (get_u64 c property dflt))"

definition on_exit_action :: "config \<Rightarrow> int \<Rightarrow> exit_action" where
  "on_exit_action c exit_code =
     (let specific = ''wrapper.on_exit.'' @ show_int exit_code;
          configured = (case get c specific of
            Some v \<Rightarrow> v | None \<Rightarrow> get_or c ''wrapper.on_exit.default'' ''SHUTDOWN'');
          action = to_ascii_uppercase (trim configured)
      in if action = ''RESTART'' then Exit_Restart
         else if action = ''PAUSE'' then Exit_Pause else Exit_Shutdown)"

definition optional_port :: "config \<Rightarrow> string \<Rightarrow> error + u16 option" where
  "optional_port c name =
     (case get c name of
       None \<Rightarrow> Inr None
     | Some value \<Rightarrow>
         (case parse_word (trim value) of
           None \<Rightarrow> Inl (Error_Config (name @ '' is not a valid port: '' @ value))
         | Some p \<Rightarrow> Inr (if p \<noteq> 0 then Some p else None)))"

definition port_or :: "config \<Rightarrow> string \<Rightarrow> u16 \<Rightarrow> error + u16" where
  "port_or c name dflt =
     bind_result (optional_port c name) (\<lambda>p. Inr (case p of None \<Rightarrow> dflt | Some q \<Rightarrow> q))"

definition pausable :: "supervisor \<Rightarrow> bool" where
  "pausable S =
     get_bool (sup_config S) ''wrapper.pausable''
       (get_bool (sup_config S) ''wrapper.ntservice.pausable'' False)"

definition pausable_stops_jvm :: "supervisor \<Rightarrow> bool" where
  "pausable_stops_jvm S =
     get_bool (sup_config S) ''wrapper.pausable.stop_jvm''
       (get_bool (sup_config S) ''wrapper.ntservice.pausable.stop_jvm'' True)"

definition filter_note :: "string \<Rightarrow> string \<Rightarrow> string" where
  "filter_note configured action =
     (let c = trim configured in if c = [] then action else c @ ''  '' @ action)"

subsection \<open>Calls of the world\<close>

definition now :: "supervisor \<Rightarrow> ('z world_scheme, nat) io" where
  "now S = ask (a_now (sup_answers S))"

definition log_line :: "supervisor \<Rightarrow> log_level \<Rightarrow> log_source \<Rightarrow> string \<Rightarrow> ('z world_scheme, unit) io" where
  "log_line S = say (sup_platform S)"

definition connection_send :: "supervisor \<Rightarrow> u8 \<Rightarrow> string \<Rightarrow> ('z world_scheme, unit) io" where
  "connection_send S c m =
     and_then (ask (a_write (sup_answers S))) (\<lambda>fault.
       case send (\<lambda>_. case fault of None \<Rightarrow> Inr () | Some e \<Rightarrow> Inl e) c m of
         Inl e \<Rightarrow> raise (Failed e)
       | Inr _ \<Rightarrow> update (\<lambda>w. w\<lparr>wire := wire w @ [(c, m)]\<rparr>))"

subsection \<open>Pid files\<close>

definition fs_write :: "string \<Rightarrow> bytes \<Rightarrow> (disk, error, unit) action" where
  "fs_write p bs =
     followed_by (open_truncated_shared p) (\<lambda>i d.
       case tick_op d of
         (Some (e, n), d') \<Rightarrow> (Inl (Error_Io e), d'\<lparr>data := (data d')(i := take n bs)\<rparr>)
       | (None, d') \<Rightarrow> (Inr (), d'\<lparr>data := (data d')(i := bs)\<rparr>))"

definition fs_read :: "string \<Rightarrow> (disk, error, bytes) action" where
  "fs_read p d =
     (case tick_op d of
       (Some (e, _), d') \<Rightarrow> (Inl (Error_Io e), d')
     | (None, d') \<Rightarrow>
         (case file_at d' p of None \<Rightarrow> (Inl (Error_Io not_found), d') | Some bs \<Rightarrow> (Inr bs, d')))"

definition pid_text :: "u32 \<Rightarrow> bytes" where
  "pid_text n = as_bytes (show_nat (unat n)) @ crlf"

definition pid_file_create ::
    "platform \<Rightarrow> config \<Rightarrow> string \<Rightarrow> u32 \<Rightarrow> bool \<Rightarrow> (log_state, error, pid_file option) action" where
  "pid_file_create P c property n strict =
     (case get c property of
       None \<Rightarrow> returns None
     | Some value \<Rightarrow>
         if trim value = [] then returns None
         else
           (let path = resolve_path P c value in
            followed_by (if strict then on_snd (file_exists path) else returns False) (\<lambda>present.
              if present then
                fails (Error_Config (property @ '' already exists and wrapper.pidfile.strict is enabled: ''
                  @ display path))
              else followed_by (on_snd (fs_write path (pid_text n))) (\<lambda>_.
                returns (Some \<lparr>pid_path = path, pid_contents = pid_text n\<rparr>)))))"

definition pid_file_update :: "u32 \<Rightarrow> pid_file \<Rightarrow> (log_state, error, pid_file) action" where
  "pid_file_update n f =
     followed_by (on_snd (fs_write (pid_path f) (pid_text n))) (\<lambda>_.
       returns (f\<lparr>pid_contents := pid_text n\<rparr>))"

text \<open>\<open>Drop\<close>: the file is removed if it still holds what was written; errors are ignored.\<close>

definition pid_file_drop :: "pid_file \<Rightarrow> (log_state, error, unit) action" where
  "pid_file_drop f s =
     (case on_snd (fs_read (pid_path f)) s of
       (Inl _, s') \<Rightarrow> (Inr (), s')
     | (Inr current, s') \<Rightarrow>
         if current = pid_contents f then
           (case on_snd (remove_file (pid_path f)) s' of (_, s'') \<Rightarrow> (Inr (), s''))
         else (Inr (), s'))"

subsection \<open>The connection\<close>

definition mark_disconnected :: "supervisor \<Rightarrow> (jvm_run, unit) io" where
  "mark_disconnected S =
     and_then (peek run_connection) (\<lambda>connection.
       case connection of
         None \<Rightarrow> ret ()
       | Some _ \<Rightarrow>
           and_then (update (\<lambda>w. w\<lparr>run_connection := None\<rparr>)) (\<lambda>_.
           and_then (log_line S Level_Debug From_Protocol
             ''JVM control channel disconnected; waiting for the JVM to exit or reconnect.'') (\<lambda>_.
             emit ProtocolDisconnected)))"

definition send_if_connected :: "supervisor \<Rightarrow> u8 \<Rightarrow> string \<Rightarrow> (jvm_run, bool) io" where
  "send_if_connected S c m =
     and_then (peek run_connection) (\<lambda>connection.
       case connection of
         None \<Rightarrow> ret False
       | Some _ \<Rightarrow>
           and_then (attempt (connection_send S c m)) (\<lambda>result.
             case result of
               Inl e \<Rightarrow>
                 and_then (log_line S Level_Error From_Protocol
                   (''Control channel write failed: '' @ error_text e)) (\<lambda>_.
                 and_then (mark_disconnected S) (\<lambda>_. ret False))
             | Inr _ \<Rightarrow> ret True))"

subsection \<open>Output of the JVM\<close>

definition jvm_log :: "supervisor \<Rightarrow> log_level \<Rightarrow> bytes \<Rightarrow> (jvm_run, unit) io" where
  "jvm_log S level line =
     and_then (peek run_jvm_id) (\<lambda>jid.
       log_action (write_bytes (sup_platform S) level (From_Jvm jid) line))"

definition record_output :: "supervisor \<Rightarrow> bytes \<Rightarrow> (jvm_run, filter_match list) io" where
  "record_output S line =
     and_then (jvm_log S Level_Info line) (\<lambda>_.
       let matches = inspect_bytes (sup_platform S) (filters_from_config (sup_config S)) line
       in and_then (for_all (\<lambda>m. emit (FilterMatched (of_nat (match_index m)))) matches) (\<lambda>_. ret matches))"

definition drain_remaining_output :: "supervisor \<Rightarrow> (jvm_run, unit) io" where
  "drain_remaining_output S =
     and_then (now S) (\<lambda>t.
     and_then (plus_time t (from_secs 1)) (\<lambda>deadline.
       loop (and_then (ask (a_output (sup_answers S))) (\<lambda>r.
         case r of
           Received line \<Rightarrow> and_then (record_output S line) (\<lambda>_. ret None)
         | Recv_Closed \<Rightarrow> ret (Some ())
         | Recv_Timeout \<Rightarrow>
             and_then (now S) (\<lambda>t. ret (if deadline \<le> t then Some () else None))))))"

definition wait_round :: "supervisor \<Rightarrow> nat \<Rightarrow> (jvm_run, bool option) io" where
  "wait_round S deadline =
     and_then (try_wait (sup_answers S)) (\<lambda>status.
       if status \<noteq> None then and_then (drain_remaining_output S) (\<lambda>_. ret (Some True))
       else and_then (now S) (\<lambda>t.
         if deadline \<le> t then ret (Some False)
         else and_then (ask (a_output (sup_answers S))) (\<lambda>r.
           case r of
             Received line \<Rightarrow>
               and_then (record_output S line) (\<lambda>_.
               and_then (ask (a_batch (sup_answers S))) (\<lambda>batch.
               and_then (for_all (\<lambda>l. and_then (record_output S l) (\<lambda>_. ret ())) (take output_batch batch)) (\<lambda>_.
                 ret None)))
           | _ \<Rightarrow> ret None)))"

definition wait_for_exit :: "supervisor \<Rightarrow> nat \<Rightarrow> (jvm_run, bool) io" where
  "wait_for_exit S timeout =
     and_then (now S) (\<lambda>t.
     and_then (plus_time t timeout) (\<lambda>deadline. loop (wait_round S deadline)))"

subsection \<open>Diagnostics\<close>

definition publish_warning :: "supervisor \<Rightarrow> string \<Rightarrow> (jvm_run, unit) io" where
  "publish_warning S m =
     and_then (log_line S Level_Error From_Wrapper m) (\<lambda>_. emit (Event_Warning m))"

definition take_thread_dump :: "supervisor \<Rightarrow> (jvm_run, string) io" where
  "take_thread_dump S =
     and_then (peek (\<lambda>w. w)) (\<lambda>w.
     and_then (from_result (lift_error (dump_method_of (sup_config S) (arguments (run_command w))))) (\<lambda>m.
       case m of
         Method_ConsoleBreak \<Rightarrow>
           and_then (emit (ThreadDumpStarted (run_jvm_id w) (run_pid w) ''CTRL_BREAK'')) (\<lambda>_.
           and_then (send_console_break (sup_platform S) (sup_answers S)) (\<lambda>_. ret ''CTRL_BREAK''))
       | Method_Jcmd \<Rightarrow>
           and_then (emit (ThreadDumpStarted (run_jvm_id w) (run_pid w) ''JCMD'')) (\<lambda>_.
           and_then (capture_with_jcmd (sup_platform S) (sup_answers S) (run_command w)
             (from_secs (max (get_u64 (sup_config S) ''jss.threaddump.timeout'' 30) 1))
             (jvm_log S Level_Info)) (\<lambda>_. ret ''JCMD''))))"

definition uses_jcmd :: "supervisor \<Rightarrow> jvm_run \<Rightarrow> bool" where
  "uses_jcmd S w \<longleftrightarrow> dump_method_of (sup_config S) (arguments (run_command w)) = Inr Method_Jcmd"

definition request_thread_dump :: "supervisor \<Rightarrow> (jvm_run, bool) io" where
  "request_thread_dump S =
     and_then (peek (\<lambda>w. w)) (\<lambda>w.
     and_then (if uses_jcmd S w
               then log_line S Level_Status From_Wrapper ''Requesting a thread dump with jcmd.''
               else ret ()) (\<lambda>_.
     and_then (attempt (take_thread_dump S)) (\<lambda>result.
       case result of
         Inr m \<Rightarrow> and_then (emit (ThreadDumpCompleted (run_jvm_id w) m)) (\<lambda>_. ret True)
       | Inl e \<Rightarrow>
           and_then (publish_warning S (''Unable to request thread dump: '' @ error_text e)) (\<lambda>_. ret False))))"

definition start_heap_dump :: "supervisor \<Rightarrow> (jvm_run, unit) io" where
  "start_heap_dump S =
     and_then (peek (\<lambda>w. w)) (\<lambda>w.
       if \<not> started w then
         log_line S Level_Warn From_Wrapper
           ''Heap dump request ignored because the application has not reported started.''
       else case heap_dump_task w of
         Some task \<Rightarrow>
           log_line S Level_Warn From_Wrapper
             (''A heap dump is already in progress: '' @ display (task_path task))
       | None \<Rightarrow>
           and_then (attempt (heap_start (sup_platform S) (sup_answers S) (sup_config S) (run_command w)
             (log_path (fst (logs w))) (run_pid w) (run_jvm_id w))) (\<lambda>result.
             case result of
               Inr task \<Rightarrow>
                 (let path = display (task_path task) in
                  and_then (log_line S Level_Status From_Wrapper (''Heap dump requested: '' @ path)) (\<lambda>_.
                  and_then (emit (HeapDumpStarted (run_jvm_id w) (run_pid w) path)) (\<lambda>_.
                    update (\<lambda>w. w\<lparr>heap_dump_task := Some task\<rparr>))))
             | Inl e \<Rightarrow> publish_warning S (''Unable to request heap dump: '' @ error_text e)))"

definition poll_heap_dump :: "supervisor \<Rightarrow> (jvm_run, unit) io" where
  "poll_heap_dump S =
     and_then (peek (\<lambda>w. w)) (\<lambda>w.
       case heap_dump_task w of
         None \<Rightarrow> ret ()
       | Some task \<Rightarrow>
           and_then (ask (a_heap_poll (sup_answers S))) (\<lambda>r.
             case task_poll task r of
               Heap_Pending \<Rightarrow> ret ()
             | Heap_Complete completion \<Rightarrow>
                 and_then (update (\<lambda>w. w\<lparr>heap_dump_task := None\<rparr>)) (\<lambda>_.
                   case completion of
                     Heap_Created p n \<Rightarrow>
                       (let path = display p in
                        and_then (log_line S Level_Status From_Wrapper
                          (''Heap dump completed: '' @ path @ '' ('' @ show_nat (unat n) @ '' bytes)'')) (\<lambda>_.
                          emit (HeapDumpCompleted (run_jvm_id w) path n)))
                   | Heap_Failed p m \<Rightarrow>
                       publish_warning S (''Heap dump failed for '' @ display p @ '': '' @ m))))"

subsection \<open>Shutdown\<close>

definition shutdown_and_drain :: "supervisor \<Rightarrow> int \<Rightarrow> (jvm_run, unit) io" where
  "shutdown_and_drain S exit_code =
     and_then (try_wait (sup_answers S)) (\<lambda>status.
       if status \<noteq> None then drain_remaining_output S
       else and_then (send_if_connected S STOP (show_int exit_code)) (\<lambda>sent.
         if \<not> sent then
           and_then (terminate_child (sup_answers S)) (\<lambda>_. drain_remaining_output S)
         else
           (let timeout = shutdown_timeout (sup_config S) in
            and_then (wait_for_exit S timeout) (\<lambda>exited.
              if exited then ret ()
              else
                and_then (log_line S Level_Error From_Wrapper
                  (''The JVM did not stop within '' @ show_nat (timeout div 1000000000) @ '' seconds.'')) (\<lambda>_.
                and_then
                  (if get_bool (sup_config S) ''wrapper.request_thread_dump_on_failed_jvm_exit'' False then
                     and_then (log_line S Level_Status From_Wrapper
                       ''Requesting a thread dump before terminating the JVM.'') (\<lambda>_.
                     and_then (request_thread_dump S) (\<lambda>dumped.
                       if dumped then
                         wait_for_exit S (from_secs (max (get_u64 (sup_config S)
                           ''wrapper.request_thread_dump_on_failed_jvm_exit.delay'' 5) 1))
                       else ret False))
                   else ret False) (\<lambda>exited.
                  if exited then ret ()
                  else
                    and_then (log_line S Level_Error From_Wrapper ''Terminating the JVM forcibly.'') (\<lambda>_.
                    and_then (terminate_child (sup_answers S)) (\<lambda>_. drain_remaining_output S))))))))"

definition stop_with :: "supervisor \<Rightarrow> int \<Rightarrow> (jvm_run, run_outcome) io" where
  "stop_with S exit_code =
     and_then (shutdown_and_drain S exit_code) (\<lambda>_. ret (Outcome_Stop exit_code))"

definition elapsed :: "supervisor \<Rightarrow> (jvm_run, nat) io" where
  "elapsed S = and_then (peek launched_at) (\<lambda>t0. and_then (now S) (\<lambda>t. ret (t - t0)))"

definition restart_with :: "supervisor \<Rightarrow> int \<Rightarrow> bool \<Rightarrow> (jvm_run, run_outcome option) io" where
  "restart_with S exit_code automatic =
     and_then (shutdown_and_drain S exit_code) (\<lambda>_.
     and_then (elapsed S) (\<lambda>t. ret (Some (Outcome_Restart t automatic exit_code))))"

subsection \<open>Pause and resume\<close>

definition pause :: "supervisor \<Rightarrow> (jvm_run, run_outcome option) io" where
  "pause S =
     (if pausable_stops_jvm S then
        and_then (shutdown_and_drain S 0) (\<lambda>_.
        and_then (emit ServicePaused) (\<lambda>_. ret (Some Outcome_Pause)))
      else
        and_then (send_if_connected S PAUSE ''0'') (\<lambda>sent.
        and_then
          (if sent then
             and_then (update (\<lambda>w. w\<lparr>paused_in_place := True\<rparr>)) (\<lambda>_. emit ServicePaused)
           else ret ()) (\<lambda>_. ret None)))"

definition resume :: "supervisor \<Rightarrow> (jvm_run, unit) io" where
  "resume S =
     and_then (send_if_connected S RESUME ''0'') (\<lambda>sent.
       if sent then
         and_then (update (\<lambda>w. w\<lparr>paused_in_place := False\<rparr>)) (\<lambda>_. emit ServiceResumed)
       else ret ())"

end
