(* ===== verification/Event_Loop.thy ===== *)
theory Event_Loop
  imports Supervisor
begin

section \<open>The event loop of one JVM: \<open>JvmRun\<close>\<close>

text \<open>
  The handlers of the four event sources (output of the JVM, controls, packets, the ticker)
  and the loop that selects among them. A handler returns the outcome that ends the
  invocation, or none.
\<close>

subsection \<open>Output filters\<close>

definition apply_filter_action ::
    "supervisor \<Rightarrow> filter_match \<Rightarrow> filter_action \<Rightarrow> (jvm_run, run_outcome option) io" where
  "apply_filter_action S matched action =
     (let note = (\<lambda>level what.
            log_line S level From_Wrapper (filter_note (match_message matched) what))
      in case action of
        Action_None \<Rightarrow> ret None
      | Action_Debug \<Rightarrow>
          and_then (note Level_Debug ''Filter action: debug.'') (\<lambda>_. ret None)
      | Action_Dump \<Rightarrow>
          and_then (note Level_Status ''Filter action: requesting a thread dump.'') (\<lambda>_.
          and_then (request_thread_dump S) (\<lambda>_. ret None))
      | Action_Gc \<Rightarrow>
          and_then (note Level_Status ''Filter action: requesting garbage collection.'') (\<lambda>_.
          and_then (send_if_connected S GC ''gc'') (\<lambda>_. ret None))
      | Action_Restart \<Rightarrow>
          and_then (note Level_Status ''Filter action: restarting the JVM.'') (\<lambda>_.
          and_then (emit (RestartRequested
            (''wrapper.filter.action.'' @ show_nat (match_index matched) @ ''=RESTART''))) (\<lambda>_.
            restart_with S 0 False))
      | Action_Shutdown \<Rightarrow>
          and_then (note Level_Status ''Filter action: stopping.'') (\<lambda>_.
          and_then (stop_with S 0) (\<lambda>outcome. ret (Some outcome)))
      | Action_Pause \<Rightarrow>
          and_then (peek paused_in_place) (\<lambda>paused.
            if pausable S \<and> \<not> paused then
              and_then (note Level_Status ''Filter action: pausing.'') (\<lambda>_. pause S)
            else ret None)
      | Action_Resume \<Rightarrow>
          and_then (peek paused_in_place) (\<lambda>paused.
            if paused then
              and_then (note Level_Status ''Filter action: resuming.'') (\<lambda>_.
              and_then (resume S) (\<lambda>_. ret None))
            else ret None))"

definition apply_filter_matches ::
    "supervisor \<Rightarrow> filter_match list \<Rightarrow> (jvm_run, run_outcome option) io" where
  "apply_filter_matches S matches =
     first_outcome (\<lambda>matched.
       first_outcome (apply_filter_action S matched) (match_actions matched)) matches"

definition handle_output_line :: "supervisor \<Rightarrow> bytes \<Rightarrow> (jvm_run, run_outcome option) io" where
  "handle_output_line S line =
     and_then (record_output S line) (\<lambda>matches. apply_filter_matches S matches)"

definition handle_output_batch :: "supervisor \<Rightarrow> bytes \<Rightarrow> (jvm_run, run_outcome option) io" where
  "handle_output_batch S line =
     and_then (handle_output_line S line) (\<lambda>outcome.
       case outcome of
         Some _ \<Rightarrow> ret outcome
       | None \<Rightarrow>
           and_then (ask (a_batch (sup_answers S))) (\<lambda>batch.
             first_outcome (handle_output_line S) (take output_batch batch)))"

subsection \<open>Controls\<close>

definition handle_control :: "supervisor \<Rightarrow> control \<Rightarrow> (jvm_run, run_outcome option) io" where
  "handle_control S c =
     (case c of
       Control_Stop \<Rightarrow> and_then (stop_with S 0) (\<lambda>outcome. ret (Some outcome))
     | Control_ConsoleInterrupt \<Rightarrow>
         and_then (log_line S Level_Status From_Wrapper ''Console interrupt received; stopping.'') (\<lambda>_.
         and_then (stop_with S 0) (\<lambda>outcome. ret (Some outcome)))
     | Control_ConsoleBreak \<Rightarrow>
         and_then (log_line S Level_Status From_Wrapper
           ''Console break received; requesting a thread dump.'') (\<lambda>_.
         and_then (request_thread_dump S) (\<lambda>_. ret None))
     | Control_Pause \<Rightarrow>
         and_then (peek paused_in_place) (\<lambda>paused.
           if pausable S \<and> \<not> paused then pause S else ret None)
     | Control_Resume \<Rightarrow>
         and_then (peek paused_in_place) (\<lambda>paused.
           if paused then and_then (resume S) (\<lambda>_. ret None) else ret None)
     | Control_ThreadDump \<Rightarrow>
         and_then (log_line S Level_Status From_Wrapper ''Requesting a thread dump from the JVM.'') (\<lambda>_.
         and_then (request_thread_dump S) (\<lambda>_. ret None))
     | Control_HeapDump \<Rightarrow> and_then (start_heap_dump S) (\<lambda>_. ret None)
     | Control_User n \<Rightarrow>
         and_then (send_if_connected S SERVICE_CONTROL (show_nat (unat n))) (\<lambda>_. ret None))"

subsection \<open>Packets of the JVM\<close>

definition log_jvm_exit :: "supervisor \<Rightarrow> int option \<Rightarrow> (jvm_run, unit) io" where
  "log_jvm_exit S exit_code =
     and_then (peek run_jvm_id) (\<lambda>jid.
     and_then (emit (JvmStopped jid exit_code)) (\<lambda>_.
       log_line S Level_Status From_Wrapper
         (''JVM #'' @ show_nat (unat jid) @ '' exited with code ''
          @ (case exit_code of None \<Rightarrow> ''unknown'' | Some ec \<Rightarrow> show_int ec))))"

definition saturating_mul :: "u64 \<Rightarrow> u64 \<Rightarrow> u64" where
  "saturating_mul a b = (if unat a * unat b < 2 ^ 64 then a * b else - 1)"

definition wait_hint :: "u64 \<Rightarrow> packet \<Rightarrow> u64" where
  "wait_hint startup p =
     (case parse_word (trim (message_lossy p)) of
       Some n \<Rightarrow> n
     | None \<Rightarrow> saturating_mul startup 1000)"

definition requested_code :: "packet \<Rightarrow> int" where
  "requested_code p = (case parse_i32 (trim (message_lossy p)) of Some n \<Rightarrow> n | None \<Rightarrow> 0)"

definition handle_started :: "supervisor \<Rightarrow> (jvm_run, unit) io" where
  "handle_started S =
     and_then (update (\<lambda>w. w\<lparr>started := True, startup_deadline := None\<rparr>)) (\<lambda>_.
     and_then (peek (\<lambda>w. w)) (\<lambda>w.
     and_then (emit (JvmStarted (run_jvm_id w) (run_pid w))) (\<lambda>_.
       if run_resuming w then emit ServiceResumed else ret ())))"

definition handle_start_pending :: "supervisor \<Rightarrow> packet \<Rightarrow> (jvm_run, unit) io" where
  "handle_start_pending S p =
     and_then (peek startup_seconds) (\<lambda>startup.
       if 0 < startup then
         and_then (now S) (\<lambda>t.
         and_then (plus_time t (from_millis (unat (max (wait_hint startup p) 1)))) (\<lambda>deadline.
           update (\<lambda>w. w\<lparr>startup_deadline := Some deadline\<rparr>)))
       else ret ())"

definition handle_packet :: "supervisor \<Rightarrow> packet \<Rightarrow> (jvm_run, run_outcome option) io" where
  "handle_packet S p =
     (if code p = STARTED then and_then (handle_started S) (\<lambda>_. ret None)
      else if code p = START_PENDING then and_then (handle_start_pending S p) (\<lambda>_. ret None)
      else if code p = PING then ret None
      else if code p = RESTART then
        and_then (emit (RestartRequested ''requested by the application'')) (\<lambda>_. restart_with S 0 False)
      else if code p = STOP then
        and_then (shutdown_and_drain S (requested_code p)) (\<lambda>_.
        and_then (try_wait (sup_answers S)) (\<lambda>status.
        and_then (log_jvm_exit S (case status of None \<Rightarrow> None | Some ec \<Rightarrow> ec)) (\<lambda>_.
        and_then (elapsed S) (\<lambda>t. ret (Some (Outcome_Exited t (requested_code p)))))))
      else if code p = STOP_PENDING \<or> code p = STOPPED then ret None
      else if LOG_BASE + 1 \<le> code p \<and> code p \<le> LOG_BASE + 8 then
        (case from_protocol_code (code p) of
          Some level \<Rightarrow> and_then (jvm_log S level (message p)) (\<lambda>_. ret None)
        | None \<Rightarrow> ret None)
      else ret None)"

definition handle_protocol :: "supervisor \<Rightarrow> receive_event \<Rightarrow> (jvm_run, run_outcome option) io" where
  "handle_protocol S event =
     (case event of
       Disconnected \<Rightarrow> and_then (mark_disconnected S) (\<lambda>_. ret None)
     | Packet_Received p \<Rightarrow>
         and_then (now S) (\<lambda>t.
         and_then (update (\<lambda>w. w\<lparr>last_ping_response := t\<rparr>)) (\<lambda>_. handle_packet S p)))"

subsection \<open>The ticker\<close>

text \<open>The exit of the JVM.\<close>

definition tick_exit :: "supervisor \<Rightarrow> (jvm_run, run_outcome option) io" where
  "tick_exit S =
     and_then (try_wait (sup_answers S)) (\<lambda>status.
       case status of
         None \<Rightarrow> ret None
       | Some exit_code \<Rightarrow>
           and_then (drain_remaining_output S) (\<lambda>_.
           and_then (log_jvm_exit S exit_code) (\<lambda>_.
           and_then (elapsed S) (\<lambda>t.
             ret (Some (Outcome_Exited t (case exit_code of Some n \<Rightarrow> n | None \<Rightarrow> 1)))))))"

text \<open>The control channel: polling the listener, and the packets that open a connection.\<close>

definition poll_listener :: "supervisor \<Rightarrow> (jvm_run, connection option) io" where
  "poll_listener S =
     and_then (ask (a_poll (sup_answers S))) (\<lambda>p.
     and_then (peek (\<lambda>w. w)) (\<lambda>w.
       case poll_authentication (poll_accepts p) (poll_now p) (poll_answers p) (poll_setup p)
              (run_key w) (max (from_secs (startup_seconds w)) min_handshake_timeout) (run_listener w) of
         (r, l) \<Rightarrow> and_then (update (\<lambda>w. w\<lparr>run_listener := l\<rparr>)) (\<lambda>_. from_result r)))"

definition logfile_path :: "supervisor \<Rightarrow> jvm_run \<Rightarrow> string" where
  "logfile_path S w =
     (let path = log_path (fst (logs w)) in
      case canonicalize (sup_platform S) path of Inr p \<Rightarrow> p | Inl _ \<Rightarrow> path)"

definition greet :: "supervisor \<Rightarrow> connection \<Rightarrow> (jvm_run, unit) io" where
  "greet S connection =
     and_then (connection_send S LOW_LOG_LEVEL (show_nat (unat (low_log_level (sup_config S))))) (\<lambda>_.
     and_then (peek (\<lambda>w. w)) (\<lambda>w.
     and_then (connection_send S LOGFILE (display (logfile_path S w))) (\<lambda>_.
     and_then (connection_send S PROPERTIES (protocol_properties (sup_config S))) (\<lambda>_.
     and_then (connection_send S START ''start'') (\<lambda>_.
     and_then (peek ever_connected) (\<lambda>again.
     and_then
       (if again then log_line S Level_Debug From_Protocol ''JVM control channel reconnected.''
        else ret ()) (\<lambda>_.
     and_then (update (\<lambda>w. w\<lparr>ever_connected := True\<rparr>)) (\<lambda>_.
     and_then (now S) (\<lambda>t.
     and_then (update (\<lambda>w. w\<lparr>last_ping_response := t, run_connection := Some connection\<rparr>)) (\<lambda>_.
       emit ProtocolAuthenticated))))))))))"

definition tick_connection :: "supervisor \<Rightarrow> (jvm_run, unit) io" where
  "tick_connection S =
     and_then (peek run_connection) (\<lambda>connection.
       if connection \<noteq> None then ret ()
       else and_then (poll_listener S) (\<lambda>r.
         case r of None \<Rightarrow> ret () | Some c \<Rightarrow> greet S c))"

text \<open>The start-up deadline.\<close>

definition startup_message :: "jvm_run \<Rightarrow> string" where
  "startup_message w =
     (if ever_connected w then ''The application did not report started within ''
      else ''The JVM did not connect to the control channel within '')
     @ show_nat (unat (startup_seconds w)) @ '' seconds; restarting.''"

definition startup_expired :: "nat \<Rightarrow> jvm_run \<Rightarrow> bool" where
  "startup_expired t w \<longleftrightarrow>
     \<not> started w \<and> (case startup_deadline w of None \<Rightarrow> False | Some deadline \<Rightarrow> deadline \<le> t)"

definition tick_startup :: "supervisor \<Rightarrow> nat \<Rightarrow> (jvm_run, run_outcome option) io" where
  "tick_startup S t =
     and_then (peek (\<lambda>w. w)) (\<lambda>w.
       if startup_expired t w then
         and_then (log_line S Level_Error From_Wrapper (startup_message w)) (\<lambda>_. restart_with S 1 True)
       else ret None)"

text \<open>The pings and the watchdog.\<close>

definition tick_ping :: "supervisor \<Rightarrow> nat \<Rightarrow> (jvm_run, unit) io" where
  "tick_ping S t =
     and_then (peek (\<lambda>w. w)) (\<lambda>w.
       if run_connection w \<noteq> None \<and> next_ping w \<le> t then
         and_then (send_if_connected S PING (if started w then ''ping'' else ''silent'')) (\<lambda>_.
         and_then (plus_time t (ping_interval w)) (\<lambda>next.
           update (\<lambda>w. w\<lparr>next_ping := next\<rparr>)))
       else ret ())"

definition watchdog_allowance :: "jvm_run \<Rightarrow> (jvm_run, nat) io" where
  "watchdog_allowance w =
     and_then (plus_time (ping_timeout w) (ping_interval w)) (\<lambda>d.
       plus_time d (case heap_dump_task w of None \<Rightarrow> 0 | Some task \<Rightarrow> task_timeout task))"

definition tick_watchdog :: "supervisor \<Rightarrow> nat \<Rightarrow> (jvm_run, run_outcome option) io" where
  "tick_watchdog S t =
     and_then (peek (\<lambda>w. w)) (\<lambda>w.
       if 0 < ping_timeout w \<and> ever_connected w then
         and_then (watchdog_allowance w) (\<lambda>allowed.
           if allowed < t - last_ping_response w then
             and_then (log_line S Level_Error From_Wrapper
               (''No ping response from the JVM for '' @ show_nat (allowed div 1000000000)
                @ '' seconds; restarting.'')) (\<lambda>_. restart_with S 1 True)
           else ret None)
       else ret None)"

definition tick :: "supervisor \<Rightarrow> (jvm_run, run_outcome option) io" where
  "tick S =
     and_then (poll_heap_dump S) (\<lambda>_.
     and_then (tick_exit S) (\<lambda>exited.
       case exited of
         Some _ \<Rightarrow> ret exited
       | None \<Rightarrow>
           and_then (tick_connection S) (\<lambda>_.
           and_then (now S) (\<lambda>t.
           and_then (tick_startup S t) (\<lambda>expired.
             case expired of
               Some _ \<Rightarrow> ret expired
             | None \<Rightarrow> and_then (tick_ping S t) (\<lambda>_. tick_watchdog S t))))))"

subsection \<open>The loop\<close>

text \<open>
  A closed or missing channel is never selected: an answer that names one is read as the
  ticker's.
\<close>

definition event_round :: "supervisor \<Rightarrow> (jvm_run, run_outcome option) io" where
  "event_round S =
     and_then (peek (\<lambda>w. w)) (\<lambda>w.
     and_then (ask (a_select (sup_answers S))) (\<lambda>selected.
       case selected of
         Select_Output line \<Rightarrow>
           if output_open w then
             (case line of
               Some l \<Rightarrow> handle_output_batch S l
             | None \<Rightarrow> and_then (update (\<lambda>w. w\<lparr>output_open := False\<rparr>)) (\<lambda>_. ret None))
           else tick S
       | Select_Control c \<Rightarrow>
           (case c of
             Some k \<Rightarrow> handle_control S k
           | None \<Rightarrow> and_then (stop_with S 0) (\<lambda>outcome. ret (Some outcome)))
       | Select_Protocol event \<Rightarrow>
           if run_connection w \<noteq> None then
             (case event of
               Some e \<Rightarrow> handle_protocol S e
             | None \<Rightarrow> and_then (mark_disconnected S) (\<lambda>_. ret None))
           else tick S
       | Select_Tick \<Rightarrow> tick S))"

definition event_loop :: "supervisor \<Rightarrow> (jvm_run, run_outcome) io" where
  "event_loop S = loop (event_round S)"

subsection \<open>Reading the output of the JVM\<close>

definition max_output_line :: nat where
  "max_output_line = 64 * 1024"

text \<open>
  The reader thread over the buffers its pipe fills. What is left of a buffer after a line
  stays in it, so one buffer may give several lines; \<open>line\<close> is the line begun.
\<close>

definition take_count :: "bytes \<Rightarrow> bytes \<Rightarrow> nat" where
  "take_count line buffer =
     (let before = takeWhile (\<lambda>b. b \<noteq> 0x0A) buffer;
          n = (if length before < length buffer then Suc (length before) else length buffer)
      in min n (max (max_output_line - length line) 1))"

definition pop_line_end :: "bytes \<Rightarrow> bytes" where
  "pop_line_end line =
     (if line \<noteq> [] \<and> last line = 0x0A then
        (let l = butlast line in if l \<noteq> [] \<and> last l = 0x0D then butlast l else l)
      else line)"

definition line_complete :: "bytes \<Rightarrow> bool" where
  "line_complete line \<longleftrightarrow> line \<noteq> [] \<and> last line = 0x0A"

function split_buffer :: "bytes \<Rightarrow> bytes \<Rightarrow> bytes list \<times> bytes" where
  "split_buffer line buffer =
     (if buffer = [] then ([], line)
      else
        (let n = take_count line buffer; line1 = line @ take n buffer; rest = drop n buffer in
         if line_complete line1 \<or> max_output_line \<le> length line1 then
           (case split_buffer [] rest of (ls, l) \<Rightarrow> (pop_line_end line1 # ls, l))
         else split_buffer line1 rest))"
  by pat_completeness auto
termination
  by (relation "measure (\<lambda>(line, buffer). length buffer)") (auto simp: take_count_def Let_def)

declare split_buffer.simps [simp del]

fun read_output :: "bytes \<Rightarrow> read_result list \<Rightarrow> bytes list" where
  "read_output line [] = []"
| "read_output line (Read_Bytes bs # rs) =
     (if bs = [] then (if line = [] then [] else [line])
      else case split_buffer line bs of (ls, l) \<Rightarrow> ls @ read_output l rs)"
| "read_output line (Read_Failed e # rs) =
     (if kind e = Interrupted then read_output line rs
      else if line = [] then [] else [line])"

end
