(* ===== verification/Lifecycle.thy ===== *)
theory Lifecycle
  imports Event_Loop
begin

section \<open>The life of the supervisor: \<open>Supervisor::run\<close>\<close>

text \<open>
  One invocation of the JVM (\<open>run_once\<close>) and the loop over invocations (\<open>run\<close>), with the
  restart throttle, the restart delay, the pauses and the pid files, which are removed when
  the function is left, whatever the way.
\<close>

subsection \<open>Identity of the product: \<open>src/lib.rs\<close>\<close>

definition product_name :: string where
  "product_name = ''Java Service Steward''"

definition product_architecture :: string where
  "product_architecture = ''64-bit''"

definition product_banner :: string where
  "product_banner = product_name @ '' '' @ product_architecture @ '' '' @ product_version"

subsection \<open>Waiting for controls\<close>

definition stops_waiting :: "control recv \<Rightarrow> bool" where
  "stops_waiting r \<longleftrightarrow>
     r \<in> {Received Control_Stop, Received Control_ConsoleInterrupt, Recv_Closed}"

definition restart_wait_round :: "supervisor \<Rightarrow> nat \<Rightarrow> ('z world_scheme, bool option) io" where
  "restart_wait_round S deadline =
     and_then (now S) (\<lambda>t.
       if deadline \<le> t then ret (Some False)
       else and_then (ask (a_control (sup_answers S))) (\<lambda>r.
         ret (if stops_waiting r then Some True else None)))"

definition wait_for_restart :: "supervisor \<Rightarrow> nat \<Rightarrow> ('z world_scheme, bool) io" where
  "wait_for_restart S delay =
     and_then (now S) (\<lambda>t.
     and_then (plus_time t delay) (\<lambda>deadline. loop (restart_wait_round S deadline)))"

definition wait_while_paused :: "supervisor \<Rightarrow> ('z world_scheme, paused_outcome) io" where
  "wait_while_paused S =
     loop (and_then (ask (a_control (sup_answers S))) (\<lambda>r.
       ret (if r = Received Control_Resume then Some Paused_Resume
            else if stops_waiting r then Some Paused_Stop else None)))"

subsection \<open>One invocation\<close>

definition drop_pid_file :: "pid_file option \<Rightarrow> ('z world_scheme, unit) io" where
  "drop_pid_file f = (case f of None \<Rightarrow> ret () | Some p \<Rightarrow> log_action (pid_file_drop p))"

definition launch_ports ::
    "supervisor \<Rightarrow> error + (u16 option \<times> u16 \<times> u16)" where
  "launch_ports S =
     bind_result (optional_port (sup_config S) ''wrapper.port'') (\<lambda>configured.
     bind_result (port_or (sup_config S) ''wrapper.port.min'' 32000) (\<lambda>lo.
     bind_result (port_or (sup_config S) ''wrapper.port.max'' 32999) (\<lambda>hi.
       Inr (configured, lo, hi))))"

definition launch_of :: "supervisor \<Rightarrow> u32 \<Rightarrow> string \<Rightarrow> listener \<Rightarrow> error + backend_launch" where
  "launch_of S jid k l =
     bind_result (optional_port (sup_config S) ''wrapper.jvm.port'') (\<lambda>p.
     bind_result (port_or (sup_config S) ''wrapper.jvm.port.min'' 31000) (\<lambda>lo.
     bind_result (port_or (sup_config S) ''wrapper.jvm.port.max'' 31999) (\<lambda>hi.
       Inr \<lparr>key = k, backend_port = port l, jvm_port = p, jvm_port_min = lo, jvm_port_max = hi,
            jvm_id = jid, service = sup_service S\<rparr>)))"

text \<open>The listener, the key and the command of a launch.\<close>

definition prepare_launch ::
    "supervisor \<Rightarrow> u32 \<Rightarrow> (world, listener \<times> string \<times> jvm_command) io" where
  "prepare_launch S jid =
     and_then (from_result (lift_error (launch_ports S))) (\<lambda>(configured, lo, hi).
     and_then (ask (a_bind (sup_answers S))) (\<lambda>try_bind.
     and_then (from_result (lift_error (bind try_bind configured lo hi))) (\<lambda>l.
     and_then (ask (a_random (sup_answers S))) (\<lambda>fill.
     and_then (from_result (lift_error (generate_key fill))) (\<lambda>k.
     and_then (from_result (lift_error (launch_of S jid k l))) (\<lambda>launch.
     and_then (from_result (lift_error (build (sup_platform S) (sup_config S) launch (sup_args S)))) (\<lambda>cmd.
       ret (l, k, cmd))))))))"

definition log_launch :: "supervisor \<Rightarrow> u32 \<Rightarrow> jvm_command \<Rightarrow> (world, unit) io" where
  "log_launch S jid cmd =
     and_then (case launch_note cmd of
                 None \<Rightarrow> ret () | Some note \<Rightarrow> log_line S Level_Info From_Wrapper note) (\<lambda>_.
     (let level = java_command_log_level (sup_config S) in
      and_then (if level \<noteq> Level_None
                then log_line S level From_Wrapper (''Command: '' @ redacted_command_line cmd)
                else ret ()) (\<lambda>_.
        log_line S Level_Status From_Wrapper (''Launching JVM #'' @ show_nat (unat jid)))))"

text \<open>The job object that ends the JVM together with the wrapper; without it a warning is logged.\<close>

definition assign_job :: "supervisor \<Rightarrow> u32 \<Rightarrow> (world, nat option) io" where
  "assign_job S pid =
     (if get_bool (sup_config S) ''jss.java.job_object'' True then
        and_then (attempt (new_job (sup_platform S) (sup_answers S) pid)) (\<lambda>r.
          case r of
            Inr h \<Rightarrow> ret (Some h)
          | Inl e \<Rightarrow>
              and_then (log_line S Level_Warn From_Wrapper
                (''Unable to place the JVM in a job object; child processes may outlive the wrapper: ''
                 @ error_text e)) (\<lambda>_. ret None))
      else ret None)"

definition with_run :: "(world \<Rightarrow> jvm_run) \<Rightarrow> (jvm_run, 'a) io \<Rightarrow> (world, 'a) io" where
  "with_run enter m w =
     (case m (enter w) of None \<Rightarrow> None | Some (r, w') \<Rightarrow> Some (r, world.truncate w'))"

definition supervise ::
    "supervisor \<Rightarrow> u32 \<Rightarrow> bool \<Rightarrow> nat \<Rightarrow> listener \<Rightarrow> string \<Rightarrow> jvm_command \<Rightarrow> u32 \<Rightarrow> pid_file option
      \<Rightarrow> (world, run_outcome) io" where
  "supervise S jid resuming t0 l k cmd pid file =
     (let c = sup_config S;
          startup = get_u64 c ''wrapper.startup.timeout'' 30;
          interval = from_secs (max (get_u64 c ''wrapper.ping.interval'' 5) 1);
          timeout = from_secs (get_u64 c ''wrapper.ping.timeout'' 30)
      in and_then (now S) (\<lambda>t.
         and_then (if 0 < startup
                   then and_then (plus_time t (from_secs startup)) (\<lambda>d. ret (Some d))
                   else ret None) (\<lambda>deadline.
         and_then (plus_time t interval) (\<lambda>first_ping.
           with_run (\<lambda>w. world.extend w (jvm_run.fields jid resuming cmd pid file True l k None False
             t0 False startup deadline interval timeout first_ping t False None))
             (event_loop S)))))"

definition run_once :: "supervisor \<Rightarrow> u32 \<Rightarrow> bool \<Rightarrow> (world, run_outcome) io" where
  "run_once S jid resuming =
     and_then (now S) (\<lambda>t0.
     and_then (prepare_launch S jid) (\<lambda>(l, k, cmd).
     and_then (log_launch S jid cmd) (\<lambda>_.
     and_then (ask (a_spawn (sup_answers S))) (\<lambda>spawned.
       case spawned of
         Inl e \<Rightarrow>
           and_then (log_line S Level_Error From_Wrapper
             (''Unable to launch the JVM: '' @ error_text (Error_Io e))) (\<lambda>_.
           and_then (now S) (\<lambda>t. ret (Outcome_Restart (t - t0) True 1)))
       | Inr pid \<Rightarrow>
           and_then (update (\<lambda>w. w\<lparr>child_pid := Some pid, child_status := None\<rparr>)) (\<lambda>_.
           and_then (assign_job S pid) (\<lambda>job.
           and_then (attempt (log_action
             (pid_file_create (sup_platform S) (sup_config S) ''wrapper.java.pidfile'' pid False))) (\<lambda>file.
             case file of
               Inl e \<Rightarrow>
                 holding_job job (and_then (terminate_child (sup_answers S)) (\<lambda>_. raise (Failed e)))
             | Inr f \<Rightarrow>
                 finally_do (holding_job job (supervise S jid resuming t0 l k cmd pid f)) (drop_pid_file f))))))))"

subsection \<open>Between invocations\<close>

definition resolve_exit :: "supervisor \<Rightarrow> run_outcome \<Rightarrow> run_outcome" where
  "resolve_exit S outcome =
     (case outcome of
       Outcome_Exited t exit_code \<Rightarrow>
         (case on_exit_action (sup_config S) exit_code of
           Exit_Shutdown \<Rightarrow> Outcome_Stop exit_code
         | Exit_Restart \<Rightarrow> Outcome_Restart t True exit_code
         | Exit_Pause \<Rightarrow> if pausable S then Outcome_Pause else Outcome_Restart t True exit_code)
     | _ \<Rightarrow> outcome)"

definition restarts_disabled :: "supervisor \<Rightarrow> bool \<Rightarrow> bool" where
  "restarts_disabled S automatic \<longleftrightarrow>
     get_bool (sup_config S) ''wrapper.disable_restarts'' False
     \<or> automatic \<and> get_bool (sup_config S) ''wrapper.disable_restarts.automatic'' False"

definition saturating_add1 :: "'a::len word \<Rightarrow> 'a word" where
  "saturating_add1 n = (if n = - 1 then n else n + 1)"

definition successful_seconds :: "supervisor \<Rightarrow> u64" where
  "successful_seconds S = get_u64 (sup_config S) ''wrapper.successful_invocation_time'' 300"

definition max_failed :: "supervisor \<Rightarrow> u64" where
  "max_failed S = max (get_u64 (sup_config S) ''wrapper.max_failed_invocations'' 5) 1"

definition failed_after :: "supervisor \<Rightarrow> nat \<Rightarrow> u64 \<Rightarrow> u64" where
  "failed_after S t failed =
     (if from_secs (successful_seconds S) \<le> t then 0 else saturating_add1 failed)"

definition stop_marker :: "supervisor \<Rightarrow> int \<Rightarrow> ('z world_scheme, int option) io" where
  "stop_marker S exit_code =
     and_then (log_line S Level_Status From_Wrapper stopped_marker) (\<lambda>_. ret (Some exit_code))"

definition giving_up_text :: "supervisor \<Rightarrow> u64 \<Rightarrow> string" where
  "giving_up_text S failed =
     show_nat (unat failed) @ '' consecutive JVM launches ended within ''
     @ show_nat (unat (successful_seconds S)) @ '' seconds; giving up.''"

definition after_restart :: "supervisor \<Rightarrow> nat \<Rightarrow> bool \<Rightarrow> int \<Rightarrow> (lifecycle \<times> world, int option) io" where
  "after_restart S t automatic exit_code =
     and_then (update (\<lambda>(lc, w). (lc\<lparr>lc_resuming := False\<rparr>, w))) (\<lambda>_.
       if restarts_disabled S automatic then
         and_then (on_world (log_line S Level_Status From_Wrapper
           (if automatic then ''Automatic JVM restarts are disabled; stopping.''
            else ''JVM restarts are disabled; stopping.''))) (\<lambda>_.
           on_world (stop_marker S exit_code))
       else
         and_then (update (\<lambda>(lc, w). (lc\<lparr>lc_failed := failed_after S t (lc_failed lc)\<rparr>, w))) (\<lambda>_.
         and_then (peek (\<lambda>(lc, w). lc_failed lc)) (\<lambda>failed.
           if max_failed S \<le> failed then
             and_then (on_world (log_line S Level_Fatal From_Wrapper (giving_up_text S failed))) (\<lambda>_.
             and_then (on_world (log_line S Level_Fatal From_Wrapper
               ''Check the application configuration and the log above.'')) (\<lambda>_.
               on_world (stop_marker S exit_code)))
           else
             and_then (update (\<lambda>(lc, w). (lc\<lparr>lc_jvm_id := saturating_add1 (lc_jvm_id lc)\<rparr>, w))) (\<lambda>_.
             and_then (on_world (wait_for_restart S
               (from_secs (get_u64 (sup_config S) ''wrapper.restart.delay'' 5)))) (\<lambda>stopped.
               if stopped then on_world (stop_marker S 0) else ret None)))))"

definition after_pause :: "supervisor \<Rightarrow> (lifecycle \<times> world, int option) io" where
  "after_pause S =
     and_then (update (\<lambda>(lc, w). (lc\<lparr>lc_failed := 0\<rparr>, w))) (\<lambda>_.
     and_then (on_world (wait_while_paused S)) (\<lambda>outcome.
       case outcome of
         Paused_Resume \<Rightarrow>
           and_then (update (\<lambda>(lc, w).
             (lc\<lparr>lc_jvm_id := saturating_add1 (lc_jvm_id lc), lc_resuming := True\<rparr>, w))) (\<lambda>_. ret None)
       | Paused_Stop \<Rightarrow> on_world (stop_marker S 0)))"

text \<open>
  The last case is unreachable in the source (\<open>resolve_exit\<close> leaves no exit); it panics.
\<close>

definition after_outcome :: "supervisor \<Rightarrow> run_outcome \<Rightarrow> (lifecycle \<times> world, int option) io" where
  "after_outcome S outcome =
     (case resolve_exit S outcome of
       Outcome_Stop exit_code \<Rightarrow> on_world (stop_marker S exit_code)
     | Outcome_Pause \<Rightarrow> after_pause S
     | Outcome_Restart t automatic exit_code \<Rightarrow> after_restart S t automatic exit_code
     | Outcome_Exited t exit_code \<Rightarrow> raise Panicked)"

definition write_id_file :: "supervisor \<Rightarrow> (lifecycle \<times> world, unit) io" where
  "write_id_file S =
     and_then (peek fst) (\<lambda>lc.
     and_then (attempt
       (case lc_id_file lc of
         Some f \<Rightarrow>
           and_then (on_world (log_action (pid_file_update (lc_jvm_id lc) f))) (\<lambda>f'.
             update (\<lambda>(lc, w). (lc\<lparr>lc_id_file := Some f'\<rparr>, w)))
       | None \<Rightarrow>
           and_then (on_world (log_action (pid_file_create (sup_platform S) (sup_config S)
             ''wrapper.java.idfile'' (lc_jvm_id lc) False))) (\<lambda>f.
             update (\<lambda>(lc, w). (lc\<lparr>lc_id_file := f\<rparr>, w))))) (\<lambda>result.
       case result of
         Inr _ \<Rightarrow> ret ()
       | Inl e \<Rightarrow> on_world (log_line S Level_Warn From_Wrapper
           (''Unable to write wrapper.java.idfile: '' @ error_text e))))"

definition launch_round :: "supervisor \<Rightarrow> (lifecycle \<times> world, run_outcome) io" where
  "launch_round S =
     and_then (write_id_file S) (\<lambda>_.
     and_then (peek fst) (\<lambda>lc.
     and_then (if 1 < lc_jvm_id lc
               then on_world (log_action (roll_for_jvm_restart (sup_platform S))) else ret ()) (\<lambda>_.
     and_then (on_world (emit (JvmLaunching (lc_jvm_id lc)))) (\<lambda>_.
       on_world (run_once S (lc_jvm_id lc) (lc_resuming lc))))))"

definition lifecycle_round :: "supervisor \<Rightarrow> (lifecycle \<times> world, int option) io" where
  "lifecycle_round S = and_then (launch_round S) (after_outcome S)"

subsection \<open>The whole run\<close>

definition open_logger :: "supervisor \<Rightarrow> (world, unit) io" where
  "open_logger S w =
     (case from_config_with_console (sup_platform S) (sup_config S) (\<not> sup_service S) (snd (logs w)) of
       (Inl e, d) \<Rightarrow> Some (Inl (Failed e), w\<lparr>logs := (fst (logs w), d)\<rparr>)
     | (Inr W, d) \<Rightarrow> Some (Inr (), w\<lparr>logs := (W, d)\<rparr>))"

definition console_title :: "config \<Rightarrow> string option" where
  "console_title c =
     (case get c ''wrapper.console.title.windows'' of
       Some t \<Rightarrow> Some t | None \<Rightarrow> get c ''wrapper.console.title'')"

text \<open>A failure of the console is a warning.\<close>

definition or_warn :: "supervisor \<Rightarrow> string \<Rightarrow> (world, unit) io \<Rightarrow> (world, unit) io" where
  "or_warn S what m =
     and_then (attempt m) (\<lambda>r.
       case r of
         Inr _ \<Rightarrow> ret ()
       | Inl e \<Rightarrow> log_line S Level_Warn From_Wrapper (what @ error_text e))"

definition log_warning :: "supervisor \<Rightarrow> warning \<Rightarrow> (world, unit) io" where
  "log_warning S v =
     log_line S (case warning_level v of Info_Level \<Rightarrow> Level_Info | Warn_Level \<Rightarrow> Level_Warn) From_Wrapper
       (warning_message v)"

definition announce :: "supervisor \<Rightarrow> (world, unit) io" where
  "announce S =
     and_then
       (if sup_service S then
          or_warn S ''Unable to allocate the service console: ''
            (prepare_service_console (sup_platform S) (sup_answers S)
              (get_bool (sup_config S) ''wrapper.ntservice.generate_console'' True))
        else ret ()) (\<lambda>_.
     and_then
       (if console_title (sup_config S) \<noteq> None then
          or_warn S ''Unable to set the console title: '' (set_console_title (sup_platform S) (sup_answers S))
        else ret ()) (\<lambda>_.
     and_then (log_line S Level_Status From_Wrapper
       (if sup_service S then started_as_service_marker else started_as_console_marker)) (\<lambda>_.
     and_then (log_line S Level_Status From_Wrapper product_banner) (\<lambda>_.
     and_then (log_line S Level_Status From_Wrapper []) (\<lambda>_.
       for_all (log_warning S) (warnings (sup_config S)))))))"

text \<open>Waiting before the first launch: \<open>Inl\<close> the exit code, \<open>Inr\<close> whether it resumes.\<close>

definition before_launch :: "supervisor \<Rightarrow> (world, int + bool) io" where
  "before_launch S =
     and_then
       (if get_bool (sup_config S) ''wrapper.pause_on_startup'' False \<and> pausable S then
          and_then (emit ServicePaused) (\<lambda>_.
          and_then (wait_while_paused S) (\<lambda>outcome. ret (Some outcome)))
        else ret None) (\<lambda>paused.
       if paused = Some Paused_Stop then and_then (stop_marker S 0) (\<lambda>_. ret (Inl 0))
       else
         (let delay = startup_delay (sup_config S) (sup_service S) in
          and_then (if 0 < delay then wait_for_restart S delay else ret False) (\<lambda>stopped.
            if stopped then and_then (stop_marker S 0) (\<lambda>_. ret (Inl 0))
            else ret (Inr (paused = Some Paused_Resume)))))"

definition initial_lifecycle :: "bool \<Rightarrow> lifecycle" where
  "initial_lifecycle resuming =
     \<lparr>lc_jvm_id = 1, lc_id_file = None, lc_failed = 0, lc_resuming = resuming\<rparr>"

definition drop_id_file :: "(lifecycle \<times> world, unit) io" where
  "drop_id_file = and_then (peek fst) (\<lambda>lc. on_world (drop_pid_file (lc_id_file lc)))"

definition run :: "supervisor \<Rightarrow> (world, int) io" where
  "run S =
     and_then (log_action (pid_file_create (sup_platform S) (sup_config S) ''wrapper.pidfile''
       (process_id (sup_platform S)) (get_bool (sup_config S) ''wrapper.pidfile.strict'' False))) (\<lambda>file.
       finally_do
         (and_then (emit WrapperStarted) (\<lambda>_.
          and_then (open_logger S) (\<lambda>_.
          and_then (announce S) (\<lambda>_.
          and_then (before_launch S) (\<lambda>r.
            case r of
              Inl exit_code \<Rightarrow> ret exit_code
            | Inr resuming \<Rightarrow>
                with_local (initial_lifecycle resuming)
                  (finally_do (loop (lifecycle_round S)) drop_id_file))))))
         (drop_pid_file file))"

end
