(* ===== verification/Supervisor_Frame.thy ===== *)
theory Supervisor_Frame
  imports Lifecycle
begin

section \<open>What the event loop leaves alone\<close>

text \<open>
  A property of the whole event loop is proved once, for every reflexive and transitive
  relation between the states of an invocation that the elementary steps maintain: asking the
  world, logging, publishing, noticing an exit, sending a packet, and the assignments of the
  handlers. The locale holds these steps as its laws and derives that the loop maintains the
  relation; the interpretations after it are the facts the properties rest on.
\<close>

subsection \<open>Frames of pairs and of results\<close>

lemma frame_snd: "frame R \<Longrightarrow> frame (\<lambda>x y. R (snd x) (snd y))"
  by (simp add: frame_def)

lemma on_world_frame:
  "maintains R m \<Longrightarrow> maintains (\<lambda>x y. R (snd x) (snd y)) (on_world m)"
  by (auto simp: maintains_def on_world_def split: option.splits)

lemma with_local_frame:
  "maintains (\<lambda>x y. R (snd x) (snd y)) m \<Longrightarrow> maintains R (with_local v m)"
  by (fastforce simp: maintains_def with_local_def split: option.splits)

lemma update_frame: "(\<And>w. R w (g w)) \<Longrightarrow> maintains R (update g)"
  by (simp add: maintains_def)

lemma log_action_frame: "(\<And>w l. R w (w\<lparr>logs := l\<rparr>)) \<Longrightarrow> maintains R (log_action m)"
  by (auto simp: maintains_def log_action_def split: prod.splits)

lemma ask_frame: "(\<And>w. R w (w\<lparr>steps := Suc (steps w)\<rparr>)) \<Longrightarrow> maintains R (ask f)"
  by (simp add: maintains_def)

subsection \<open>The interface\<close>

locale run_calls = frame R for R :: "jvm_run \<Rightarrow> jvm_run \<Rightarrow> bool" +
  fixes S :: supervisor
  assumes steps_law: "R w (w\<lparr>steps := Suc (steps w)\<rparr>)"
    and logs_law: "R w (w\<lparr>logs := l\<rparr>)"
    and published_law: "R w (w\<lparr>published := e\<rparr>)"
    and exit_law: "R w (w\<lparr>child_status := Some x\<rparr>)"
    and connection_law: "R w (w\<lparr>run_connection := None\<rparr>)"
begin

lemma asks [intro!]: "maintains R (ask f)"
  by (rule ask_frame, rule steps_law)

lemma asks_ok [intro!]: "maintains R (ask_ok f)"
  unfolding ask_ok_def by (auto split: option.splits)

lemma asks_result [intro!]: "maintains R (ask_result f)"
  unfolding ask_result_def by (auto split: sum.splits)

lemma logs [intro!]: "maintains R (log_action m)"
  by (rule log_action_frame, rule logs_law)

lemma logs_line [intro!]: "maintains R (log_line S level source m)"
  by (auto simp: log_line_def say_def)

lemma emits [intro!]: "maintains R (emit k)"
  unfolding emit_def by (rule update_frame, rule published_law)

lemma nows [intro!]: "maintains R (now S)"
  by (auto simp: now_def)

lemma ending_updates [intro!]:
  "maintains R (update (\<lambda>w. w\<lparr>child_status := Some x\<rparr>))"
  "maintains R (update (\<lambda>w. w\<lparr>run_connection := None\<rparr>))"
  by (rule update_frame, rule exit_law connection_law)+

lemma child_calls [intro!]:
  "maintains R (try_wait A)" "maintains R (wait_child A)" "maintains R (terminate_child A)"
proof -
  show t: "maintains R (try_wait A)" and wait: "maintains R (wait_child A)"
    unfolding try_wait_def wait_child_def
    by (auto intro!: and_then_frame split: option.splits)
  show "maintains R (terminate_child A)"
    unfolding terminate_child_def using t wait by (auto intro!: and_then_frame)
qed

lemma disconnects [intro!]: "maintains R (mark_disconnected S)"
  unfolding mark_disconnected_def by (auto intro!: and_then_frame split: option.splits)

end

text \<open>
  Stopping the JVM only asks, logs, publishes and sends. \<open>START\<close> is sent by the greeting only,
  so a relation may treat the greeting as a whole.
\<close>

locale stopping = run_calls +
  assumes send_law: "c \<noteq> START \<Longrightarrow> maintains R (connection_send S c m)"
begin

lemma sends_if_connected: "c \<noteq> START \<Longrightarrow> maintains R (send_if_connected S c m)"
  unfolding send_if_connected_def
  by (auto intro!: and_then_frame attempt_frame send_law split: option.splits sum.splits)

lemma output_calls [intro!]:
  "maintains R (jvm_log S level line)" "maintains R (record_output S line)"
  "maintains R (drain_remaining_output S)" "maintains R (wait_for_exit S t)"
proof -
  show log: "maintains R (jvm_log S level line)" for level line
    unfolding jvm_log_def by (auto intro!: and_then_frame)
  show rec: "maintains R (record_output S line)" for line
    unfolding record_output_def Let_def by (auto intro!: and_then_frame for_all_frame log)
  show drain: "maintains R (drain_remaining_output S)"
    unfolding drain_remaining_output_def by (auto intro!: and_then_frame loop_frame rec split: recv.splits)
  show "maintains R (wait_for_exit S t)"
    unfolding wait_for_exit_def wait_round_def
    by (auto intro!: and_then_frame loop_frame for_all_frame rec drain split: recv.splits)
qed

text \<open>Diagnostics run a loop with a local variable.\<close>

lemmas pair_frame = frame_snd [OF frame_axioms]

lemmas pair_rules =
  frame.and_then_frame [OF pair_frame] frame.loop_frame [OF pair_frame]
  frame.ret_frame [OF pair_frame] frame.peek_frame [OF pair_frame]

lemma local_update: "maintains (\<lambda>x y. R (snd x) (snd y)) (update (\<lambda>vw. (b, snd vw)))"
  by (rule update_frame) (simp add: refl)

lemma captures:
  assumes "\<And>line. maintains R (record_line line)"
  shows "maintains R (capture_with_jcmd P A cmd t record_line)"
proof -
  have drain: "maintains R (drain_jcmd_output A record_line)"
    unfolding drain_jcmd_output_def by (auto intro!: and_then_frame loop_frame assms split: recv.splits)
  have "maintains (\<lambda>x y. R (snd x) (snd y)) (capture_round A d record_line)" for d
    unfolding capture_round_def
    by (auto intro!: pair_rules on_world_frame assms drain local_update split: recv.splits option.splits)
  then show ?thesis
    unfolding capture_with_jcmd_def
    by (auto intro!: and_then_frame with_local_frame pair_rules split: option.splits)
qed

lemma thread_dump_calls [intro!]:
  "maintains R (publish_warning S m)" "maintains R (request_thread_dump S)"
proof -
  show warn: "maintains R (publish_warning S m)" for m
    unfolding publish_warning_def by (auto intro!: and_then_frame)
  have "maintains R (take_thread_dump S)"
    unfolding take_thread_dump_def send_console_break_def
    by (auto intro!: and_then_frame captures split: dump_method.splits option.splits)
  then show "maintains R (request_thread_dump S)"
    unfolding request_thread_dump_def
    by (auto intro!: and_then_frame attempt_frame warn split: sum.splits)
qed

lemma shutdown_calls [intro!]:
  "maintains R (shutdown_and_drain S n)" "maintains R (stop_with S n)"
  "maintains R (restart_with S n a)"
proof -
  have stop: "STOP \<noteq> START" by (simp add: packet_codes)
  show shut: "maintains R (shutdown_and_drain S n)" for n
    unfolding shutdown_and_drain_def Let_def
    by (auto intro!: and_then_frame sends_if_connected stop)
  show "maintains R (stop_with S n)"
    unfolding stop_with_def by (auto intro!: and_then_frame shut)
  show "maintains R (restart_with S n a)"
    unfolding restart_with_def elapsed_def by (auto intro!: and_then_frame shut)
qed

end

text \<open>The assignments of the handlers, and the greeting.\<close>

locale invocation_base = run_calls +
  assumes listener_law: "R w (w\<lparr>run_listener := a\<rparr>)"
    and task_law: "R w (w\<lparr>heap_dump_task := t\<rparr>)"
    and pause_law: "pausable S \<Longrightarrow> R w (w\<lparr>paused_in_place := True\<rparr>)"
    and resume_law: "R w (w\<lparr>paused_in_place := False\<rparr>)"
    and started_law: "R w (w\<lparr>started := True, startup_deadline := None\<rparr>)"
    and deadline_law: "R w (w\<lparr>startup_deadline := Some d\<rparr>)"
    and response_law: "R w (w\<lparr>last_ping_response := d\<rparr>)"
    and ping_law: "R w (w\<lparr>next_ping := d\<rparr>)"
    and output_law: "R w (w\<lparr>output_open := False\<rparr>)"
    and ever_law: "R w (w\<lparr>ever_connected := True\<rparr>)"
    and connected_law: "R w (w\<lparr>last_ping_response := d, run_connection := Some k\<rparr>)"
begin

lemma updates [intro!]:
  "maintains R (update (\<lambda>w. w\<lparr>run_listener := a\<rparr>))"
  "maintains R (update (\<lambda>w. w\<lparr>heap_dump_task := t\<rparr>))"
  "maintains R (update (\<lambda>w. w\<lparr>paused_in_place := False\<rparr>))"
  "maintains R (update (\<lambda>w. w\<lparr>started := True, startup_deadline := None\<rparr>))"
  "maintains R (update (\<lambda>w. w\<lparr>startup_deadline := Some d\<rparr>))"
  "maintains R (update (\<lambda>w. w\<lparr>last_ping_response := d\<rparr>))"
  "maintains R (update (\<lambda>w. w\<lparr>next_ping := d\<rparr>))"
  "maintains R (update (\<lambda>w. w\<lparr>output_open := False\<rparr>))"
  by (rule update_frame, rule listener_law task_law resume_law started_law
    deadline_law response_law ping_law output_law)+

lemma connects:
  "maintains R (update (\<lambda>w. w\<lparr>ever_connected := True\<rparr>))"
  "maintains R (update (\<lambda>w. w\<lparr>last_ping_response := d, run_connection := Some k\<rparr>))"
  by (rule update_frame, rule ever_law connected_law)+

end

locale invocation = invocation_base + stopping +
  assumes greet_law: "maintains R (greet S k)"
begin

lemma heap_dump_calls [intro!]: "maintains R (start_heap_dump S)" "maintains R (poll_heap_dump S)"
proof -
  have "maintains R (heap_start P A c cmd lf pid jid)" for P A c cmd lf pid jid
    unfolding heap_start_def unique_path_def Let_def
    by (auto intro!: and_then_frame split: option.splits)
  then show "maintains R (start_heap_dump S)"
    unfolding start_heap_dump_def Let_def
    by (auto intro!: and_then_frame attempt_frame thread_dump_calls split: option.splits sum.splits)
  show "maintains R (poll_heap_dump S)"
    unfolding poll_heap_dump_def Let_def
    by (auto intro!: and_then_frame thread_dump_calls split: option.splits heap_poll.split heap_completion.splits)
qed

lemma pause_calls:
  "pausable S \<Longrightarrow> maintains R (pause S)" "maintains R (resume S)"
proof -
  have codes: "PAUSE \<noteq> START" "RESUME \<noteq> START" by (simp_all add: packet_codes)
  show "maintains R (resume S)"
    unfolding resume_def by (auto intro!: and_then_frame sends_if_connected codes)
  assume "pausable S"
  then have "maintains R (update (\<lambda>w. w\<lparr>paused_in_place := True\<rparr>))"
    by (intro update_frame pause_law)
  then show "maintains R (pause S)"
    unfolding pause_def by (auto intro!: and_then_frame sends_if_connected codes)
qed

subsection \<open>The handlers and the loop\<close>

lemma output_handlers [intro!]: "maintains R (handle_output_batch S line)"
proof -
  have "GC \<noteq> START" by (simp add: packet_codes)
  then have "maintains R (apply_filter_action S m a)" for m a
    unfolding apply_filter_action_def Let_def
    by (auto intro!: and_then_frame sends_if_connected pause_calls split: filter_action.splits)
  then have "maintains R (handle_output_line S l)" for l
    unfolding handle_output_line_def apply_filter_matches_def
    by (auto intro!: and_then_frame first_outcome_frame)
  then show ?thesis
    unfolding handle_output_batch_def
    by (auto intro!: and_then_frame first_outcome_frame split: option.splits)
qed

lemma control_handler [intro!]: "maintains R (handle_control S c)"
proof -
  have "SERVICE_CONTROL \<noteq> START" by (simp add: packet_codes)
  then show ?thesis
    unfolding handle_control_def
    by (auto intro!: and_then_frame sends_if_connected pause_calls split: control.splits)
qed

lemma exit_logs [intro!]: "maintains R (log_jvm_exit S x)"
  unfolding log_jvm_exit_def by (auto intro!: and_then_frame)

lemma protocol_handler [intro!]: "maintains R (handle_protocol S e)"
  unfolding handle_protocol_def handle_packet_def handle_started_def handle_start_pending_def elapsed_def
  by (auto intro!: and_then_frame split: receive_event.splits option.splits)

lemma tick_parts:
  "maintains R (tick_exit S)" "maintains R (tick_connection S)" "maintains R (tick_startup S t)"
  "maintains R (tick_ping S t)" "maintains R (tick_watchdog S t)"
proof -
  have "PING \<noteq> START" by (simp add: packet_codes)
  then show "maintains R (tick_ping S t)"
    unfolding tick_ping_def by (auto intro!: and_then_frame sends_if_connected)
  show "maintains R (tick_watchdog S t)" "maintains R (tick_startup S t)"
    unfolding tick_watchdog_def watchdog_allowance_def tick_startup_def by (auto intro!: and_then_frame)
  show "maintains R (tick_exit S)"
    unfolding tick_exit_def elapsed_def by (auto intro!: and_then_frame split: option.splits)
  show "maintains R (tick_connection S)"
    unfolding tick_connection_def poll_listener_def
    by (auto intro!: and_then_frame greet_law split: option.splits prod.splits)
qed

lemma ticker [intro!]: "maintains R (tick S)"
  unfolding tick_def by (auto intro!: and_then_frame tick_parts split: option.splits)

lemma round_frame: "maintains R (event_round S)"
  unfolding event_round_def
  by (auto intro!: and_then_frame split: selected.splits option.splits)

lemma event_loop_frame: "maintains R (event_loop S)"
  unfolding event_loop_def by (rule loop_frame, rule round_frame)

end

text \<open>A relation that does not look at the wire.\<close>

locale wireless_invocation = invocation_base +
  assumes wire_law: "R w (w\<lparr>wire := x\<rparr>)"
begin

lemma sends: "maintains R (connection_send S c m)"
  unfolding connection_send_def
  by (auto intro!: and_then_frame update_frame wire_law split: sum.splits option.splits)

lemma greets: "maintains R (greet S k)"
  unfolding greet_def by (auto intro!: and_then_frame sends connects)

end

sublocale wireless_invocation \<subseteq> invocation
  by unfold_locales (rule sends, rule greets)

subsection \<open>The calls count up\<close>

interpretation counting: wireless_invocation "\<lambda>w w'. steps w \<le> steps w'" S for S
  by unfold_locales auto

end
