(* ===== verification/Supervisor_Sample.thy ===== *)
theory Supervisor_Sample
  imports Lifecycle Log_Rotation Jvm_Properties
begin

section \<open>A world to run the supervisor in\<close>

text \<open>
  Concrete answers, a configuration and a quiet log to evaluate the supervisor on: every call
  succeeds, the clock shows the number of the call, the JVM exits at once. The witnesses
  change single answers.
\<close>

definition calm_answers :: answers where
  "calm_answers =
     \<lparr>a_now = (\<lambda>n. n), a_try_wait = (\<lambda>_. Inr (Some (Some 0))), a_kill = (\<lambda>_. None),
      a_wait = (\<lambda>_. Inr (Some 0)), a_write = (\<lambda>_. None), a_output = (\<lambda>_. Recv_Closed),
      a_batch = (\<lambda>_. []), a_control = (\<lambda>_. Recv_Closed), a_select = (\<lambda>_. Select_Tick),
      a_poll = (\<lambda>_. \<lparr>poll_accepts = [], poll_now = 0, poll_answers = (\<lambda>_. Read_Bytes []),
        poll_setup = (None, None)\<rparr>),
      a_break = (\<lambda>_. None), a_spawn = (\<lambda>_. Inr 77), a_create_job = (\<lambda>_. None),
      a_limit_job = (\<lambda>_. None), a_assign_job = (\<lambda>_. None), a_bind = (\<lambda>_ _. None),
      a_random = (\<lambda>_. Inr (replicate 32 7)), a_console_window = (\<lambda>_. True), a_alloc_console = (\<lambda>_. None),
      a_set_title = (\<lambda>_. None), a_jcmd_spawn = (\<lambda>_. None),
      a_jcmd_output = (\<lambda>_. Recv_Closed), a_jcmd_try_wait = (\<lambda>_. Inr (Some (Some 0))),
      a_heap_poll = (\<lambda>_. Recv_Timeout), a_dump_spawn = (\<lambda>_. None), a_dump_file = (\<lambda>_. Some [1]),
      a_dump_wait = (\<lambda>_. Inr (Some (Some 0))), a_dump_output = (\<lambda>_. Some ([], [])), a_timestamp = (\<lambda>_. ''t''), a_create_dir = (\<lambda>_. None),
      a_thread = (\<lambda>_. None), a_status_text = (\<lambda>_. [])\<rparr>"

text \<open>A configuration that logs nothing, and a log that writes nothing.\<close>

definition quiet_platform :: platform where
  "quiet_platform = simple_platform [] []"

definition quiet_config :: config where
  "quiet_config = \<lparr>root_path = ''/d/w.conf'', executable_directory = ''/d'',
     properties = [(''wrapper.console.loglevel'', ''NONE''), (''wrapper.java.command'', ''java''),
       (''wrapper.java.mainclass'', ''app.Server''), (''wrapper.logfile.loglevel'', ''NONE''),
       (''wrapper.ntservice.name'', ''app'')],
     environment = [], warnings = []\<rparr>"

definition quiet :: "log_state \<Rightarrow> bool" where
  "quiet l \<longleftrightarrow> threshold (fst l) = Level_None \<and> console_threshold (fst l) = Level_None"

definition quiet_log :: log_state where
  "quiet_log = ((fst sample_log)\<lparr>threshold := Level_None, console_threshold := Level_None\<rparr>, snd sample_log)"

definition sample_supervisor :: "answers \<Rightarrow> supervisor" where
  "sample_supervisor A =
     \<lparr>sup_platform = quiet_platform, sup_config = quiet_config, sup_args = [],
      sup_service = True, sup_answers = A\<rparr>"

definition sample_world :: world where
  "sample_world = \<lparr>steps = 0, logs = quiet_log, wire = [], published = [], child_pid = None, child_status = None, jobs = Map.empty\<rparr>"

definition sample_command :: jvm_command where
  "sample_command = \<lparr>program = ''java'', arguments = [], working_directory = ''/d'',
     command_environment = [], launch_note = None\<rparr>"

definition sample_run :: "nat \<Rightarrow> jvm_run" where
  "sample_run n = world.extend (sample_world\<lparr>steps := n\<rparr>)
     (jvm_run.fields 1 False sample_command 77 None True \<lparr>port = 32000, pending = []\<rparr> ''k''
        None False 0 False 30 (Some (from_secs 30)) (from_secs 5) (from_secs 30) (from_secs 5) 0 False None)"

lemma calm_simps [simp]:
  "a_now calm_answers n = n" "a_try_wait calm_answers n = Inr (Some (Some 0))"
  "a_kill calm_answers n = None" "a_wait calm_answers n = Inr (Some 0)" "a_write calm_answers n = None"
  "a_output calm_answers n = Recv_Closed" "a_batch calm_answers n = []" "a_control calm_answers n = Recv_Closed"
  "a_select calm_answers n = Select_Tick" "a_spawn calm_answers n = Inr 77" "a_create_job calm_answers n = None"
  "a_limit_job calm_answers n = None" "a_assign_job calm_answers n = None"
  "a_bind calm_answers n = (\<lambda>_. None)" "a_random calm_answers n = Inr (replicate 32 7)"
  "a_console_window calm_answers n = True" "a_heap_poll calm_answers n = Recv_Timeout"
  by (simp_all add: calm_answers_def)

lemma sample_simps [simp]:
  "sup_answers (sample_supervisor A) = A" "sup_config (sample_supervisor A) = quiet_config"
  "sup_service (sample_supervisor A) = True" "sup_platform (sample_supervisor A) = quiet_platform"
  "sup_args (sample_supervisor A) = []"
  by (simp_all add: sample_supervisor_def)

lemma sample_run_simps [simp]:
  "steps (sample_run n) = n" "logs (sample_run n) = quiet_log" "wire (sample_run n) = []"
  "published (sample_run n) = []" "child_status (sample_run n) = None" "run_connection (sample_run n) = None"
  "heap_dump_task (sample_run n) = None" "run_jvm_id (sample_run n) = 1" "launched_at (sample_run n) = 0"
  "output_open (sample_run n) = True" "paused_in_place (sample_run n) = False"
  "run_key (sample_run n) = ''k''" "run_listener (sample_run n) = \<lparr>port = 32000, pending = []\<rparr>"
  "startup_seconds (sample_run n) = 30" "started (sample_run n) = False"
  "startup_deadline (sample_run n) = Some (from_secs 30)" "ever_connected (sample_run n) = False"
  "next_ping (sample_run n) = from_secs 5" "ping_interval (sample_run n) = from_secs 5"
  "ping_timeout (sample_run n) = from_secs 30" "last_ping_response (sample_run n) = 0"
  "run_command (sample_run n) = sample_command" "run_resuming (sample_run n) = False"
  by (simp_all add: sample_run_def sample_world_def world.defs jvm_run.defs)

lemma plus_time_small: "a + b < instant_limit \<Longrightarrow> plus_time a b w = Some (Inr (a + b), w)"
  by (simp add: plus_time_def instant_add_def)

lemmas run_simps = and_then_def plus_time_small instant_limit_def from_secs_def now_def emit_def
  ask_result_def ask_ok_def

lemma quiet_write: "quiet l \<Longrightarrow> write_bytes P level source m l = (Inr (), l)"
  by (simp add: write_bytes_def quiet_def writes_file_def writes_console_def followed_by_def
    reads_def returns_def)

lemma quiet_log_quiet [simp]: "quiet quiet_log"
  by (simp add: quiet_def quiet_log_def)

lemma quiet_log_action [simp]:
  "quiet (logs w) \<Longrightarrow> log_action (write_bytes P level source m) w = Some (Inr (), w)"
  by (simp add: log_action_def quiet_write)

lemma quiet_line [simp]: "quiet (logs w) \<Longrightarrow> log_line S level source m w = Some (Inr (), w)"
  by (simp add: log_line_def say_def write_log_def)

lemma get_quiet_config:
  "n \<notin> {''wrapper.console.loglevel'', ''wrapper.java.command'', ''wrapper.java.mainclass'',
     ''wrapper.logfile.loglevel'', ''wrapper.ntservice.name''} \<Longrightarrow> get quiet_config n = None"
  by (simp add: get_def bt_get_def quiet_config_def)

lemma quiet_build: "\<exists>cmd. build P quiet_config b apps = Inr cmd"
proof -
  have "required quiet_config ''wrapper.java.command'' = Inr ''java''" "configured_main quiet_config = ''app.Server''"
    by code_simp+
  then show ?thesis
    by (simp add: build_def main_direct requires_bridge_def Let_def)
qed

definition sendable :: "string \<Rightarrow> bool" where
  "sendable m \<longleftrightarrow> 0 \<notin> set (as_bytes m) \<and> length m \<le> 1000"

lemma connection_send_ok:
  assumes "a_write (sup_answers S) (steps w) = None" and "sendable m"
  shows "connection_send S c m w = Some (Inr (), w\<lparr>steps := Suc (steps w), wire := wire w @ [(c, m)]\<rparr>)"
proof -
  have "send (\<lambda>_. Inr ()) c m = Inr ()"
    using assms(2) by (simp add: sendable_def send_def write_to_def packet_frame_def packet_text_def max_packet_size_def)
  with assms(1) show ?thesis by (simp add: connection_send_def and_then_def)
qed

lemma sample_payloads:
  "sendable (show_nat (unat (low_log_level quiet_config)))" "sendable (protocol_properties quiet_config)"
  "sendable ''start''" "sendable ''/l''" "sendable ''0''"
  by code_simp+

subsection \<open>A calm run\<close>

lemma drain_calm: "steps w < 1000000 \<Longrightarrow>
    drain_remaining_output (sample_supervisor calm_answers) w = Some (Inr (), w\<lparr>steps := Suc (Suc (steps w))\<rparr>)"
  by (simp add: drain_remaining_output_def run_simps loop.simps)

lemma event_loop_calm:
  assumes "steps w < 100000" and "quiet (logs w)" and "child_status w = None" and "heap_dump_task w = None"
  shows "\<exists>t w'. event_loop (sample_supervisor calm_answers) w = Some (Inr (Outcome_Exited t 0), w')
    \<and> quiet (logs w')"
proof -
  let ?w = "w\<lparr>steps := Suc (steps w)\<rparr>"
  have "\<exists>t w'. tick (sample_supervisor calm_answers) ?w = Some (Inr (Some (Outcome_Exited t 0)), w')
    \<and> quiet (logs w')"
    using assms
    by (simp add: tick_def run_simps poll_heap_dump_def tick_exit_def try_wait_def drain_calm
      log_jvm_exit_def elapsed_def)
  with assms show ?thesis
    by (auto simp: event_loop_def loop.simps event_round_def run_simps)
qed

lemma prepare_calm:
  assumes "a_bind A = a_bind calm_answers" and "a_random A = a_random calm_answers"
  shows "\<exists>l k cmd. prepare_launch (sample_supervisor A) jid w =
     Some (Inr (l, k, cmd), w\<lparr>steps := Suc (Suc (steps w))\<rparr>)"
proof -
  let ?S = "sample_supervisor A"
  have "launch_ports ?S = Inr (None, 32000, 32999)"
    by (simp add: launch_ports_def optional_port_def port_or_def get_quiet_config)
  moreover have "bind (\<lambda>_. None) None 32000 32999 = Inr \<lparr>port = 32000, pending = []\<rparr>"
    by (simp add: bind_def port_range_def bind_port_def upt_rec [of 32000])
  moreover obtain k where "generate_key (Inr (replicate 32 7)) = Inr k"
    by (simp add: generate_key_def map_error_def)
  moreover obtain b where "launch_of ?S jid k \<lparr>port = 32000, pending = []\<rparr> = Inr b"
    by (simp add: launch_of_def optional_port_def port_or_def get_quiet_config)
  moreover obtain cmd where "build (quiet_platform) quiet_config b [] = Inr cmd"
    using quiet_build by blast
  ultimately show ?thesis using assms
    by (simp add: prepare_launch_def run_simps lift_error_def map_error_def)
qed

definition jobs_granted :: "answers \<Rightarrow> bool" where
  "jobs_granted A \<longleftrightarrow> (\<forall>n. a_create_job A n = None \<and> a_limit_job A n = None \<and> a_assign_job A n = None)"

lemma assign_job_calm:
  assumes "jobs_granted A"
  shows "\<exists>h v'. assign_job (sample_supervisor A) pid v = Some (Inr (Some h), v')
     \<and> steps v' = Suc (Suc (Suc (steps v))) \<and> logs v' = logs v \<and> child_status v' = child_status v"
  using assms
  by (simp add: jobs_granted_def assign_job_def get_bool_def get_quiet_config run_simps attempt_def new_job_def kill_on_close_def
    create_job_def or_close_def assign_def job_update_def quiet_platform_def simple_platform_def)

lemma holding_job_quiet:
  "m w = Some (r, w') \<Longrightarrow> \<exists>w''. holding_job job m w = Some (r, w'') \<and> logs w'' = logs w'"
  by (simp add: holding_job_def split: option.split)

lemma supervise_calm:
  assumes "steps v < 10000" and "quiet (logs v)" and "child_status v = None"
  shows "\<exists>t w'. supervise (sample_supervisor calm_answers) jid r t0 l k cmd 77 None v = Some (Inr (Outcome_Exited t 0), w')
    \<and> quiet (logs w')"
proof -
  let ?f = "jvm_run.fields jid r cmd 77 None True l k None False t0 False 30
    (Some (steps v + 30000000000)) 5000000000 30000000000 (steps v + 5000000000) (steps v) False None"
  let ?v = "world.extend (v\<lparr>steps := Suc (steps v)\<rparr>) ?f"
  have "\<exists>t w'. event_loop (sample_supervisor calm_answers) ?v = Some (Inr (Outcome_Exited t 0), w') \<and> quiet (logs w')"
    by (rule event_loop_calm) (use assms in \<open>simp_all add: world.defs jvm_run.defs\<close>)
  with assms show ?thesis
    by (auto simp: supervise_def run_simps get_u64_def get_quiet_config with_run_def world.defs)
qed

lemma run_once_calm:
  assumes "steps w < 1000" and "quiet (logs w)"
  shows "\<exists>t w'. run_once (sample_supervisor calm_answers) jid r w = Some (Inr (Outcome_Exited t 0), w')
    \<and> quiet (logs w')"
proof -
  let ?S = "sample_supervisor calm_answers"
  let ?v = "w\<lparr>steps := Suc (Suc (Suc (Suc (steps w)))), child_pid := Some 77, child_status := None\<rparr>"
  obtain l k cmd where prepared: "prepare_launch ?S jid (w\<lparr>steps := Suc (steps w)\<rparr>)
      = Some (Inr (l, k, cmd), w\<lparr>steps := Suc (Suc (Suc (steps w)))\<rparr>)"
    using prepare_calm [of calm_answers jid "w\<lparr>steps := Suc (steps w)\<rparr>"] by auto
  obtain h u where job: "assign_job ?S 77 ?v = Some (Inr (Some h), u)"
    and u: "steps u = Suc (Suc (Suc (steps ?v)))" "logs u = logs w" "child_status u = None"
    using assign_job_calm [of calm_answers 77 ?v] by (auto simp: jobs_granted_def)
  obtain t w1 where "supervise ?S jid r (steps w) l k cmd 77 None u = Some (Inr (Outcome_Exited t 0), w1)" "quiet (logs w1)"
    using supervise_calm [of u jid r "steps w" l k cmd] u assms by auto
  then obtain w2 where supervised:
    "holding_job (Some h) (supervise ?S jid r (steps w) l k cmd 77 None) u = Some (Inr (Outcome_Exited t 0), w2)"
    "quiet (logs w2)"
    using holding_job_quiet by metis
  have pid_file: "pid_file_create P quiet_config ''wrapper.java.pidfile'' n b = returns None" for P n b
    by (simp add: pid_file_create_def get_quiet_config)
  have logged: "log_launch ?S jid cmd v = Some (Inr (), v)" if "quiet (logs v)" for v
    using that by (simp add: log_launch_def and_then_def Let_def split: option.split)
  show ?thesis
    using prepared job supervised pid_file logged assms
    by (simp add: run_once_def run_simps attempt_def log_action_def returns_def finally_do_def drop_pid_file_def u
      map_error_def)
qed

lemma no_pid_files:
  "name \<in> {''wrapper.pidfile'', ''wrapper.java.pidfile'', ''wrapper.java.idfile''} \<Longrightarrow>
    pid_file_create P quiet_config name n b = returns None"
  by (auto simp: pid_file_create_def get_quiet_config)

lemma quiet_levels:
  "configured_log_level quiet_config ''wrapper.logfile.loglevel'' Level_Info = Level_None"
  "configured_log_level quiet_config ''wrapper.console.loglevel'' Level_Info = Level_None"
  by code_simp+

lemma open_logger_calm:
  assumes "no_faults (snd (logs w))"
  shows "\<exists>l. open_logger (sample_supervisor A) w = Some (Inr (), w\<lparr>logs := l\<rparr>) \<and> quiet l"
proof -
  have "get_or quiet_config ''wrapper.logfile.rollmode'' ''SIZE'' = ''SIZE''"
    by (simp add: get_or_def get_quiet_config)
  moreover have "to_ascii_uppercase ''SIZE'' = ''SIZE''" by code_simp
  moreover have "get_bool quiet_config ''wrapper.debug'' False = False"
    by (simp add: get_bool_def get_quiet_config)
  ultimately obtain W d' where
    "from_config_with_console quiet_platform quiet_config False (snd (logs w)) = (Inr W, d')"
    "threshold W = Level_None" "console_threshold W = Level_None"
    using assms quiet_levels
    by (cases "lookup (snd (logs w))
        (resolve_path (quiet_platform) quiet_config (get_or quiet_config ''wrapper.logfile'' ''wrapper.log''))")
      (simp_all add: from_config_with_console_def Let_def followed_by_def returns_def
        open_append_shared_def file_length_def)
  then show ?thesis
    by (intro exI [of _ "(W, d')"]) (simp add: open_logger_def quiet_def)
qed

lemma after_exit_calm:
  "quiet (logs w) \<Longrightarrow> after_outcome (sample_supervisor A) (Outcome_Exited t 0) (lc, w) = Some (Inr (Some 0), (lc, w))"
proof -
  have "on_exit_action quiet_config 0 = Exit_Shutdown" by code_simp
  then show "quiet (logs w) \<Longrightarrow> ?thesis"
    by (simp add: after_outcome_def resolve_exit_def stop_marker_def on_world_def and_then_def)
qed

lemma run_from_round:
  assumes "steps w < 100" and "no_faults (snd (logs w))" and "\<And>n. a_console_window A n = True"
    and round: "\<And>v. quiet (logs v) \<Longrightarrow> steps v < 200 \<Longrightarrow>
      \<exists>w'. lifecycle_round (sample_supervisor A) (initial_lifecycle False, v) =
        Some (case result of Inl e \<Rightarrow> Inl e | Inr n \<Rightarrow> Inr (Some n), (initial_lifecycle False, w'))"
  shows "\<exists>w'. run (sample_supervisor A) w = Some (result, w')"
proof -
  let ?S = "sample_supervisor A"
  let ?p = "w\<lparr>published := published w @ [WrapperStarted]\<rparr>"
  obtain l where logger: "open_logger ?S ?p = Some (Inr (), ?p\<lparr>logs := l\<rparr>)" "quiet l"
    using open_logger_calm [of ?p A] assms(2) by auto
  have announce: "announce ?S v = Some (Inr (), v\<lparr>steps := Suc (steps v)\<rparr>)" if "quiet (logs v)" for v
    using that assms(3)
    by (simp add: announce_def and_then_def or_warn_def attempt_def prepare_service_console_def
        quiet_platform_def simple_platform_def get_bool_def console_title_def get_quiet_config)
      (simp add: quiet_config_def)
  have wait: "before_launch ?S v = Some (Inr (Inr False), v)" for v
    by (simp add: before_launch_def and_then_def get_bool_def get_quiet_config startup_delay_def get_u64_def
      from_secs_def)
  from round [of "?p\<lparr>logs := l, steps := Suc (steps w)\<rparr>"] logger(2) assms(1) obtain w' where
    "lifecycle_round ?S (initial_lifecycle False, ?p\<lparr>logs := l, steps := Suc (steps w)\<rparr>)
       = Some (case result of Inl e \<Rightarrow> Inl e | Inr n \<Rightarrow> Inr (Some n), (initial_lifecycle False, w'))" by auto
  with logger announce wait show ?thesis
    by (cases result)
      (simp_all add: run_def no_pid_files log_action_def returns_def and_then_def emit_def finally_do_def
        with_local_def loop.simps drop_id_file_def initial_lifecycle_def on_world_def drop_pid_file_def)
qed

lemma run_calm:
  assumes "steps w < 100" and "no_faults (snd (logs w))"
  shows "\<exists>w'. run (sample_supervisor calm_answers) w = Some (Inr 0, w')"
proof (rule run_from_round [OF assms])
  let ?S = "sample_supervisor calm_answers"
  fix v :: world
  assume "quiet (logs v)" "steps v < 200"
  let ?v = "v\<lparr>published := published v @ [JvmLaunching 1]\<rparr>"
  from run_once_calm [of ?v 1 False] \<open>quiet (logs v)\<close> \<open>steps v < 200\<close> obtain t w' where
    "run_once ?S 1 False ?v = Some (Inr (Outcome_Exited t 0), w')" "quiet (logs w')" by auto
  then show "\<exists>w'. lifecycle_round ?S (initial_lifecycle False, v) =
      Some (case Inr 0 of Inl e \<Rightarrow> Inl e | Inr n \<Rightarrow> Inr (Some n), (initial_lifecycle False, w'))"
    using after_exit_calm [of w' calm_answers t "initial_lifecycle False"]
    by (simp add: lifecycle_round_def launch_round_def write_id_file_def initial_lifecycle_def no_pid_files and_then_def
      on_world_def log_action_def returns_def attempt_def emit_def)
qed simp

end
