(* ===== verification/Supervisor_Properties.thy ===== *)
theory Supervisor_Properties
  imports Supervisor_Frame Supervisor_Sample
begin

section \<open>Correctness of one invocation\<close>

text \<open>
  No JVM survives the end of its invocation; the wire shows a greeting before every start.
\<close>

subsection \<open>The JVM has exited when the invocation ends\<close>

definition exited :: "'z world_scheme \<Rightarrow> bool" where
  "exited w \<longleftrightarrow> child_status w \<noteq> None"

interpretation reaping: wireless_invocation "\<lambda>w w'. exited w \<longrightarrow> exited w'" S for S
  by unfold_locales (auto simp: exited_def)

definition ensures :: "('a \<Rightarrow> 'w \<Rightarrow> bool) \<Rightarrow> ('w, 'a) io \<Rightarrow> bool" where
  "ensures Q m \<longleftrightarrow> (\<forall>w x w'. m w = Some (Inr x, w') \<longrightarrow> Q x w')"

lemma ensures_ret: "(\<And>w. Q x w) \<Longrightarrow> ensures Q (ret x)"
  by (simp add: ensures_def)

lemma ensures_raise: "ensures Q (raise e)"
  by (simp add: ensures_def)

lemma ensures_and_then: "(\<And>x. ensures Q (f x)) \<Longrightarrow> ensures Q (and_then m f)"
  by (auto simp: ensures_def and_then_eq_Inr)

lemma ensures_bind:
  "ensures Q m \<Longrightarrow> (\<And>x w y w'. Q x w \<Longrightarrow> f x w = Some (Inr y, w') \<Longrightarrow> Q' y w') \<Longrightarrow> ensures Q' (and_then m f)"
  by (fastforce simp: ensures_def and_then_eq_Inr)

lemma ensures_keep:
  assumes "ensures (\<lambda>_. P) m" and "\<And>x. maintains (\<lambda>w w'. P w \<longrightarrow> P w') (f x)"
  shows "ensures (\<lambda>_. P) (and_then m f)"
  using assms by (fastforce simp: ensures_def maintains_def and_then_eq_Inr)

lemma ensures_weaken: "ensures Q m \<Longrightarrow> (\<And>x w. Q x w \<Longrightarrow> Q' x w) \<Longrightarrow> ensures Q' m"
  by (simp add: ensures_def)

lemma ensures_first_outcome:
  assumes "\<And>x. ensures (\<lambda>r w. r \<noteq> None \<longrightarrow> P w) (f x)"
  shows "ensures (\<lambda>r w. r \<noteq> None \<longrightarrow> P w) (first_outcome f xs)"
proof (induction xs)
  case (Cons x xs)
  show ?case unfolding first_outcome.simps
    by (rule ensures_bind [OF assms]) (use Cons in \<open>auto simp: ensures_def split: option.splits\<close>)
qed (simp add: ensures_def)

lemma ensures_loop:
  assumes "ensures (\<lambda>r w. \<forall>x. r = Some x \<longrightarrow> P x w) body"
  shows "ensures P (loop body)"
proof -
  have "\<forall>x. r = Inr x \<longrightarrow> P x w'" if "loop body w = Some (r, w')" for w r w'
    using that by (induction rule: loop_induct) (use assms in \<open>auto simp: ensures_def\<close>)
  then show ?thesis by (auto simp: ensures_def)
qed

lemma try_wait_some: "ensures (\<lambda>r w. r \<noteq> None \<longrightarrow> exited w) (try_wait A)"
  by (auto simp: ensures_def try_wait_def and_then_eq_Inr exited_def ask_result_def split: option.splits sum.splits)

lemma terminate_child_exited: "ensures (\<lambda>_. exited) (terminate_child A)"
proof -
  have "ensures (\<lambda>_. exited) (wait_child A)"
    by (auto simp: ensures_def wait_child_def and_then_eq_Inr exited_def split: option.splits sum.splits)
  then show ?thesis
    unfolding terminate_child_def by (intro ensures_and_then ensures_keep) (auto simp: maintains_def)
qed

lemma after_try_wait:
  assumes "maintains (\<lambda>w w'. exited w \<longrightarrow> exited w') gone" and "ensures Q running"
    and "\<And>x w. exited w \<Longrightarrow> Q x w"
  shows "ensures Q (and_then (try_wait A) (\<lambda>status. if status \<noteq> None then gone else running))"
  by (rule ensures_bind [OF try_wait_some])
    (use assms in \<open>auto simp: ensures_def maintains_def split: if_splits\<close>)

lemma wait_for_exit_exited: "ensures (\<lambda>r w. r \<longrightarrow> exited w) (wait_for_exit S t)"
proof -
  have "ensures (\<lambda>r w. \<forall>x. r = Some x \<longrightarrow> x \<longrightarrow> exited w) (wait_round S d)" for d
    unfolding wait_round_def
    by (rule after_try_wait)
      (auto intro!: ensures_and_then ensures_ret reaping.and_then_frame split: recv.splits)
  then show ?thesis
    unfolding wait_for_exit_def by (intro ensures_and_then ensures_loop)
qed

lemma shutdown_exited: "ensures (\<lambda>_. exited) (shutdown_and_drain S n)"
proof -
  have force: "ensures (\<lambda>_. exited) (and_then (terminate_child A) (\<lambda>_. drain_remaining_output S))" for A
    by (rule ensures_keep [OF terminate_child_exited reaping.output_calls(3)])
  have wait: "ensures (\<lambda>_. exited) (and_then (wait_for_exit S t) (\<lambda>b. if b then ret () else f))"
    if "ensures (\<lambda>_. exited) f" for t f
    by (rule ensures_bind [OF wait_for_exit_exited]) (use that in \<open>auto simp: ensures_def split: if_splits\<close>)
  have delayed: "ensures (\<lambda>_. exited) (and_then (if b then m else ret False) (\<lambda>b. if b then ret () else f))"
    if "ensures (\<lambda>_. exited) f" "ensures (\<lambda>r w. r \<longrightarrow> exited w) m" for b m f
    by (rule ensures_bind [where Q = "\<lambda>r w. r \<longrightarrow> exited w"])
      (use that in \<open>auto simp: ensures_def split: if_splits\<close>)
  have dump: "ensures (\<lambda>r w. r \<longrightarrow> exited w)
      (and_then a (\<lambda>_. and_then c (\<lambda>d. if d then wait_for_exit S t else ret False)))"
    for a and c :: "(jvm_run, bool) io" and t
    by (auto intro!: ensures_and_then wait_for_exit_exited ensures_ret)
  have stay: "ensures (\<lambda>_. exited) (if b then m else m')"
    if "ensures (\<lambda>_. exited) m" "ensures (\<lambda>_. exited) m'" for b and m m' :: "(jvm_run, unit) io"
    using that by simp
  show ?thesis
    unfolding shutdown_and_drain_def Let_def
    by (rule after_try_wait, rule reaping.output_calls, rule ensures_and_then, rule stay, rule force,
        rule wait, rule ensures_and_then, rule delayed, rule ensures_and_then, rule force, rule dump, simp)
qed

text \<open>An outcome is only ever reached after the JVM has exited.\<close>

definition reaps :: "(jvm_run, 'a option) io \<Rightarrow> bool" where
  "reaps m \<longleftrightarrow> ensures (\<lambda>r w. r \<noteq> None \<longrightarrow> exited w) m"

lemma reaps_none [intro!]: "reaps (ret None)"
  by (simp add: reaps_def ensures_def)

lemma reaps_raise [intro!]: "reaps (raise e)"
  by (simp add: reaps_def ensures_def)

lemma reaps_and_then [intro]: "(\<And>x. reaps (f x)) \<Longrightarrow> reaps (and_then m f)"
  by (simp add: reaps_def ensures_and_then)

lemma reaps_outcome: "ensures (\<lambda>_. exited) m \<Longrightarrow> reaps m"
  by (auto simp: reaps_def ensures_def)

lemma reaps_first_outcome [intro]: "(\<And>x. reaps (f x)) \<Longrightarrow> reaps (first_outcome f xs)"
  unfolding reaps_def by (rule ensures_first_outcome)

lemma reaps_either:
  assumes "reaps m" and "reaps rest"
  shows "reaps (and_then m (\<lambda>r. case r of Some _ \<Rightarrow> ret r | None \<Rightarrow> rest))"
  unfolding reaps_def
  by (rule ensures_bind [OF assms(1) [unfolded reaps_def]])
    (use assms(2) in \<open>auto simp: reaps_def ensures_def split: option.splits\<close>)

lemma stopping_reaps [intro!]:
  "reaps (restart_with S n a)" "reaps (and_then (stop_with S n) (\<lambda>x. ret (Some x)))"
  by (auto intro!: reaps_outcome ensures_keep [OF shutdown_exited] reaping.and_then_frame ensures_keep
    simp: restart_with_def elapsed_def stop_with_def)

lemma pause_reaps [intro!]: "reaps (pause S)"
proof -
  have "reaps (and_then (shutdown_and_drain S 0) (\<lambda>_. and_then (emit e) (\<lambda>_. ret (Some x))))" for e and x :: run_outcome
    by (auto intro!: reaps_outcome ensures_keep [OF shutdown_exited] reaping.and_then_frame)
  then show ?thesis
    unfolding pause_def by (simp add: reaps_and_then reaps_none)
qed

lemma output_reaps [intro!]: "reaps (handle_output_batch S line)"
proof -
  have "reaps (apply_filter_action S m a)" for m a
    unfolding apply_filter_action_def Let_def by (auto intro!: reaps_and_then split: filter_action.splits)
  then have "reaps (handle_output_line S l)" for l
    unfolding handle_output_line_def apply_filter_matches_def by (intro reaps_and_then reaps_first_outcome)
  then show ?thesis
    unfolding handle_output_batch_def by (intro reaps_either reaps_and_then reaps_first_outcome)
qed

lemma control_reaps [intro!]: "reaps (handle_control S c)"
  unfolding handle_control_def by (auto intro!: reaps_and_then split: control.splits)

lemma exited_outcome: "reaps (and_then (shutdown_and_drain S n) (\<lambda>_. and_then (try_wait A) (\<lambda>x.
    and_then (log_jvm_exit S (y x)) (\<lambda>_. and_then (elapsed S) (\<lambda>t. ret (Some (z t)))))))"
  by (intro reaps_outcome ensures_keep [OF shutdown_exited])
    (auto intro!: reaping.and_then_frame simp: elapsed_def)

lemma protocol_reaps [intro!]: "reaps (handle_protocol S e)"
proof -
  have "reaps (handle_packet S p)" for p
    unfolding handle_packet_def
    by (auto intro: reaps_and_then intro!: exited_outcome split: option.splits)
  then show ?thesis
    unfolding handle_protocol_def by (auto intro!: reaps_and_then split: receive_event.splits)
qed

lemma tick_exit_reaps: "reaps (tick_exit S)"
  unfolding tick_exit_def reaps_def
  by (rule ensures_bind [OF try_wait_some])
    (auto simp: and_then_eq_Inr elapsed_def now_def split: option.splits
      dest!: maintainsD [OF reaping.output_calls(3)] maintainsD [OF reaping.exit_logs] simp: exited_def)

lemma tick_reaps [intro!]: "reaps (tick S)"
proof -
  have "reaps (tick_startup S t)" "reaps (tick_watchdog S t)" for t
    unfolding tick_startup_def tick_watchdog_def by (auto intro!: reaps_and_then)
  then show ?thesis
    unfolding tick_def by (intro reaps_and_then reaps_either tick_exit_reaps)
qed

lemma event_loop_reaps: "ensures (\<lambda>_. exited) (event_loop S)"
proof -
  have "reaps (event_round S)"
    unfolding event_round_def
    by (auto intro!: reaps_and_then [where m = "peek _"] reaps_and_then [where m = "ask _"]
      split: selected.splits option.splits)
  then show ?thesis
    unfolding event_loop_def by (intro ensures_loop) (auto simp: reaps_def ensures_def)
qed

subsection \<open>The greeting\<close>

text \<open>
  What the supervisor may put on the wire: any packets but \<open>START\<close>, and \<open>START\<close> right after
  the log level, the log file and the properties.
\<close>

inductive greeted :: "supervisor \<Rightarrow> (u8 \<times> string) list \<Rightarrow> bool" for S where
  nothing: "greeted S []"
| packet: "greeted S d \<Longrightarrow> c \<noteq> START \<Longrightarrow> greeted S (d @ [(c, m)])"
| starts: "greeted S d \<Longrightarrow> greeted S (d @
    [(LOW_LOG_LEVEL, show_nat (unat (low_log_level (sup_config S)))), (LOGFILE, f),
     (PROPERTIES, protocol_properties (sup_config S)), (START, ''start'')])"

lemma greeted_append: "greeted S b \<Longrightarrow> greeted S a \<Longrightarrow> greeted S (a @ b)"
proof (induction rule: greeted.induct)
  case (packet d c m)
  then show ?case using greeted.packet [of S "a @ d" c m] by simp
next
  case (starts d f)
  then show ?case using greeted.starts [of S "a @ d" f] by simp
qed simp

definition wire_grows :: "supervisor \<Rightarrow> 'z world_scheme \<Rightarrow> 'z world_scheme \<Rightarrow> bool" where
  "wire_grows S w w' \<longleftrightarrow> (\<exists>d. wire w' = wire w @ d \<and> greeted S d)"

lemma wire_grows_same: "wire w' = wire w \<Longrightarrow> wire_grows S w w'"
  by (simp add: wire_grows_def greeted.nothing)

lemma wire_grows_packet: "wire w' = wire w @ [(c, m)] \<Longrightarrow> c \<noteq> START \<Longrightarrow> wire_grows S w w'"
  using greeted.packet [OF greeted.nothing, of c S m] by (simp add: wire_grows_def)

lemma wire_grows_trans: "wire_grows S u v \<Longrightarrow> wire_grows S v w \<Longrightarrow> wire_grows S u w"
  by (auto simp: wire_grows_def intro: greeted_append)

interpretation wire: frame "wire_grows S" for S
  by unfold_locales (auto intro: wire_grows_same wire_grows_trans)

lemma connection_send_cases:
  assumes "connection_send S c m w = Some (r, w')"
  shows "(\<exists>e. r = Inl e) \<and> wire w' = wire w \<or> r = Inr () \<and> wire w' = wire w @ [(c, m)]"
  using assms by (auto simp: connection_send_def and_then_def split: sum.splits option.splits)

lemma connection_send_then:
  assumes "and_then (connection_send S c m) f w = Some (r, w')"
  shows "wire w' = wire w \<or> (\<exists>v. wire v = wire w @ [(c, m)] \<and> f () v = Some (r, w'))"
  using assms unfolding and_then_eq_Some by (auto dest: connection_send_cases)

lemma greet_wire: "maintains (wire_grows S) (greet S k)"
proof -
  have quiet: "maintains (wire_grows S) (log_line S a b c)" "maintains (wire_grows S) (now S)"
    "maintains (wire_grows S) (emit e)" for a b c e
    by (auto intro!: ask_frame log_action_frame update_frame wire_grows_same
      simp: log_line_def say_def now_def emit_def)
  define tail :: "(jvm_run, unit) io" where "tail = and_then (peek ever_connected) (\<lambda>again.
     and_then (if again then log_line S Level_Debug From_Protocol ''JVM control channel reconnected.''
        else ret ()) (\<lambda>_.
     and_then (update (\<lambda>w. w\<lparr>ever_connected := True\<rparr>)) (\<lambda>_.
     and_then (now S) (\<lambda>t.
     and_then (update (\<lambda>w. w\<lparr>last_ping_response := t, run_connection := Some k\<rparr>)) (\<lambda>_.
       emit ProtocolAuthenticated)))))"
  have tail: "maintains (wire_grows S) tail"
    unfolding tail_def by (auto intro!: wire.and_then_frame quiet update_frame wire_grows_same)
  have "wire_grows S w w'" if "greet S k w = Some (r, w')" for w r w'
  proof -
    let ?level = "(LOW_LOG_LEVEL, show_nat (unat (low_log_level (sup_config S))))"
    let ?props = "(PROPERTIES, protocol_properties (sup_config S))"
    have one: "greeted S [?level]" and two: "greeted S [?level, (LOGFILE, f)]"
      and three: "greeted S [?level, (LOGFILE, f), ?props]" for f
      using greeted.packet [OF greeted.nothing, of LOW_LOG_LEVEL] greeted.packet [of S "[?level]" LOGFILE f]
        greeted.packet [of S "[?level, (LOGFILE, f)]" PROPERTIES]
      by (simp_all add: packet_codes)
    have "wire w' = wire w \<or> wire w' = wire w @ [?level] \<or> (\<exists>f. wire w' = wire w @ [?level, (LOGFILE, f)])
      \<or> (\<exists>f. wire w' = wire w @ [?level, (LOGFILE, f), ?props])
      \<or> (\<exists>f v. wire v = wire w @ [?level, (LOGFILE, f), ?props, (START, ''start'')] \<and> tail v = Some (r, w'))"
      using that unfolding greet_def tail_def [symmetric]
      by (auto dest!: connection_send_then simp: and_then_run [OF peek_run])
    then show ?thesis
      using one two three greeted.starts [OF greeted.nothing]
        wire_grows_trans [OF _ maintainsD [OF tail]]
      by (fastforce simp: wire_grows_def greeted.nothing)
  qed
  then show ?thesis by (simp add: maintains_def)
qed

interpretation wire: invocation "wire_grows S" S for S
proof unfold_locales
  show "maintains (wire_grows S) (connection_send S c m)" if "c \<noteq> START" for c m
    using that unfolding maintains_def
    by (metis connection_send_cases wire_grows_same wire_grows_packet)
qed (auto intro: wire_grows_same greet_wire)

lemma append_split_at: "d @ xs = before @ p # a \<Longrightarrow> p \<notin> set xs \<Longrightarrow> \<exists>a'. d = before @ p # a'"
  by (auto simp: append_eq_append_conv2 append_eq_Cons_conv Cons_eq_append_conv)

lemma greeted_start:
  "greeted S d \<Longrightarrow> d = before @ (START, m) # after \<Longrightarrow>
    m = ''start'' \<and> (\<exists>earlier f. before = earlier @
      [(LOW_LOG_LEVEL, show_nat (unat (low_log_level (sup_config S)))), (LOGFILE, f),
       (PROPERTIES, protocol_properties (sup_config S))])"
proof (induction arbitrary: "after" rule: greeted.induct)
  case (packet d c m')
  then show ?case by (cases "after" rule: rev_cases) auto
next
  case (starts d f)
  have codes: "LOW_LOG_LEVEL \<noteq> START" "LOGFILE \<noteq> START" "PROPERTIES \<noteq> START"
    by (simp_all add: packet_codes)
  show ?case
  proof (cases "after" rule: rev_cases)
    case Nil
    with starts.prems show ?thesis by auto
  next
    case (snoc a1 x)
    with starts.prems have "d @ [(LOW_LOG_LEVEL, show_nat (unat (low_log_level (sup_config S)))), (LOGFILE, f),
        (PROPERTIES, protocol_properties (sup_config S))] = before @ (START, m) # a1" by simp
    from append_split_at [OF this] codes obtain a2 where "d = before @ (START, m) # a2" by auto
    then show ?thesis by (rule starts.IH)
  qed
qed simp

text \<open>
  C6. The application is started only by a complete greeting: whatever happens in an
  invocation (reconnects, failing writes, any interleaving of output, controls, packets and
  ticks), each \<open>START\<close> packet on the wire says \<open>start\<close> and comes right after the log level,
  the log file and the properties of the configuration.
\<close>

theorem start_follows_greeting:
  assumes "event_loop S w = Some (r, w')" and "wire w = []" and "wire w' = before @ (START, m) # after"
  shows "m = ''start'' \<and> (\<exists>earlier f. before = earlier @
      [(LOW_LOG_LEVEL, show_nat (unat (low_log_level (sup_config S)))), (LOGFILE, f),
       (PROPERTIES, protocol_properties (sup_config S))])"
proof -
  from maintainsD [OF wire.event_loop_frame assms(1)] assms(2) have "greeted S (wire w')"
    by (simp add: wire_grows_def)
  then show ?thesis using assms(3) by (rule greeted_start)
qed

text \<open>A world in which the JVM presents the key at the first tick and exits at the second.\<close>

definition greeting_answers :: answers where
  "greeting_answers = calm_answers
     \<lparr>a_try_wait := \<lambda>n. Inr (if n < 7 then None else Some (Some 0)),
      a_poll := \<lambda>_. \<lparr>poll_accepts = [Accepted 3 True True 0], poll_now = 0,
        poll_answers = (\<lambda>_. Read_Bytes [110, 107, 0]), poll_setup = (None, None)\<rparr>\<rparr>"

lemma greeting_simps [simp]:
  "a_now greeting_answers n = n" "a_write greeting_answers n = None" "a_select greeting_answers n = Select_Tick"
  "a_output greeting_answers n = Recv_Closed"
  "a_try_wait greeting_answers n = Inr (if n < 7 then None else Some (Some 0))"
  "poll_accepts (a_poll greeting_answers n) = [Accepted 3 True True 0]" "poll_now (a_poll greeting_answers n) = 0"
  "poll_answers (a_poll greeting_answers n) = (\<lambda>_. Read_Bytes [110, 107, 0])"
  "poll_setup (a_poll greeting_answers n) = (None, None)"
  by (simp_all add: greeting_answers_def calm_answers_def)

lemma greeting_poll:
  "\<exists>c. poll_authentication [Accepted 3 True True 0] 0 (\<lambda>_. Read_Bytes [110, 107, 0]) (None, None) ''k''
     30000000000 \<lparr>port = 32000, pending = []\<rparr> = (Inr (Some c), \<lparr>port = 32000, pending = []\<rparr>)"
proof -
  have k: "as_bytes ''k'' = [107]" by (simp add: as_bytes_def)
  show ?thesis
    by (simp add: poll_authentication_def max_pending_handshakes_def instant_add_def instant_limit_def
      advance_from.simps advance_handshake_def feed_def feed_byte_def framer_default_def max_packet_size_def
      k KEY_def swap_remove_def connection_spawn_def event_queue_capacity_def lift_error_def map_error_def)
qed

text \<open>The same run for any configuration whose greeting can be sent.\<close>

definition greeting_supervisor :: "config \<Rightarrow> supervisor" where
  "greeting_supervisor c = (sample_supervisor greeting_answers)\<lparr>sup_config := c\<rparr>"

definition greeting_of :: "config \<Rightarrow> (u8 \<times> string) list" where
  "greeting_of c = [(LOW_LOG_LEVEL, show_nat (unat (low_log_level c))), (LOGFILE, ''/l''),
     (PROPERTIES, protocol_properties c), (START, ''start'')]"

lemma greeting_supervisor_simps [simp]:
  "sup_answers (greeting_supervisor c) = greeting_answers" "sup_config (greeting_supervisor c) = c"
  "sup_platform (greeting_supervisor c) = quiet_platform"
  by (simp_all add: greeting_supervisor_def)

lemma greeting_tick:
  assumes "sendable (show_nat (unat (low_log_level c)))" and "sendable (protocol_properties c)"
  shows "\<exists>w'. tick (greeting_supervisor c) ((sample_run 0)\<lparr>steps := 1\<rparr>) = Some (Inr None, w')
     \<and> wire w' = greeting_of c \<and> steps w' = 9 \<and> quiet (logs w') \<and> child_status w' = None \<and> heap_dump_task w' = None"
proof -
  obtain l where poll: "poll_authentication [Accepted 3 True True 0] 0 (\<lambda>_. Read_Bytes [110, 107, 0]) (None, None)
     ''k'' 30000000000 \<lparr>port = 32000, pending = []\<rparr> = (Inr (Some l), \<lparr>port = 32000, pending = []\<rparr>)"
    using greeting_poll by blast
  have path: "display (logfile_path (greeting_supervisor c) w) = ''/l''" if "logs w = quiet_log" for w
    using that sample_disk_ok(2) by (simp add: logfile_path_def quiet_log_def sample_log_def quiet_platform_def simple_platform_def)
  show ?thesis
    by (simp add: tick_def run_simps poll_heap_dump_def tick_exit_def try_wait_def tick_connection_def
      poll_listener_def min_handshake_timeout_def poll greet_def connection_send_ok sample_payloads assms path
      tick_startup_def startup_expired_def tick_ping_def tick_watchdog_def watchdog_allowance_def greeting_of_def)
qed

lemma greeting_loop_of:
  assumes "sendable (show_nat (unat (low_log_level c)))" and "sendable (protocol_properties c)"
  shows "\<exists>t w'. event_loop (greeting_supervisor c) (sample_run 0) = Some (Inr (Outcome_Exited t 0), w')
     \<and> wire w' = greeting_of c"
proof -
  let ?S = "greeting_supervisor c"
  obtain v where first: "tick ?S ((sample_run 0)\<lparr>steps := 1\<rparr>) = Some (Inr None, v)"
    and v: "wire v = greeting_of c" "steps v = 9" "quiet (logs v)" "child_status v = None" "heap_dump_task v = None"
    using greeting_tick [OF assms] by auto
  have "\<exists>t w'. tick ?S (v\<lparr>steps := 10\<rparr>) = Some (Inr (Some (Outcome_Exited t 0)), w') \<and> wire w' = wire v"
    using v
    by (simp add: tick_def run_simps poll_heap_dump_def tick_exit_def try_wait_def drain_remaining_output_def
      loop.simps log_jvm_exit_def elapsed_def)
  then show ?thesis
    using first v(1,2) by (auto simp: event_loop_def loop.simps event_round_def and_then_def)
qed

lemma greeting_loop:
  "\<exists>t w'. event_loop (sample_supervisor greeting_answers) (sample_run 0) = Some (Inr (Outcome_Exited t 0), w')
     \<and> wire w' = [(LOW_LOG_LEVEL, show_nat (unat (low_log_level quiet_config))), (LOGFILE, ''/l''),
         (PROPERTIES, protocol_properties quiet_config), (START, ''start'')]"
proof -
  have "sample_supervisor greeting_answers = greeting_supervisor quiet_config"
    by (simp add: greeting_supervisor_def sample_supervisor_def)
  with greeting_loop_of [of quiet_config] sample_payloads show ?thesis by (simp add: greeting_of_def)
qed

theorem start_follows_greeting_witness:
  "\<exists>t w' before. event_loop (sample_supervisor greeting_answers) (sample_run 0) = Some (Inr (Outcome_Exited t 0), w')
     \<and> wire w' = before @ [(START, ''start'')]
     \<and> (\<exists>earlier f. before = earlier @
         [(LOW_LOG_LEVEL, show_nat (unat (low_log_level quiet_config))), (LOGFILE, f),
          (PROPERTIES, protocol_properties quiet_config)])"
proof -
  let ?before = "[(LOW_LOG_LEVEL, show_nat (unat (low_log_level quiet_config))), (LOGFILE, ''/l''),
    (PROPERTIES, protocol_properties quiet_config)]"
  obtain t w' where ended: "event_loop (sample_supervisor greeting_answers) (sample_run 0) = Some (Inr (Outcome_Exited t 0), w')"
    and sent: "wire w' = ?before @ [(START, ''start'')]"
    using greeting_loop by auto
  from start_follows_greeting [OF ended, of ?before "''start''" "[]"] sent
  have "\<exists>earlier f. ?before = earlier @
      [(LOW_LOG_LEVEL, show_nat (unat (low_log_level quiet_config))), (LOGFILE, f),
       (PROPERTIES, protocol_properties quiet_config)]" by simp
  with ended sent show ?thesis by metis
qed

end
