(* ===== verification/Lifecycle_Frame.thy ===== *)
theory Lifecycle_Frame
  imports Supervisor_Frame
begin

section \<open>What the supervisor does between the invocations\<close>

text \<open>
  Outside the invocations the supervisor only asks, logs and publishes. So a relation between
  worlds that these three respect and that every invocation maintains is maintained by the
  whole run, however it ends.
\<close>

locale lifecycle_frame = frame R for R :: "world \<Rightarrow> world \<Rightarrow> bool" +
  fixes S :: supervisor
  assumes steps_law: "R w (w\<lparr>steps := Suc (steps w)\<rparr>)"
    and logs_law: "R w (w\<lparr>logs := l\<rparr>)"
    and published_law: "R w (w\<lparr>published := e\<rparr>)"
begin

lemma asks [intro!]: "maintains R (ask f)"
  by (rule ask_frame, rule steps_law)

lemma asks_ok [intro!]: "maintains R (ask_ok f)"
  unfolding ask_ok_def by (auto split: option.splits)

lemma logs [intro!]: "maintains R (log_action m)"
  by (rule log_action_frame, rule logs_law)

lemma logs_line [intro!]: "maintains R (log_line S level source m)"
  by (auto simp: log_line_def say_def)

lemma emits [intro!]: "maintains R (emit k)"
  unfolding emit_def by (rule update_frame, rule published_law)

lemma nows [intro!]: "maintains R (now S)"
  by (auto simp: now_def)

lemma waits [intro!]:
  "maintains R (wait_for_restart S d)" "maintains R (wait_while_paused S)"
  "maintains R (stop_marker S n)" "maintains R (drop_pid_file f)"
  unfolding wait_for_restart_def restart_wait_round_def wait_while_paused_def stop_marker_def drop_pid_file_def
  by (auto intro!: and_then_frame loop_frame split: option.splits)

lemma launches [intro!]: "maintains R (prepare_launch S jid)" "maintains R (log_launch S jid cmd)"
  unfolding prepare_launch_def log_launch_def Let_def
  by (auto intro!: and_then_frame split: option.splits prod.splits)

lemma opens_logger [intro!]: "maintains R (open_logger S)"
  by (auto simp: maintains_def open_logger_def intro: logs_law split: prod.splits sum.splits)

lemma announces [intro!]: "maintains R (announce S)"
proof -
  have "maintains R (prepare_service_console P A b)" "maintains R (set_console_title P A)" for P A b
    unfolding prepare_service_console_def set_console_title_def
    by (auto intro!: and_then_frame split: option.splits)
  then have "maintains R (or_warn S m (prepare_service_console P A b))"
    "maintains R (or_warn S m (set_console_title P A))" for m P A b
    unfolding or_warn_def by (auto intro!: and_then_frame attempt_frame split: sum.splits)
  moreover have "maintains R (log_warning S v)" for v
    unfolding log_warning_def by auto
  ultimately show ?thesis
    unfolding announce_def by (auto intro!: and_then_frame for_all_frame)
qed

lemma prepares [intro!]: "maintains R (before_launch S)"
  unfolding before_launch_def Let_def by (auto intro!: and_then_frame simp del: ret_run)

text \<open>The life of the supervisor runs on the world with a local variable.\<close>

lemmas pair_frame = frame_snd [OF frame_axioms]

lemmas pair_rules =
  frame.and_then_frame [OF pair_frame] frame.ret_frame [OF pair_frame] frame.raise_frame [OF pair_frame]
  frame.peek_frame [OF pair_frame] frame.attempt_frame [OF pair_frame] on_world_frame

lemma local_updates [intro!]: "maintains (\<lambda>x y. R (snd x) (snd y)) (update (\<lambda>(lc, w). (g lc, w)))"
  by (rule update_frame) (auto simp: refl)

lemma after_outcome_frame: "maintains (\<lambda>x y. R (snd x) (snd y)) (after_outcome S outcome)"
proof -
  have "maintains (\<lambda>x y. R (snd x) (snd y)) (after_restart S t a n)"
    "maintains (\<lambda>x y. R (snd x) (snd y)) (after_pause S)" for t a n
    unfolding after_restart_def after_pause_def
    by (auto intro!: pair_rules split: paused_outcome.splits)
  then show ?thesis
    unfolding after_outcome_def by (auto intro!: pair_rules split: run_outcome.splits)
qed

lemma id_file_frames:
  "maintains (\<lambda>x y. R (snd x) (snd y)) (write_id_file S)"
  "maintains (\<lambda>x y. R (snd x) (snd y)) drop_id_file"
  unfolding write_id_file_def drop_id_file_def
  by (auto intro!: pair_rules split: option.splits sum.splits)

lemma run_frame:
  assumes "\<And>jid r. maintains R (run_once S jid r)"
  shows "maintains R (run S)"
proof -
  have "maintains (\<lambda>x y. R (snd x) (snd y)) (lifecycle_round S)"
    unfolding lifecycle_round_def launch_round_def
    by (auto intro!: pair_rules after_outcome_frame id_file_frames assms)
  then have "maintains R (with_local lc (finally_do (loop (lifecycle_round S)) drop_id_file))" for lc
    by (intro with_local_frame frame.finally_do_frame [OF pair_frame] frame.loop_frame [OF pair_frame] id_file_frames)
  then show ?thesis
    unfolding run_def by (auto intro!: and_then_frame finally_do_frame split: sum.splits)
qed

end

end
