(* ===== verification/Lifecycle_Properties.thy ===== *)
theory Lifecycle_Properties
  imports Supervisor_Properties Lifecycle_Frame
begin

section \<open>Correctness of the life of the supervisor\<close>

text \<open>
  No JVM is left behind when the supervisor returns; with a job object none is left behind
  however it ends; the restart throttle; pauses that are not reported.
\<close>

subsection \<open>No JVM is left behind\<close>

interpretation idle: lifecycle_frame "\<lambda>w w'. exited w \<longrightarrow> exited w'" S for S
  by unfold_locales (auto simp: exited_def)

text \<open>A computation that returns a value preserves a predicate; one that fails need not.\<close>

definition preserves :: "('w \<Rightarrow> bool) \<Rightarrow> ('w, 'a) io \<Rightarrow> bool" where
  "preserves P m \<longleftrightarrow> (\<forall>w x w'. P w \<and> m w = Some (Inr x, w') \<longrightarrow> P w')"

lemma preserves_and_then:
  "preserves P m \<Longrightarrow> (\<And>x. preserves P (f x)) \<Longrightarrow> preserves P (and_then m f)"
  unfolding preserves_def and_then_eq_Inr by blast

lemma preserves_raise: "preserves P (raise e)"
  by (simp add: preserves_def)

lemma preserves_loop: "preserves P m \<Longrightarrow> preserves P (loop m)"
proof -
  assume body: "preserves P m"
  have "P w \<longrightarrow> (\<exists>x. r = Inr x) \<longrightarrow> P w'" if "loop m w = Some (r, w')" for w r w'
    using that by (induction rule: loop_induct) (use body in \<open>auto simp: preserves_def\<close>)
  then show ?thesis by (auto simp: preserves_def)
qed

lemma preserves_frame: "maintains (\<lambda>w w'. P w \<longrightarrow> P w') m \<Longrightarrow> preserves P m"
  by (auto simp: preserves_def maintains_def)

lemma preserves_ensures: "ensures (\<lambda>_. P) m \<Longrightarrow> preserves P m"
  unfolding preserves_def ensures_def by blast

lemma preserves_on_world: "preserves P m \<Longrightarrow> preserves (\<lambda>x. P (snd x)) (on_world m)"
  by (auto simp: preserves_def on_world_def split: option.splits)

lemma preserves_with_local: "preserves (\<lambda>x. P (snd x)) m \<Longrightarrow> preserves P (with_local v m)"
  by (fastforce simp: preserves_def with_local_def split: option.splits)

lemma preserves_finally_do:
  "preserves P m \<Longrightarrow> maintains (\<lambda>w w'. P w \<longrightarrow> P w') clean \<Longrightarrow> preserves P (finally_do m clean)"
  unfolding preserves_def maintains_def finally_do_eq by (metis sum.distinct(1))

lemma supervise_exited: "ensures (\<lambda>_. exited) (supervise S jid r t0 l k cmd pid f)"
proof -
  have "ensures (\<lambda>_. exited) (with_run g (event_loop S))" for g
    using event_loop_reaps [of S]
    by (auto simp: ensures_def with_run_def exited_def world.defs split: option.splits)
  then show ?thesis
    unfolding supervise_def Let_def by (auto intro!: ensures_and_then)
qed

lemma holding_job_exited: "ensures (\<lambda>_. exited) m \<Longrightarrow> ensures (\<lambda>_. exited) (holding_job job m)"
  unfolding ensures_def holding_job_eq exited_def
  by (auto simp: close_handle_status split: option.splits)

lemma run_once_idle: "preserves exited (run_once S jid r)"
proof -
  have launch: "preserves exited (prepare_launch S jid)" "preserves exited (log_launch S jid cmd)" for cmd
    by (auto intro!: preserves_frame)
  have "ensures (\<lambda>_. exited) (finally_do (holding_job job (supervise S jid r t0 l k cmd pid f)) (drop_pid_file f))"
    for job t0 l k cmd pid f
    using holding_job_exited [OF supervise_exited] maintainsD [OF idle.waits(4)]
    unfolding ensures_def finally_do_eq by (metis (no_types, lifting) sum.distinct(1))
  moreover have "ensures (\<lambda>_. exited) (holding_job job (and_then (terminate_child A) (\<lambda>_. raise (Failed e)) :: (world, run_outcome) io))"
    for job A e
    by (intro holding_job_exited ensures_and_then ensures_raise)
  ultimately have "ensures (\<lambda>_. exited) (case f of
        Inl e \<Rightarrow> holding_job job (and_then (terminate_child A) (\<lambda>_. raise (Failed e)))
      | Inr f \<Rightarrow> finally_do (holding_job job (supervise S jid r t0 l k cmd pid f)) (drop_pid_file f))"
    for A job t0 l k cmd pid f
    by (auto split: sum.splits)
  then have started: "preserves exited (and_then (update (\<lambda>w. w\<lparr>child_pid := Some pid, child_status := None\<rparr>)) (\<lambda>_.
      and_then (assign_job S pid) (\<lambda>job. and_then m (\<lambda>f. case f of
        Inl e \<Rightarrow> holding_job job (and_then (terminate_child A) (\<lambda>_. raise (Failed e)))
      | Inr f \<Rightarrow> finally_do (holding_job job (supervise S jid r t0 l k cmd pid f)) (drop_pid_file f)))))"
    for m A t0 l k cmd pid
    by (intro preserves_ensures ensures_and_then)
  have failed: "preserves exited (and_then (log_line S a c b) (\<lambda>_. and_then (now S) (\<lambda>t. ret (x t))) :: (world, 'a) io)"
    for a b c and x :: "nat \<Rightarrow> 'a"
    by (auto intro!: preserves_frame idle.and_then_frame)
  have asks: "preserves exited (now S :: (world, nat) io)" "preserves exited (ask g :: (world, 'b) io)"
    for g :: "nat \<Rightarrow> 'b"
    by (auto intro!: preserves_frame)
  show ?thesis
    unfolding run_once_def
    by (intro preserves_and_then asks launch)
      (auto intro!: preserves_and_then launch asks started failed split: sum.splits prod.splits)
qed

lemma lifecycle_round_idle: "preserves (\<lambda>x. exited (snd x)) (lifecycle_round S)"
  unfolding lifecycle_round_def launch_round_def
  by (intro preserves_and_then preserves_frame [OF idle.after_outcome_frame])
    (auto intro!: preserves_frame idle.pair_rules preserves_on_world run_once_idle idle.id_file_frames)

lemma run_idle: "preserves exited (run S)"
proof -
  have "preserves exited (with_local lc (finally_do (loop (lifecycle_round S)) drop_id_file))" for lc
    by (intro preserves_with_local preserves_finally_do preserves_loop lifecycle_round_idle idle.id_file_frames)
  then have "preserves exited (case r of
        Inl exit_code \<Rightarrow> ret exit_code
      | Inr resuming \<Rightarrow> with_local (initial_lifecycle resuming)
          (finally_do (loop (lifecycle_round S)) drop_id_file))" for r
    by (auto simp: preserves_def split: sum.splits)
  then show ?thesis
    unfolding run_def by (intro preserves_and_then preserves_finally_do idle.waits) (auto intro!: preserves_frame)
qed

text \<open>
  C1. No JVM outlives the supervisor: whatever the JVM, the control channel, the console and
  the clock do, and however many JVMs are launched in between, when the supervisor returns an
  exit code the last JVM it launched has exited.
\<close>

theorem no_jvm_left_behind:
  assumes "exited w" and "run S w = Some (Inr exit_code, w')"
  shows "exited w'"
  using run_idle [of S] assms unfolding preserves_def by blast

theorem no_jvm_left_behind_witness:
  "\<exists>w'. run (sample_supervisor calm_answers) (sample_world\<lparr>child_status := Some None\<rparr>) = Some (Inr 0, w')
     \<and> exited w'"
proof -
  have "no_faults (snd quiet_log)" by (simp add: no_faults_def quiet_log_def sample_log_def)
  then obtain w' where
    "run (sample_supervisor calm_answers) (sample_world\<lparr>child_status := Some None\<rparr>) = Some (Inr 0, w')"
    using run_calm [of "sample_world\<lparr>child_status := Some None\<rparr>"] by (auto simp: sample_world_def)
  with no_jvm_left_behind [OF _ this] show ?thesis by (auto simp: exited_def)
qed

subsection \<open>The restart throttle\<close>

text \<open>
  The rounds of the lifecycle with the outcomes of their invocations, as long as the
  supervisor goes on.
\<close>

inductive rounds :: "supervisor \<Rightarrow> lifecycle \<times> world \<Rightarrow> run_outcome list \<Rightarrow> lifecycle \<times> world \<Rightarrow> bool"
  for S s where
  start: "rounds S s [] s"
| again: "rounds S s outcomes t \<Longrightarrow> launch_round S t = Some (Inr outcome, u) \<Longrightarrow>
    after_outcome S outcome u = Some (Inr None, v) \<Longrightarrow> rounds S s (outcomes @ [outcome]) v"

text \<open>A short invocation asks for a restart too early; the last ones in a row are counted.\<close>

definition short :: "supervisor \<Rightarrow> run_outcome \<Rightarrow> bool" where
  "short S outcome \<longleftrightarrow>
     (case resolve_exit S outcome of
       Outcome_Restart t _ _ \<Rightarrow> t < from_secs (successful_seconds S)
     | _ \<Rightarrow> False)"

definition streak :: "supervisor \<Rightarrow> run_outcome list \<Rightarrow> nat" where
  "streak S outcomes = length (takeWhile (short S) (rev outcomes))"

lemma streak_snoc: "streak S (outcomes @ [x]) = (if short S x then Suc (streak S outcomes) else 0)"
  by (simp add: streak_def)

lemma on_world_fst: "on_world m s = Some (r, s') \<Longrightarrow> fst s' = fst s"
  by (auto simp: on_world_def split: option.splits)

lemma launch_round_failed: "launch_round S s = Some (r, s') \<Longrightarrow> lc_failed (fst s') = lc_failed (fst s)"
proof -
  have "frame (\<lambda>s s' :: lifecycle \<times> world. lc_failed (fst s') = lc_failed (fst s))"
    by unfold_locales auto
  note rules = frame.and_then_frame [OF this] frame.ret_frame [OF this] frame.peek_frame [OF this]
    frame.attempt_frame [OF this]
  have world: "maintains (\<lambda>s s' :: lifecycle \<times> world. lc_failed (fst s') = lc_failed (fst s)) (on_world m)" for m
    by (auto simp: maintains_def dest: on_world_fst)
  have "maintains (\<lambda>s s'. lc_failed (fst s') = lc_failed (fst s)) (launch_round S)"
    unfolding launch_round_def write_id_file_def
    by (auto intro!: rules world update_frame split: option.splits sum.splits)
  then show "launch_round S s = Some (r, s') \<Longrightarrow> ?thesis" by (rule maintainsD)
qed

lemma stop_marker_value: "on_world (stop_marker S n) s \<noteq> Some (Inr None, s')"
  by (auto simp: on_world_def stop_marker_def and_then_eq_Inr split: option.splits)

lemma max_failed_pos: "0 < max_failed S"
  by (simp add: max_failed_def less_max_iff_disj)

lemma after_restart_goes_on:
  assumes "after_restart S t automatic n s = Some (Inr None, s')"
  shows "lc_failed (fst s') = failed_after S t (lc_failed (fst s)) \<and> \<not> max_failed S \<le> lc_failed (fst s')"
  using assms
  by (auto simp: after_restart_def and_then_eq_Inr stop_marker_value split: if_splits prod.splits
    dest!: on_world_fst)

lemma after_outcome_goes_on:
  assumes "after_outcome S outcome s = Some (Inr None, s')"
  shows "lc_failed (fst s') < max_failed S
    \<and> lc_failed (fst s') = (if short S outcome then saturating_add1 (lc_failed (fst s)) else 0)"
proof (cases "resolve_exit S outcome")
  case (Outcome_Restart t automatic n)
  with assms after_restart_goes_on [of S t automatic n s s'] show ?thesis
    by (auto simp: after_outcome_def short_def failed_after_def not_le not_less)
next
  case Outcome_Pause
  with assms show ?thesis
    by (auto simp: after_outcome_def after_pause_def short_def and_then_eq_Inr stop_marker_value max_failed_pos
      split: paused_outcome.splits prod.splits dest!: on_world_fst)
      (use paused_outcome.exhaust in blast)+
qed (use assms in \<open>auto simp: after_outcome_def stop_marker_value\<close>)

lemma saturating_add1_below: "n < m \<Longrightarrow> unat (saturating_add1 n) = Suc (unat n)" for n m :: "'a::len word"
proof -
  assume "n < m"
  then have "n \<noteq> - 1" by (metis word_n1_ge leD)
  then have "1 + n \<noteq> 0" by (metis add_eq_0_iff)
  with \<open>n \<noteq> - 1\<close> show ?thesis by (simp add: saturating_add1_def unatSuc add.commute)
qed

text \<open>
  C3. The restart throttle: between two launches the count of failed invocations is exactly
  the number of invocations in a row, up to the last one, that asked for a restart before
  \<open>wrapper.successful_invocation_time\<close>, and it is below \<open>wrapper.max_failed_invocations\<close>
  (at least 1). So an application that keeps failing early is launched at most that many times
  in a row; a long enough run or a pause starts the count again. The counter never saturates.
\<close>

theorem restart_throttle:
  assumes "rounds S (initial_lifecycle resuming, w) outcomes s"
  shows "unat (lc_failed (fst s)) = streak S outcomes \<and> streak S outcomes < unat (max_failed S)"
proof -
  have "unat (lc_failed (fst s)) = streak S outcomes \<and> lc_failed (fst s) < max_failed S"
    using assms
  proof (induction rule: rounds.induct)
    case start
    show ?case by (simp add: initial_lifecycle_def streak_def max_failed_pos)
  next
    case (again outcomes t outcome u v)
    from launch_round_failed [OF again.hyps(2)] after_outcome_goes_on [OF again.hyps(3)] again.IH
    show ?case by (auto simp: streak_snoc saturating_add1_below)
  qed
  then show ?thesis by (metis word_less_nat_alt)
qed

text \<open>A world in which the JVM cannot be launched and no control arrives.\<close>

definition failing_answers :: answers where
  "failing_answers = calm_answers\<lparr>a_spawn := \<lambda>_. Inl not_found, a_now := \<lambda>n. n * 10000000000,
     a_control := \<lambda>_. Recv_Timeout\<rparr>"

lemma failing_simps [simp]:
  "a_spawn failing_answers n = Inl not_found" "a_now failing_answers n = n * 10000000000"
  "a_control failing_answers n = Recv_Timeout" "a_bind failing_answers = a_bind calm_answers"
  "a_random failing_answers = a_random calm_answers"
  by (simp_all add: failing_answers_def)

lemma launch_round_failing:
  "\<exists>u. launch_round (sample_supervisor failing_answers) (initial_lifecycle False, sample_world) =
     Some (Inr (Outcome_Restart 40000000000 True 1), (initial_lifecycle False, u)) \<and> steps u = 5 \<and> quiet (logs u)"
proof -
  let ?S = "sample_supervisor failing_answers"
  obtain l k cmd where "prepare_launch ?S 1 (sample_world\<lparr>steps := 1, published := [JvmLaunching 1]\<rparr>)
      = Some (Inr (l, k, cmd), sample_world\<lparr>steps := 3, published := [JvmLaunching 1]\<rparr>)"
    using prepare_calm [of failing_answers 1 "sample_world\<lparr>steps := 1, published := [JvmLaunching 1]\<rparr>"]
    by (auto simp: numeral_3_eq_3)
  then show ?thesis
    by (simp add: launch_round_def write_id_file_def initial_lifecycle_def no_pid_files and_then_def
      on_world_def log_action_def returns_def attempt_def emit_def run_once_def now_def log_launch_def Let_def
      sample_world_def split: option.splits)
qed

theorem restart_throttle_witness:
  "\<exists>s. rounds (sample_supervisor failing_answers) (initial_lifecycle False, sample_world)
       [Outcome_Restart 40000000000 True 1] s
     \<and> unat (lc_failed (fst s)) = 1 \<and> 1 < unat (max_failed (sample_supervisor failing_answers))"
proof -
  let ?S = "sample_supervisor failing_answers"
  obtain u where launched: "launch_round ?S (initial_lifecycle False, sample_world) =
      Some (Inr (Outcome_Restart 40000000000 True 1), (initial_lifecycle False, u))"
    "steps u = 5" "quiet (logs u)"
    using launch_round_failing by blast
  have settings: "max_failed ?S = 5" "successful_seconds ?S = 300" "restarts_disabled ?S True = False"
    by (simp_all add: max_failed_def successful_seconds_def restarts_disabled_def get_u64_def get_bool_def
      get_quiet_config max_def word_le_nat_alt)
  have "\<exists>s. after_outcome ?S (Outcome_Restart 40000000000 True 1) (initial_lifecycle False, u) = Some (Inr None, s)"
    using launched(2,3) settings
    by (simp add: after_outcome_def resolve_exit_def after_restart_def and_then_def failed_after_def from_secs_def
      initial_lifecycle_def saturating_add1_def on_world_def wait_for_restart_def now_def restart_wait_round_def
      loop.simps plus_time_small instant_limit_def get_u64_def get_quiet_config word_le_nat_alt)
  then obtain s where "rounds ?S (initial_lifecycle False, sample_world)
      ([] @ [Outcome_Restart 40000000000 True 1]) s"
    using rounds.again [OF rounds.start launched(1)] by blast
  with restart_throttle [OF this] settings show ?thesis
    by (intro exI [of _ s]) (simp add: streak_def short_def resolve_exit_def from_secs_def)
qed

subsection \<open>Pauses that nobody is told of\<close>

text \<open>
  When an exit action pauses the service, no event is published, while every other pause
  publishes one: the service control manager is never told.
\<close>

lemma exit_pause_is_silent:
  assumes "resolve_exit S (Outcome_Exited t n) = Outcome_Pause"
    and "after_outcome S (Outcome_Exited t n) s = Some (r, s')"
  shows "published (snd s') = published (snd s)"
proof -
  let ?R = "\<lambda>w w' :: world. published w' = published w"
  let ?P = "\<lambda>x y :: lifecycle \<times> world. published (snd y) = published (snd x)"
  have frames: "frame ?R" "frame ?P" by (unfold_locales, auto)+
  note rules = frame.and_then_frame [OF frames(1)] frame.ret_frame [OF frames(1)] frame.loop_frame [OF frames(1)]
  note pair_rules = frame.and_then_frame [OF frames(2)] frame.ret_frame [OF frames(2)]
  have calls: "maintains ?R (wait_while_paused S)" "maintains ?R (stop_marker S k)" for k
    unfolding wait_while_paused_def stop_marker_def log_line_def say_def
    by (auto intro!: rules ask_frame log_action_frame)
  have update_frame: "maintains ?P (update (\<lambda>(lc, w). (f lc, w)))" for f :: "lifecycle \<Rightarrow> lifecycle"
    by (auto simp: maintains_def)
  have "maintains ?P (after_pause S)"
    unfolding after_pause_def
    using on_world_frame [OF calls(1)] on_world_frame [OF calls(2)]
    by (intro pair_rules) (auto split: paused_outcome.split intro!: pair_rules simp: update_frame)
  with assms show ?thesis by (auto simp: after_outcome_def dest: maintainsD)
qed

end
