(* ===== verification/Supervisor_Deadlines.thy ===== *)
theory Supervisor_Deadlines
  imports Supervisor_Properties
begin

section \<open>The deadlines of the ticker\<close>

text \<open>
  A tick lets an invocation go on exactly while the JVM is within its start-up deadline and
  its ping allowance; and only an application that may be paused is ever paused in place.
\<close>

subsection \<open>What stopping the JVM leaves alone\<close>

text \<open>The fields the deadlines are computed from.\<close>

definition same_watch :: "jvm_run \<Rightarrow> jvm_run \<Rightarrow> bool" where
  "same_watch w w' \<longleftrightarrow>
     started w' = started w \<and> startup_deadline w' = startup_deadline w \<and> ever_connected w' = ever_connected w
     \<and> last_ping_response w' = last_ping_response w \<and> ping_timeout w' = ping_timeout w
     \<and> ping_interval w' = ping_interval w \<and> heap_dump_task w' = heap_dump_task w"

interpretation watch: stopping same_watch S for S
proof unfold_locales
  show "maintains same_watch (connection_send S c m)" for c m
    unfolding connection_send_def
    by (auto simp: maintains_def and_then_eq_Some same_watch_def split: sum.splits option.splits)
qed (auto simp: same_watch_def)

subsection \<open>The verdict of a tick\<close>

definition allowance :: "jvm_run \<Rightarrow> nat" where
  "allowance w = ping_timeout w + ping_interval w
     + (case heap_dump_task w of None \<Rightarrow> 0 | Some task \<Rightarrow> task_timeout task)"

definition in_time :: "nat \<Rightarrow> jvm_run \<Rightarrow> bool" where
  "in_time t w \<longleftrightarrow> (\<forall>deadline. startup_deadline w = Some deadline \<longrightarrow> started w \<or> t < deadline)
     \<and> (0 < ping_timeout w \<and> ever_connected w \<longrightarrow> t \<le> last_ping_response w + allowance w)"

lemma in_time_alt:
  "in_time t w \<longleftrightarrow> \<not> startup_expired t w
     \<and> (0 < ping_timeout w \<and> ever_connected w \<longrightarrow> t \<le> last_ping_response w + allowance w)"
  by (auto simp: in_time_def startup_expired_def not_less split: option.splits)

lemma in_time_same: "same_watch w w' \<Longrightarrow> in_time t w' = in_time t w"
  by (simp add: same_watch_def in_time_def allowance_def)

lemma tick_ping_watch: "maintains same_watch (tick_ping S t)"
proof -
  have "PING \<noteq> START" by (simp add: packet_codes)
  moreover have "maintains same_watch (update (\<lambda>w. w\<lparr>next_ping := n\<rparr>))" for n
    by (rule update_frame) (simp add: same_watch_def)
  ultimately show ?thesis
    unfolding tick_ping_def
    by (auto intro!: watch.and_then_frame watch.sends_if_connected)
qed

lemma watchdog_allowance_value: "watchdog_allowance w v = Some (Inr n, v') \<Longrightarrow> n = allowance w \<and> v' = v"
  by (auto simp: watchdog_allowance_def and_then_eq_Inr plus_time_def instant_add_def allowance_def
    split: if_splits)

lemma restart_with_value:
  assumes "restart_with S n b w = Some (Inr r, w')"
  shows "(\<exists>e. r = Some (Outcome_Restart e b n)) \<and> same_watch w w'"
proof
  show "\<exists>e. r = Some (Outcome_Restart e b n)"
    using assms by (auto simp: restart_with_def and_then_eq_Inr)
qed (rule maintainsD [OF watch.shutdown_calls(3) assms])

lemma tick_exit_value: "ensures (\<lambda>r w. r = None \<or> (\<exists>e n. r = Some (Outcome_Exited e n))) (tick_exit S)"
  unfolding tick_exit_def
  by (auto intro!: ensures_and_then ensures_ret split: option.split)

lemma log_line_watch: "log_line S level source m w = Some (r, w') \<Longrightarrow> same_watch w w'"
  by (rule maintainsD [OF watch.logs_line])

lemma tick_startup_verdict:
  assumes "tick_startup S t w = Some (Inr r, w')"
  shows "same_watch w w' \<and> (if startup_expired t w then \<exists>e. r = Some (Outcome_Restart e True 1) else r = None)"
proof (cases "startup_expired t w")
  case True
  with assms obtain v where "log_line S Level_Error From_Wrapper (startup_message w) w = Some (Inr (), v)"
    "restart_with S 1 True v = Some (Inr r, w')"
    by (auto simp: tick_startup_def and_then_eq_Inr)
  with True show ?thesis using log_line_watch restart_with_value watch.trans by (metis (full_types))
qed (use assms in \<open>auto simp: tick_startup_def and_then_eq_Inr same_watch_def\<close>)

lemma tick_watchdog_verdict:
  assumes "tick_watchdog S t w = Some (Inr r, w')" and "\<not> startup_expired t w"
  shows "same_watch w w' \<and> (if in_time t w then r = None else \<exists>e. r = Some (Outcome_Restart e True 1))"
proof (cases "0 < ping_timeout w \<and> ever_connected w \<and> allowance w < t - last_ping_response w")
  case True
  with assms(1) obtain m v where "log_line S Level_Error From_Wrapper m w = Some (Inr (), v)"
    "restart_with S 1 True v = Some (Inr r, w')"
    by (auto simp: tick_watchdog_def and_then_eq_Inr dest!: watchdog_allowance_value)
  moreover from True have "\<not> in_time t w" by (auto simp: in_time_alt)
  ultimately show ?thesis using log_line_watch restart_with_value watch.trans by (metis (full_types))
next
  case False
  with assms(2) have "in_time t w" by (auto simp: in_time_alt)
  with False assms(1) show ?thesis
    by (auto simp: tick_watchdog_def and_then_eq_Inr same_watch_def dest!: watchdog_allowance_value
      split: if_splits)
qed

lemma verdict_of_deadlines:
  assumes "tick_startup S t y = Some (Inr expired, z)"
    and "if expired = None then \<exists>z'. tick_ping S t z = Some (Inr (), z') \<and> tick_watchdog S t z' = Some (Inr r, w')
      else r = expired \<and> z = w'"
  shows "if in_time t w' then r = None else \<exists>e. r = Some (Outcome_Restart e True 1)"
proof (cases expired)
  case None
  with assms obtain z' where z: "same_watch y z" "\<not> startup_expired t y" "same_watch z z'"
    "tick_watchdog S t z' = Some (Inr r, w')"
    using tick_startup_verdict maintainsD [OF tick_ping_watch] by (metis option.distinct(1))
  then have "\<not> startup_expired t z'" by (simp add: same_watch_def startup_expired_def)
  with tick_watchdog_verdict [OF z(4)] show ?thesis using in_time_same [of z' w'] by simp
next
  case Some
  with tick_startup_verdict [OF assms(1)] assms(2) have "startup_expired t y" "same_watch y w'"
    "\<exists>e. r = Some (Outcome_Restart e True 1)" by (auto split: if_splits)
  then show ?thesis using in_time_same [of y w'] by (simp add: in_time_alt)
qed

text \<open>
  C4. A tick of the event loop lets the JVM run on exactly while it is in time. Unless the JVM
  has exited, there is a reading of the clock within the tick that decides: if by then the
  start-up deadline has passed without the application having reported that it started, or
  the last answer of the JVM is older than the ping timeout, the ping interval and the time
  limit of a running heap dump together, the outcome is an automatic restart with exit code 1;
  in every other case there is no outcome and the loop goes on.
\<close>

theorem tick_enforces_deadlines:
  assumes "tick S w = Some (Inr r, w')"
  shows "(\<exists>e n. r = Some (Outcome_Exited e n))
     \<or> (\<exists>n. steps w \<le> n \<and> n < steps w'
          \<and> (if in_time (a_now (sup_answers S) n) w' then r = None
             else \<exists>e. r = Some (Outcome_Restart e True 1)))"
proof -
  from assms obtain u v exited where calls: "poll_heap_dump S w = Some (Inr (), u)" "tick_exit S u = Some (Inr exited, v)"
    and rest: "exited = None \<Longrightarrow> \<exists>x t y expired z. tick_connection S v = Some (Inr (), x) \<and> now S x = Some (Inr t, y)
        \<and> tick_startup S t y = Some (Inr expired, z) \<and>
        (if expired = None then \<exists>z'. tick_ping S t z = Some (Inr (), z') \<and> tick_watchdog S t z' = Some (Inr r, w')
         else r = expired \<and> z = w')"
      "exited \<noteq> None \<Longrightarrow> r = exited"
    by (auto simp: tick_def and_then_eq_Inr split: option.splits if_splits; fastforce)
  show ?thesis
  proof (cases exited)
    case (Some x)
    with calls(2) rest(2) show ?thesis
      using tick_exit_value [of S] by (fastforce simp: ensures_def)
  next
    case None
    with rest(1) obtain x t y expired z where later: "tick_connection S v = Some (Inr (), x)" "now S x = Some (Inr t, y)"
      "tick_startup S t y = Some (Inr expired, z)"
      "if expired = None then \<exists>z'. tick_ping S t z = Some (Inr (), z') \<and> tick_watchdog S t z' = Some (Inr r, w')
       else r = expired \<and> z = w'" by blast
    have "steps w \<le> steps x"
      using maintainsD [OF counting.heap_dump_calls(2) calls(1)] maintainsD [OF counting.tick_parts(1) calls(2)]
        maintainsD [OF counting.tick_parts(2) later(1)] by simp
    moreover from later(2) have t: "t = a_now (sup_answers S) (steps x)" "steps y = Suc (steps x)"
      by (auto simp: now_def)
    moreover have "steps y \<le> steps w'"
      using maintainsD [OF counting.tick_parts(3) later(3)] later(4)
        maintainsD [OF counting.tick_parts(4)] maintainsD [OF counting.tick_parts(5)]
      by (fastforce split: if_splits)
    moreover have "if in_time t w' then r = None else \<exists>e. r = Some (Outcome_Restart e True 1)"
      using later(3,4) by (rule verdict_of_deadlines)
    ultimately show ?thesis by auto
  qed
qed

text \<open>A world in which the clock is past the start-up deadline and the JVM neither connects nor exits.\<close>

definition late_answers :: answers where
  "late_answers = calm_answers
     \<lparr>a_now := \<lambda>n. 40000000000 + n, a_try_wait := \<lambda>_. Inr None,
      a_poll := \<lambda>_. \<lparr>poll_accepts = [], poll_now = 0, poll_answers = (\<lambda>_. Read_Bytes []), poll_setup = (None, None)\<rparr>\<rparr>"

lemma late_simps [simp]:
  "a_now late_answers n = 40000000000 + n" "a_try_wait late_answers n = Inr None"
  "a_kill late_answers n = None" "a_wait late_answers n = Inr (Some 0)" "a_output late_answers n = Recv_Closed"
  "poll_accepts (a_poll late_answers n) = []"
  by (simp_all add: late_answers_def calm_answers_def)

lemma late_poll:
  "poll_authentication [] t r k expected d \<lparr>port = p, pending = []\<rparr> = (Inr None, \<lparr>port = p, pending = []\<rparr>)"
  by (simp add: poll_authentication_def advance_from.simps lift_error_def map_error_def)

lemma late_tick:
  "\<exists>e w'. tick (sample_supervisor late_answers) (sample_run 0) = Some (Inr (Some (Outcome_Restart e True 1)), w')"
  by (simp add: tick_def run_simps poll_heap_dump_def tick_exit_def try_wait_def tick_connection_def
    poll_listener_def late_poll tick_startup_def startup_expired_def restart_with_def shutdown_and_drain_def
    send_if_connected_def terminate_child_def wait_child_def drain_remaining_output_def loop.simps elapsed_def)

theorem tick_enforces_deadlines_witness:
  "\<exists>e w' n. tick (sample_supervisor late_answers) (sample_run 0) = Some (Inr (Some (Outcome_Restart e True 1)), w')
     \<and> n < steps w' \<and> \<not> in_time (a_now late_answers n) w'"
proof -
  obtain e w' where late: "tick (sample_supervisor late_answers) (sample_run 0)
      = Some (Inr (Some (Outcome_Restart e True 1)), w')" using late_tick by blast
  with tick_enforces_deadlines [OF late] show ?thesis by (auto split: if_splits)
qed

subsection \<open>Pausing in place\<close>

interpretation pausing: wireless_invocation
    "\<lambda>w w'. (paused_in_place w \<longrightarrow> pausable S) \<longrightarrow> paused_in_place w' \<longrightarrow> pausable S" S for S
  by unfold_locales auto

text \<open>Whatever filters, controls and packets ask for, only a pausable application is paused in place.\<close>

lemma only_pausable_pauses:
  "event_loop S w = Some (r, w') \<Longrightarrow> \<not> paused_in_place w \<Longrightarrow> paused_in_place w' \<Longrightarrow> pausable S"
  using maintainsD [OF pausing.event_loop_frame] by blast

end
