(* ===== verification/Supervisor_Liveness.thy ===== *)
theory Supervisor_Liveness
  imports Supervisor_Properties
begin

section \<open>The supervisor stays responsive\<close>

text \<open>
  The loops inside the handlers (waiting for the exit, draining the output, capturing a
  thread dump) end if the clock advances and the pipes fall silent. Without silence the drain
  need not end: its deadline is only looked at when no output is there.
\<close>

subsection \<open>Computations that return\<close>

definition always_returns :: "('w, 'a) io \<Rightarrow> bool" where
  "always_returns m \<longleftrightarrow> (\<forall>w. m w \<noteq> None)"

lemma total_basic [intro!]:
  "always_returns (ret x)" "always_returns (raise e)" "always_returns (peek g)" "always_returns (update h)" "always_returns (from_result r)"
  "always_returns (plus_time a b)" "always_returns (emit k)"
  by (simp_all add: always_returns_def plus_time_def emit_def)

lemma total_ask [intro!]: "always_returns (ask f)"
  by (simp add: always_returns_def)

lemma total_log [intro!]: "always_returns (log_action m)" "always_returns (log_line S a b c)"
  by (simp_all add: always_returns_def log_action_def log_line_def say_def split: prod.splits)

lemma total_and_then [intro]: "always_returns m \<Longrightarrow> (\<And>x. always_returns (f x)) \<Longrightarrow> always_returns (and_then m f)"
  by (auto simp: always_returns_def and_then_def split: option.splits sum.splits)

lemma total_asks [intro!]: "always_returns (ask_ok f)" "always_returns (ask_result g)" "always_returns (now S)"
  unfolding ask_ok_def ask_result_def now_def by (auto intro!: total_and_then split: option.splits sum.splits)

lemma total_attempt [intro]: "always_returns m \<Longrightarrow> always_returns (attempt m)"
  by (auto simp: always_returns_def attempt_def split: option.splits sum.splits fault.splits)

lemma total_for_all [intro]: "(\<And>x. always_returns (f x)) \<Longrightarrow> always_returns (for_all f xs)"
  by (induction xs) auto

lemma total_first_outcome [intro]: "(\<And>x. always_returns (f x)) \<Longrightarrow> always_returns (first_outcome f xs)"
  by (induction xs) (auto split: option.splits)

lemma total_on_world [intro]: "always_returns m \<Longrightarrow> always_returns (on_world m)"
  by (auto simp: always_returns_def on_world_def split: option.splits)

lemma total_with_local [intro]: "always_returns m \<Longrightarrow> always_returns (with_local v m)"
  by (auto simp: always_returns_def with_local_def split: option.splits)

text \<open>
  A loop over the calls of the world: each round makes a call, and from some call on no round
  goes on.
\<close>

lemma total_loop:
  fixes count :: "'w \<Rightarrow> nat"
  assumes "always_returns body" and "\<And>w w'. body w = Some (Inr None, w') \<Longrightarrow> count w < count w' \<and> count w < N"
  shows "always_returns (loop body)"
  unfolding always_returns_def
proof
  fix w
  have "\<exists>r w'. loop body w = Some (r, w')"
  proof (rule loop_returns [where I = "\<lambda>_. True" and m = "\<lambda>w. N - count w"])
    fix w
    from assms(1) obtain r w' where "body w = Some (r, w')" unfolding always_returns_def by fastforce
    with assms(2) [of w w'] show "\<exists>r w'. body w = Some (r, w') \<and> (r = Inr None \<longrightarrow> True \<and> N - count w' < N - count w)"
      by fastforce
  qed simp
  then show "loop body w \<noteq> None" by auto
qed

subsection \<open>What the world is asked for\<close>

definition clock_runs :: "answers \<Rightarrow> bool" where
  "clock_runs A \<longleftrightarrow> (\<forall>t. \<exists>N. \<forall>n\<ge>N. t \<le> a_now A n)"

definition output_ends :: "answers \<Rightarrow> bool" where
  "output_ends A \<longleftrightarrow> (\<exists>N. \<forall>n\<ge>N. \<forall>line. a_output A n \<noteq> Received line)"

definition tool_output_ends :: "answers \<Rightarrow> bool" where
  "tool_output_ends A \<longleftrightarrow> (\<exists>N. \<forall>n\<ge>N. \<forall>line. a_jcmd_output A n \<noteq> Received line)"

subsection \<open>The loops\<close>

lemma total_record [intro!]: "always_returns (jvm_log S level line)" "always_returns (record_output S line)"
  unfolding record_output_def jvm_log_def Let_def by (auto intro!: total_and_then total_for_all)

lemma total_drain:
  assumes "clock_runs (sup_answers S)" and "output_ends (sup_answers S)"
  shows "always_returns (drain_remaining_output S)"
proof -
  from assms(2) obtain M where silent: "\<And>n line. M \<le> n \<Longrightarrow> a_output (sup_answers S) n \<noteq> Received line"
    unfolding output_ends_def by blast
  have "always_returns (loop (and_then (ask (a_output (sup_answers S))) (\<lambda>r.
         case r of
           Received line \<Rightarrow> and_then (record_output S line) (\<lambda>_. ret None)
         | Recv_Closed \<Rightarrow> ret (Some ())
         | Recv_Timeout \<Rightarrow> and_then (now S) (\<lambda>t. ret (if deadline \<le> t then Some () else None)))))"
    for deadline
  proof -
    from assms(1) obtain K where late: "\<And>n. K \<le> n \<Longrightarrow> deadline \<le> a_now (sup_answers S) n"
      unfolding clock_runs_def by blast
    show ?thesis
    proof (rule total_loop [where N = "M + K" and count = steps], goal_cases)
      case (2 w w')
      then show ?case
      proof (cases "a_output (sup_answers S) (steps w)")
        case (Received line)
        with 2 obtain x where "record_output S line (w\<lparr>steps := Suc (steps w)\<rparr>) = Some (Inr x, w')"
          by (auto simp: and_then_eq_Inr)
        from maintainsD [OF counting.output_calls(2) this] have "steps w < steps w'" by simp
        moreover from silent Received have "steps w < M" using not_le by blast
        ultimately show ?thesis by simp
      next
        case Recv_Timeout
        with 2 have "w' = w\<lparr>steps := Suc (Suc (steps w))\<rparr>" "\<not> deadline \<le> a_now (sup_answers S) (Suc (steps w))"
          by (auto simp: and_then_eq_Inr now_def split: if_splits)
        moreover from late this(2) have "Suc (steps w) < K" using not_le by blast
        ultimately show ?thesis by simp
      qed (use 2 in \<open>simp add: and_then_eq_Inr\<close>)
    qed (auto intro!: total_and_then split: recv.splits)
  qed
  then show ?thesis
    unfolding drain_remaining_output_def by (auto intro!: total_and_then)
qed

lemma total_child [intro!]: "always_returns (try_wait A)" "always_returns (wait_child A)" "always_returns (terminate_child A)"
proof -
  show t: "always_returns (try_wait A)" and w: "always_returns (wait_child A)"
    unfolding try_wait_def wait_child_def by (auto intro!: total_and_then split: option.splits)
  show "always_returns (terminate_child A)"
    unfolding terminate_child_def by (auto intro!: total_and_then t w)
qed

lemma total_wait:
  assumes "clock_runs (sup_answers S)" and "output_ends (sup_answers S)"
  shows "always_returns (wait_for_exit S timeout)"
proof -
  have "always_returns (loop (wait_round S deadline))" for deadline
  proof -
    from assms(1) obtain K where late: "\<And>n. K \<le> n \<Longrightarrow> deadline \<le> a_now (sup_answers S) n"
      unfolding clock_runs_def by blast
    show ?thesis
    proof (rule total_loop [where N = K and count = steps], goal_cases)
      case 1
      show ?case
        unfolding wait_round_def
        by (auto intro!: total_and_then total_for_all total_drain assms split: recv.splits)
    next
      case (2 w w')
      define more where "more = and_then (ask (a_output (sup_answers S))) (\<lambda>r.
           case r of
             Received line \<Rightarrow>
               and_then (record_output S line) (\<lambda>_.
               and_then (ask (a_batch (sup_answers S))) (\<lambda>batch.
               and_then (for_all (\<lambda>l. and_then (record_output S l) (\<lambda>_. ret ())) (take output_batch batch)) (\<lambda>_.
                 ret None)))
           | _ \<Rightarrow> ret (None :: bool option))"
      have "maintains (\<lambda>w w'. steps w \<le> steps w') more"
        unfolding more_def by (auto intro!: counting.and_then_frame counting.for_all_frame split: recv.splits)
      moreover from 2 obtain x v where "try_wait (sup_answers S) w = Some (Inr x, v)"
        and "\<not> deadline \<le> a_now (sup_answers S) (steps v)" "more (v\<lparr>steps := Suc (steps v)\<rparr>) = Some (Inr None, w')"
        unfolding wait_round_def more_def by (auto simp: and_then_eq_Inr now_def split: if_splits)
      moreover from maintainsD [OF counting.child_calls(1) this(1)] have "steps w \<le> steps v" .
      moreover from late [of "steps v"] calculation(3) have "steps v < K" using not_le by blast
      ultimately show ?case using maintainsD [of "\<lambda>w w'. steps w \<le> steps w'" more] by fastforce
    qed
  qed
  then show ?thesis
    unfolding wait_for_exit_def by (auto intro!: total_and_then)
qed

lemma total_tool_drain:
  assumes "tool_output_ends A" and "\<And>line. always_returns (record_line line)"
    and count: "\<And>line. maintains (\<lambda>w w'. steps w \<le> steps w') (record_line line)"
  shows "always_returns (drain_jcmd_output A record_line)"
proof -
  from assms(1) obtain M where silent: "\<And>n line. M \<le> n \<Longrightarrow> a_jcmd_output A n \<noteq> Received line"
    unfolding tool_output_ends_def by blast
  show ?thesis
    unfolding drain_jcmd_output_def
  proof (rule total_loop [where N = M and count = steps], goal_cases)
    case (2 w w')
    then obtain line x where line: "a_jcmd_output A (steps w) = Received line"
      "record_line line (w\<lparr>steps := Suc (steps w)\<rparr>) = Some (Inr x, w')"
      by (auto simp: and_then_eq_Inr split: recv.splits)
    from maintainsD [OF count line(2)] silent [of "steps w"] line(1) show ?case
      using not_le by fastforce
  qed (auto intro!: total_and_then assms split: recv.splits)
qed

lemma capture_round_goes_on:
  assumes "capture_round A deadline record_line vw = Some (Inr None, vw')"
    and count: "\<And>line. maintains (\<lambda>w w'. steps w \<le> steps w') (record_line line)"
  shows "\<exists>n. steps (snd vw) \<le> n \<and> n < steps (snd vw') \<and> a_now A n < deadline"
proof -
  have "frame (\<lambda>w w' :: 'a world_scheme. steps w \<le> steps w')" by unfold_locales auto
  note pair = frame_snd [OF this]
  have asks: "maintains (\<lambda>w w' :: 'a world_scheme. steps w \<le> steps w') (ask f)" for f :: "nat \<Rightarrow> 'b"
    by (rule ask_frame) simp
  define heard where "heard = (\<lambda>closed. if closed then ret ()
        else and_then (on_world (ask (a_jcmd_output A))) (\<lambda>r.
          case r of
            Received line \<Rightarrow> on_world (record_line line)
          | Recv_Closed \<Rightarrow> update (\<lambda>vw. (True, snd vw))
          | Recv_Timeout \<Rightarrow> ret ()))"
  have out: "maintains (\<lambda>x y. steps (snd x) \<le> steps (snd y)) (heard closed)" for closed
    unfolding heard_def
    by (auto intro!: frame.and_then_frame [OF pair] frame.ret_frame [OF pair] on_world_frame asks count update_frame
      split: recv.splits)
  from assms(1) obtain v where v: "heard (fst vw) vw = Some (Inr (), v)"
    "and_then (on_world (ask_result (a_jcmd_try_wait A))) (\<lambda>status.
       case status of
         Some ec \<Rightarrow> and_then (on_world (drain_jcmd_output A record_line)) (\<lambda>_. ret (Some (Some ec)))
       | None \<Rightarrow>
           and_then (on_world (ask (a_now A))) (\<lambda>now.
             if deadline \<le> now then ret (Some None) else ret None)) v = Some (Inr None, vw')"
    unfolding capture_round_def heard_def [symmetric] by (auto simp: and_then_eq_Inr heard_def)
  from v(2) have "\<not> deadline \<le> a_now A (Suc (steps (snd v)))" "steps (snd vw') = Suc (Suc (steps (snd v)))"
    by (auto simp: and_then_eq_Inr on_world_def ask_result_def and_then_def split: if_splits option.splits sum.splits)
  with maintainsD [OF out v(1)] show ?thesis
    by (intro exI [of _ "Suc (steps (snd v))"]) auto
qed

lemma total_capture:
  assumes "clock_runs A" and "tool_output_ends A" and "\<And>line. always_returns (record_line line)"
    and count: "\<And>line. maintains (\<lambda>w w'. steps w \<le> steps w') (record_line line)"
  shows "always_returns (capture_with_jcmd P A cmd t record_line)"
proof -
  have "always_returns (loop (capture_round A deadline record_line))" for deadline
  proof -
    from assms(1) obtain K where late: "\<And>n. K \<le> n \<Longrightarrow> deadline \<le> a_now A n"
      unfolding clock_runs_def by blast
    show ?thesis
    proof (rule total_loop [where N = K and count = "\<lambda>x. steps (snd x)"], goal_cases)
      case 1
      show ?case
        unfolding capture_round_def
        by (auto intro!: total_and_then total_on_world total_tool_drain assms split: recv.splits option.splits)
    next
      case (2 w w')
      from capture_round_goes_on [OF 2 count] late show ?case by (meson le_less_trans not_le)
    qed
  qed
  then show ?thesis
    unfolding capture_with_jcmd_def by (auto intro!: total_and_then total_with_local split: option.splits)
qed

subsection \<open>The handlers\<close>

text \<open>Every handler returns.\<close>

lemma total_diagnostics:
  assumes "clock_runs (sup_answers S)" and "tool_output_ends (sup_answers S)"
  shows "always_returns (request_thread_dump S)" and "always_returns (start_heap_dump S)"
    and "always_returns (poll_heap_dump S)"
proof -
  have warn: "always_returns (publish_warning S m)" for m
    unfolding publish_warning_def by (auto intro!: total_and_then)
  have "always_returns (take_thread_dump S)"
    unfolding take_thread_dump_def send_console_break_def
    by (auto intro!: total_and_then total_capture assms counting.output_calls(1)
      split: dump_method.splits option.splits)
  then show "always_returns (request_thread_dump S)"
    unfolding request_thread_dump_def
    by (auto intro!: total_and_then total_attempt warn split: sum.splits)
  have "always_returns (heap_start P A c cmd lf pid jid)" for P A c cmd lf pid jid
    unfolding heap_start_def unique_path_def Let_def by (auto intro!: total_and_then split: option.splits)
  then show "always_returns (start_heap_dump S)"
    unfolding start_heap_dump_def Let_def
    by (auto intro!: total_and_then total_attempt warn split: option.splits sum.splits)
  show "always_returns (poll_heap_dump S)"
    unfolding poll_heap_dump_def Let_def
    by (auto intro!: total_and_then warn split: option.splits heap_poll.split heap_completion.splits)
qed

lemma total_send [intro!]:
  "always_returns (connection_send S c m)" "always_returns (mark_disconnected S)"
  "always_returns (send_if_connected S c m)"
proof -
  show s: "always_returns (connection_send S c m)"
    unfolding connection_send_def by (auto intro!: total_and_then split: sum.splits)
  show d: "always_returns (mark_disconnected S)"
    unfolding mark_disconnected_def by (auto intro!: total_and_then split: option.splits)
  show "always_returns (send_if_connected S c m)"
    unfolding send_if_connected_def
    by (auto intro!: total_and_then total_attempt s d split: option.splits sum.splits)
qed

lemma total_shutdown:
  assumes "clock_runs (sup_answers S)" and "output_ends (sup_answers S)" and "tool_output_ends (sup_answers S)"
  shows "always_returns (shutdown_and_drain S n)" and "always_returns (stop_with S n)"
    and "always_returns (restart_with S n a)" and "always_returns (pause S)"
proof -
  show down: "always_returns (shutdown_and_drain S n)" for n
    unfolding shutdown_and_drain_def Let_def
    by (auto intro!: total_and_then total_drain total_wait total_diagnostics assms)
  show "always_returns (stop_with S n)" "always_returns (restart_with S n a)" "always_returns (pause S)"
    unfolding stop_with_def restart_with_def elapsed_def pause_def by (auto intro!: total_and_then down)
qed

lemma total_handlers:
  assumes "clock_runs (sup_answers S)" and "output_ends (sup_answers S)" and "tool_output_ends (sup_answers S)"
  shows "always_returns (handle_output_batch S line)" and "always_returns (handle_control S c)"
    and "always_returns (handle_protocol S e)"
proof -
  note down = total_shutdown [OF assms] total_diagnostics [OF assms(1,3)]
  have resume: "always_returns (resume S)"
    unfolding resume_def by (auto intro!: total_and_then)
  have "always_returns (apply_filter_action S m a)" for m a
    unfolding apply_filter_action_def Let_def
    by (auto intro!: total_and_then down resume split: filter_action.splits)
  then have "always_returns (handle_output_line S l)" for l
    unfolding handle_output_line_def apply_filter_matches_def
    by (auto intro!: total_and_then total_first_outcome)
  then show "always_returns (handle_output_batch S line)"
    unfolding handle_output_batch_def by (auto intro!: total_and_then total_first_outcome split: option.splits)
  show "always_returns (handle_control S c)"
    unfolding handle_control_def by (auto intro!: total_and_then down resume split: control.splits)
  show "always_returns (handle_protocol S e)"
    unfolding handle_protocol_def handle_packet_def handle_started_def handle_start_pending_def
      log_jvm_exit_def elapsed_def
    by (auto intro!: total_and_then down split: receive_event.splits option.splits)
qed

lemma total_tick:
  assumes "clock_runs (sup_answers S)" and "output_ends (sup_answers S)" and "tool_output_ends (sup_answers S)"
  shows "always_returns (tick S)"
proof -
  note down = total_shutdown [OF assms] total_diagnostics [OF assms(1,3)]
  have "always_returns (tick_exit S)"
    unfolding tick_exit_def log_jvm_exit_def elapsed_def
    by (auto intro!: total_and_then total_drain assms split: option.splits)
  moreover have "always_returns (tick_connection S)"
    unfolding tick_connection_def poll_listener_def greet_def
    by (auto intro!: total_and_then split: option.splits prod.splits)
  moreover have "always_returns (tick_startup S t)" "always_returns (tick_ping S t)" "always_returns (tick_watchdog S t)" for t
    unfolding tick_startup_def tick_ping_def tick_watchdog_def watchdog_allowance_def
    by (auto intro!: total_and_then down)
  ultimately show ?thesis
    unfolding tick_def by (auto intro!: total_and_then down split: option.splits)
qed

text \<open>
  C9. The supervisor stays responsive: whatever event arrives, in whatever state, its
  handler returns (a shutdown with its waits, a thread dump and a drain included), provided
  that the clock advances beyond every instant and the pipes of the JVM and of the diagnostic
  tool eventually fall silent.
\<close>

theorem event_round_returns:
  assumes "clock_runs (sup_answers S)" and "output_ends (sup_answers S)" and "tool_output_ends (sup_answers S)"
  shows "\<exists>r w'. event_round S w = Some (r, w')"
proof -
  note handlers = total_handlers [OF assms] total_tick [OF assms] total_shutdown [OF assms]
  have "always_returns (event_round S)"
    unfolding event_round_def
    by (auto intro!: total_and_then handlers split: selected.splits option.splits)
  then show ?thesis unfolding always_returns_def by fastforce
qed

theorem event_round_returns_witness:
  "\<exists>r w'. event_round (sample_supervisor (calm_answers\<lparr>a_select := \<lambda>_. Select_Control (Some Control_Stop)\<rparr>))
     (sample_run 0) = Some (r, w')"
proof (rule event_round_returns)
  have "clock_runs calm_answers" unfolding clock_runs_def by (auto intro!: exI)
  then show "clock_runs (sup_answers (sample_supervisor (calm_answers\<lparr>a_select := \<lambda>_. Select_Control (Some Control_Stop)\<rparr>)))"
    by (simp add: clock_runs_def)
qed (simp_all add: output_ends_def tool_output_ends_def calm_answers_def)

lemma record_quiet:
  assumes "quiet (logs w)"
  shows "\<exists>x w'. record_output S line w = Some (Inr x, w') \<and> quiet (logs w')"
proof -
  have "\<exists>w'. for_all (\<lambda>m. emit (k m)) ms v = Some (Inr (), w') \<and> quiet (logs w')"
    if "quiet (logs v)" for ms k and v :: jvm_run
    using that by (induction ms arbitrary: v) (auto simp: and_then_def emit_def)
  from this [OF assms, of "\<lambda>m. FilterMatched (of_nat (match_index m))"
      "inspect_bytes (sup_platform S) (filters_from_config (sup_config S)) line"]
  show ?thesis using assms by (auto simp: record_output_def jvm_log_def Let_def and_then_def)
qed



end
