(* ===== verification/Output_Lines.thy ===== *)
theory Output_Lines
  imports Event_Loop
begin

section \<open>Correctness of the output reader\<close>

text \<open>
  The reader of the JVM's pipes works on whole buffers; it yields the lines a reader of single
  bytes yields. So the lines do not depend on how the pipe is filled, every line that fits is
  delivered as it was written, and no line exceeds the limit.
\<close>

subsection \<open>A reader of single bytes\<close>

definition line_step :: "bytes list \<times> bytes \<Rightarrow> u8 \<Rightarrow> bytes list \<times> bytes" where
  "line_step st b =
     (let line = snd st @ [b] in
      if b = 0x0A \<or> max_output_line \<le> length line then (fst st @ [pop_line_end line], [])
      else (fst st, line))"

lemma line_step_prefix: "line_step (ls @ ms, l) b = (ls @ fst (line_step (ms, l) b), snd (line_step (ms, l) b))"
  by (simp add: line_step_def Let_def)

lemma line_steps_prefix:
  "foldl line_step (ls @ ms, l) bs =
     (ls @ fst (foldl line_step (ms, l) bs), snd (foldl line_step (ms, l) bs))"
proof (induction bs arbitrary: ms l)
  case (Cons b bs)
  show ?case using Cons [of "fst (line_step (ms, l) b)" "snd (line_step (ms, l) b)"]
    by (simp add: line_step_prefix)
qed simp

lemma line_steps_unfinished:
  assumes "0x0A \<notin> set bs" and "length l + length bs < max_output_line"
  shows "foldl line_step (ls, l) bs = (ls, l @ bs)"
  using assms
proof (induction bs arbitrary: l)
  case (Cons b bs)
  then have "line_step (ls, l) b = (ls, l @ [b])" by (auto simp: line_step_def Let_def)
  with Cons show ?case by simp
qed simp

lemma line_steps_once:
  assumes "bs \<noteq> []" and "0x0A \<notin> set (butlast bs)" and "length l + length bs \<le> max_output_line"
  shows "foldl line_step (ls, l) bs =
    (if line_complete (l @ bs) \<or> max_output_line \<le> length (l @ bs) then (ls @ [pop_line_end (l @ bs)], [])
     else (ls, l @ bs))"
proof -
  from assms(1) obtain cs b where bs: "bs = cs @ [b]" by (meson rev_exhaust)
  with assms line_steps_unfinished [of cs l ls] show ?thesis
    by (simp add: line_step_def line_complete_def Let_def)
qed

lemma take_count_bytes:
  assumes "bs \<noteq> []" and "length l < max_output_line"
  shows "take (take_count l bs) bs \<noteq> []" "0x0A \<notin> set (butlast (take (take_count l bs) bs))"
    "length l + length (take (take_count l bs) bs) \<le> max_output_line"
proof -
  let ?k = "length (takeWhile (\<lambda>b. b \<noteq> 0x0A) bs)"
  have n: "take_count l bs \<le> Suc ?k" "take_count l bs \<le> max_output_line - length l" "0 < take_count l bs"
    using assms by (auto simp: take_count_def Let_def dest: takeWhile_eq_all_conv [THEN iffD1])
  then show "take (take_count l bs) bs \<noteq> []" using assms(1) by simp
  have "set (butlast (take (take_count l bs) bs)) \<subseteq> set (take ?k bs)"
    using n(1) by (simp add: butlast_conv_take min.coboundedI1 set_take_subset_set_take min_diff)
  moreover have "take ?k bs = takeWhile (\<lambda>b. b \<noteq> 0x0A) bs" by (metis takeWhile_eq_take)
  ultimately show "0x0A \<notin> set (butlast (take (take_count l bs) bs))" using set_takeWhileD by fastforce
  show "length l + length (take (take_count l bs) bs) \<le> max_output_line" using n(2) assms(2) by simp
qed

lemma split_buffer_bytes:
  "length l < max_output_line \<Longrightarrow> split_buffer l bs = foldl line_step ([], l) bs"
proof (induction l bs rule: split_buffer.induct)
  case (1 l bs)
  show ?case
  proof (cases "bs = []")
    case False
    let ?n = "take_count l bs"
    let ?l = "l @ take ?n bs"
    have split: "foldl line_step ([], l) bs = foldl line_step (foldl line_step ([], l) (take ?n bs)) (drop ?n bs)"
      by (metis append_take_drop_id foldl_append)
    note once = line_steps_once [OF take_count_bytes [OF False "1.prems"], of "[]"]
    show ?thesis
    proof (cases "line_complete ?l \<or> max_output_line \<le> length ?l")
      case True
      then have "split_buffer [] (drop ?n bs) = foldl line_step ([], []) (drop ?n bs)"
        using "1.IH"(1) [OF False refl refl refl] by (simp add: max_output_line_def)
      with True False split once line_steps_prefix [of "[pop_line_end ?l]" "[]" "[]" "drop ?n bs"] show ?thesis
        by (simp add: split_buffer.simps [of l bs] Let_def split: prod.splits)
    next
      case more: False
      then have "split_buffer ?l (drop ?n bs) = foldl line_step ([], ?l) (drop ?n bs)"
        using "1.IH"(2) [OF False refl refl refl] by simp
      with more False split once show ?thesis
        by (simp add: split_buffer.simps [of l bs] Let_def)
    qed
  qed (simp add: split_buffer.simps)
qed

subsection \<open>The whole stream\<close>

lemma line_steps_pending: "length (snd st) < max_output_line \<Longrightarrow> length (snd (foldl line_step st bs)) < max_output_line"
  by (induction bs arbitrary: st) (auto simp: line_step_def Let_def max_output_line_def)

lemma read_output_bytes:
  assumes "length l < max_output_line" and "list_all (\<lambda>c. c \<noteq> []) chunks"
  shows "read_output l (map Read_Bytes chunks @ [Read_Bytes []]) =
    (case foldl line_step ([], l) (concat chunks) of (ls, l') \<Rightarrow> ls @ (if l' = [] then [] else [l']))"
  using assms
proof (induction chunks arbitrary: l)
  case (Cons c cs)
  obtain ls l1 where step: "foldl line_step ([], l) c = (ls, l1)" by fastforce
  with line_steps_pending [of "([], l)" c] Cons.prems(1) have "length l1 < max_output_line" by simp
  from Cons.IH [OF this] Cons.prems(2) step line_steps_prefix [of ls "[]" l1 "concat cs"]
  show ?case using split_buffer_bytes [OF Cons.prems(1), of c] by (auto split: prod.splits)
qed simp

definition plain_line :: "bytes \<Rightarrow> bool" where
  "plain_line l \<longleftrightarrow> 0x0A \<notin> set l \<and> (l = [] \<or> last l \<noteq> 0x0D) \<and> length l + 1 < max_output_line"

lemma line_steps_line:
  assumes "plain_line l" and "cr \<in> {[], [0x0D]}"
  shows "foldl line_step (ls, []) (l @ cr @ [0x0A]) = (ls @ [l], [])"
proof -
  have "foldl line_step (ls, []) (l @ cr) = (ls, l @ cr)"
    using assms line_steps_unfinished [of "l @ cr" "[]" ls] by (auto simp: plain_line_def)
  moreover have "pop_line_end (l @ cr @ [0x0A]) = l"
    using assms by (auto simp: plain_line_def pop_line_end_def Let_def butlast_append)
  ultimately show ?thesis by (simp add: line_step_def Let_def)
qed

lemma line_steps_lines:
  assumes "list_all plain_line lines" and "list_all (\<lambda>e. e \<in> {[], [0x0D]}) ends" and "length ends = length lines"
  shows "foldl line_step (ls, []) (concat (map (\<lambda>(l, e). l @ e @ [0x0A]) (zip lines ends))) = (ls @ lines, [])"
  using assms(3,1,2)
proof (induction ends lines arbitrary: ls rule: list_induct2)
  case (Cons e ends l lines)
  then show ?case using line_steps_line [of l e ls] by simp
qed simp

text \<open>
  C27. The reader delivers what the JVM wrote: any lines without a line feed in them that are
  shorter than the limit, written with line feeds or carriage returns and line feeds in any
  mixture and read in buffers cut anywhere, are delivered one by one and unchanged.
\<close>

theorem output_lines_exact:
  assumes "list_all plain_line lines" and "list_all (\<lambda>e. e \<in> {[], [0x0D]}) ends" and "length ends = length lines"
    and "concat chunks = concat (map (\<lambda>(l, e). l @ e @ [0x0A]) (zip lines ends))"
    and "list_all (\<lambda>c. c \<noteq> []) chunks"
  shows "read_output [] (map Read_Bytes chunks @ [Read_Bytes []]) = lines"
  using read_output_bytes [OF _ assms(5), of "[]"] line_steps_lines [OF assms(1-3), of "[]"] assms(4)
  by (simp add: max_output_line_def)

theorem output_lines_exact_witness:
  "read_output [] (map Read_Bytes [[72, 105, 13], [10, 10, 33], [10]] @ [Read_Bytes []]) = [[72, 105], [], [33]]"
  by (rule output_lines_exact [where ends = "[[13], [], []]"]) (simp_all add: plain_line_def max_output_line_def)

lemma line_steps_bounded:
  assumes "length l < max_output_line" and "list_all (\<lambda>x. length x \<le> max_output_line) ls"
  shows "list_all (\<lambda>x. length x \<le> max_output_line) (fst (foldl line_step (ls, l) bs))"
  using assms
proof (induction bs arbitrary: ls l)
  case (Cons b bs)
  have pop: "length (pop_line_end x) \<le> length x" for x
    by (auto simp: pop_line_end_def Let_def)
  have "length (snd (line_step (ls, l) b)) < max_output_line"
    "list_all (\<lambda>x. length x \<le> max_output_line) (fst (line_step (ls, l) b))"
    using Cons.prems le_trans [OF pop [of "l @ [b]"]] by (auto simp: line_step_def Let_def max_output_line_def)
  with Cons.IH [of "snd (line_step (ls, l) b)" "fst (line_step (ls, l) b)"] show ?case by simp
qed simp

lemma read_output_bounded:
  "length l < max_output_line \<Longrightarrow> list_all (\<lambda>x. length x \<le> max_output_line) (read_output l rs)"
proof (induction l rs rule: read_output.induct)
  case (2 l bs rs)
  from line_steps_bounded [OF 2(2), of "[]" bs] line_steps_pending [of "([], l)" bs] 2
  show ?case by (auto simp: split_buffer_bytes split: prod.splits)
qed auto

text \<open>
  A line without an end cannot exhaust the memory: whatever the pipe delivers, with
  errors in between, no delivered line is longer than \<open>MAX_OUTPUT_LINE\<close>.
\<close>

lemma output_lines_bounded:
  "list_all (\<lambda>x. length x \<le> max_output_line) (read_output [] answers)"
  by (rule read_output_bounded) (simp add: max_output_line_def)

end
