(* ===== verification/Owned_Files.thy ===== *)
theory Owned_Files
  imports Supervisor_Sample
begin

section \<open>Files the supervisor owns\<close>

text \<open>
  A pid file is removed only while it still holds what the supervisor wrote, and nothing else
  is touched; the name of a heap dump is free.
\<close>

subsection \<open>Pid files\<close>

lemma file_at_updates:
  "file_at (d\<lparr>ops := n\<rparr>) p = file_at d p"
  "file_at (drop_name q d) p = (if p = q then None else file_at d p)"
  by (simp_all add: file_at_def)

lemma pid_file_drop_ok:
  assumes "no_faults (snd s)"
  shows "\<exists>d'. pid_file_drop f s = (Inr (), (fst s, d'))
    \<and> (\<forall>p. file_at d' p =
        (if p = pid_path f \<and> file_at (snd s) p = Some (pid_contents f) then None else file_at (snd s) p))"
proof (cases "file_at (snd s) (pid_path f) = Some (pid_contents f)")
  case True
  then have "lookup (snd s) (pid_path f) \<noteq> None" by (auto simp: file_at_def)
  with True assms show ?thesis
    by (auto simp: pid_file_drop_def on_snd_def fs_read_def remove_file_def file_at_updates)
next
  case False
  with assms show ?thesis
    by (auto simp: pid_file_drop_def on_snd_def fs_read_def file_at_updates split: option.splits)
qed

lemma fs_write_ok:
  "no_faults d \<Longrightarrow> \<exists>d'. fs_write p bs d = (Inr (), d') \<and> no_faults d' \<and> file_at d' p = Some bs"
  by (cases "lookup d p")
    (auto simp: fs_write_def open_truncated_shared_def followed_by_def file_at_def)

lemma pid_file_create_cases:
  assumes "no_faults (snd s)" and "pid_file_create P c property n strict s = (Inr (Some f), s1)"
  shows "pid_contents f = pid_text n \<and> file_at (snd s1) (pid_path f) = Some (pid_text n) \<and> no_faults (snd s1)
    \<and> \<not> (strict \<and> lookup (snd s) (pid_path f) \<noteq> None)"
proof -
  obtain v where v: "get c property = Some v" "trim v \<noteq> []"
    using assms(2) by (auto simp: pid_file_create_def returns_def split: option.splits if_splits)
  let ?p = "resolve_path P c v"
  let ?d = "if strict then (snd s)\<lparr>ops := Suc (ops (snd s))\<rparr> else snd s"
  from assms(1) have "no_faults ?d" by simp
  from fs_write_ok [OF this, of ?p "pid_text n"] obtain d' where
    "fs_write ?p (pid_text n) ?d = (Inr (), d')" "no_faults d'" "file_at d' ?p = Some (pid_text n)" by blast
  then show ?thesis using assms v
    by (auto simp: pid_file_create_def Let_def followed_by_def on_snd_def returns_def fails_def file_exists_ok
      split: if_splits option.splits)
qed

text \<open>
  C31. A pid file belongs to the supervisor only as long as it is unchanged: after it was
  created it holds the number and a line end, in strict mode no file was there before, and
  when it is dropped, in whatever state the disk is by then, the file is removed exactly if it
  still has this content; no other file is touched and a file replaced by someone else stays.
\<close>

theorem pid_file_ownership:
  assumes "no_faults (snd s)" and "pid_file_create P c property n strict s = (Inr (Some f), s1)"
    and "no_faults (snd s2)"
  shows "file_at (snd s1) (pid_path f) = Some (as_bytes (show_nat (unat n)) @ [0x0D, 0x0A])
    \<and> \<not> (strict \<and> lookup (snd s) (pid_path f) \<noteq> None)
    \<and> (\<exists>d'. pid_file_drop f s2 = (Inr (), (fst s2, d'))
        \<and> (\<forall>p. file_at d' p =
            (if p = pid_path f \<and> file_at (snd s2) p = Some (as_bytes (show_nat (unat n)) @ [0x0D, 0x0A])
             then None else file_at (snd s2) p)))"
  using pid_file_create_cases [OF assms(1,2)] pid_file_drop_ok [OF assms(3), of f]
  by (simp add: pid_text_def crlf_def)

definition pid_config :: config where
  "pid_config = quiet_config\<lparr>properties := [(''wrapper.pidfile'', ''/p'')]\<rparr>"

theorem pid_file_ownership_witness:
  "\<exists>f s1. pid_file_create quiet_platform pid_config ''wrapper.pidfile'' 77 True quiet_log = (Inr (Some f), s1)
     \<and> file_at (snd s1) (pid_path f) = Some [55, 55, 13, 10]
     \<and> (\<exists>d'. pid_file_drop f s1 = (Inr (), (fst s1, d')) \<and> file_at d' (pid_path f) = None)"
proof -
  have clean: "no_faults (snd quiet_log)" by (simp add: no_faults_def quiet_log_def sample_log_def)
  have path: "get pid_config ''wrapper.pidfile'' = Some ''/p''" "trim ''/p'' \<noteq> []"
    "resolve_path quiet_platform pid_config ''/p'' = ''/p''" by code_simp+
  have digits: "as_bytes (show_nat (unat (77::u32))) @ [0x0D, 0x0A] = [55, 55, 13, 10]" by code_simp
  have "lookup (snd quiet_log) ''/p'' = None" by (simp add: quiet_log_def sample_log_def lookup_def)
  with path fs_write_ok [of "(snd quiet_log)\<lparr>ops := Suc (ops (snd quiet_log))\<rparr>" "''/p''" "pid_text 77"] clean
  obtain f s1 where
    made: "pid_file_create quiet_platform pid_config ''wrapper.pidfile'' 77 True quiet_log = (Inr (Some f), s1)"
    by (auto simp: pid_file_create_def Let_def followed_by_def on_snd_def returns_def file_exists_ok)
  with pid_file_create_cases [OF clean made] pid_file_ownership [OF clean made, of s1] digits show ?thesis
    by (intro exI [of _ f] exI [of _ s1]) auto
qed

subsection \<open>The name of a heap dump\<close>

lemma first_free_name_free:
  assumes "no_faults (snd s)" and "first_free_name name is s = (Inr (Some p), s')"
  shows "\<exists>before i after. is = before @ i # after \<and> p = name i \<and> lookup (snd s) p = None
    \<and> (\<forall>j \<in> set before. lookup (snd s) (name j) \<noteq> None)"
  using assms
proof (induction "is" arbitrary: s)
  case (Cons i "is")
  show ?case
  proof (cases "lookup (snd s) (name i)")
    case None
    with Cons.prems show ?thesis
      by (intro exI [of _ "[]"] exI [of _ i] exI [of _ "is"])
        (auto simp: followed_by_def on_snd_def returns_def file_exists_ok)
  next
    case (Some x)
    let ?s = "(fst s, (snd s)\<lparr>ops := Suc (ops (snd s))\<rparr>)"
    from Some Cons.prems Cons.IH [of ?s] obtain before j "after" where
      "is = before @ j # after" "p = name j" "lookup (snd s) p = None"
      "\<forall>j \<in> set before. lookup (snd s) (name j) \<noteq> None"
      by (auto simp: followed_by_def on_snd_def file_exists_ok)
    with Some show ?thesis
      by (intro exI [of _ "i # before"] exI [of _ j] exI [of _ "after"]) auto
  qed
qed (simp add: returns_def)

text \<open>
  A heap dump never overwrites a file: the name that is chosen is free, and it is the
  first free one of the numbered names for this instant, process and JVM.
\<close>

lemma heap_dump_name_free:
  assumes "unique_path P A directory pid jid w = Some (Inr path, w')" and "no_faults (snd (logs w))"
  shows "lookup (snd (logs w)) path = None
    \<and> (\<exists>i < max_name_attempts. path = heap_name P directory (a_timestamp A (steps w)) pid jid i
        \<and> list_all (\<lambda>j. lookup (snd (logs w)) (heap_name P directory (a_timestamp A (steps w)) pid jid j) \<noteq> None) [0..<i])"
proof -
  let ?name = "heap_name P directory (a_timestamp A (steps w)) pid jid"
  from assms(1) obtain s' where "first_free_name ?name [0..<max_name_attempts] (logs w) = (Inr (Some path), s')"
    by (auto simp: unique_path_def and_then_eq_Inr log_action_def map_error_eq_Inr split: option.splits prod.splits)
  from first_free_name_free [OF assms(2) this] obtain before i "after" where
    split: "[0..<max_name_attempts] = before @ i # after" and path: "path = ?name i" "lookup (snd (logs w)) path = None"
    and taken: "\<forall>j \<in> set before. lookup (snd (logs w)) (?name j) \<noteq> None" by blast
  have len: "length before < max_name_attempts"
    using arg_cong [OF split, of length] by simp
  with arg_cong [OF split, of "\<lambda>xs. xs ! length before"] have i: "i = length before" by simp
  with arg_cong [OF split, of "take (length before)"] len have "before = [0..<i]" by (simp add: take_upt)
  with i len path taken show ?thesis by (auto simp: list_all_iff)
qed

lemma heap_dump_name_free_sample:
  "\<exists>path w'. unique_path quiet_platform calm_answers ''/d'' 77 1 sample_world = Some (Inr path, w')
     \<and> lookup (snd (logs sample_world)) path = None"
proof -
  have clean: "no_faults (snd (logs sample_world))"
    by (simp add: no_faults_def sample_world_def quiet_log_def sample_log_def)
  let ?name = "heap_name quiet_platform ''/d'' ''t'' 77 1"
  have "lookup (snd quiet_log) (?name 0) = None"
    by (simp add: heap_name_def quiet_platform_def simple_platform_def starts_with_def quiet_log_def sample_log_def lookup_def)
  moreover have "[0..<max_name_attempts] = 0 # [1..<max_name_attempts]"
    by (simp add: max_name_attempts_def upt_rec [of 0])
  ultimately have "\<exists>path w'. unique_path quiet_platform calm_answers ''/d'' 77 1 sample_world = Some (Inr path, w')"
    using clean
    by (simp add: unique_path_def and_then_def log_action_def followed_by_def on_snd_def returns_def
      file_exists_ok sample_world_def map_error_def) (simp add: calm_answers_def)
  with heap_dump_name_free [OF _ clean] show ?thesis by blast
qed

end
