(* ===== verification/Service.thy ===== *)
theory Service
  imports Lifecycle Cli
begin

section \<open>The Windows service: \<open>src/service.rs\<close>\<close>

text \<open>
  The commands that manage the service through the service control manager, the control
  handler, the reporting of states and the service worker. The service control manager
  answers as a record of functions from the number of the call; \<open>scm_world\<close> keeps the
  requests it accepted, the states that were reported to it and what was printed on
  the standard output and on the error stream.
\<close>

subsection \<open>Data\<close>

definition installed_launch_arguments :: "cli \<Rightarrow> string list" where
  "installed_launch_arguments c =
     [''-s'', configuration c]
     @ filter (\<lambda>v. \<not> starts_with ''wrapper.ntservice.password='' v) (overrides c)
     @ (if application_args c \<noteq> [] then ''--'' # application_args c else [])"

datatype service_state =
    Stopped | StartPending | StopPending | Running | ContinuePending | PausePending | Paused

datatype service_start = AutoStart | OnDemand | Disabled | OtherStart

datatype service_dependency = Dependency_Service string | Dependency_Group string

record service_info =
  info_name :: string
  info_display_name :: string
  info_interactive :: bool
  info_start_type :: service_start
  info_executable :: string
  info_arguments :: "string list"
  info_dependencies :: "service_dependency list"
  info_account :: "string option"
  info_password :: "string option"

datatype access = Access_QueryStatus | Access_QueryConfig | Access_Start | Access_Stop
  | Access_PauseContinue | Access_UserControl | Access_Delete | Access_ChangeConfig

datatype scm_request =
    Request_Create service_info | Request_Describe string | Request_Open "access list"
  | Request_Start | Request_Stop | Request_Pause | Request_Resume | Request_Delete | Request_Notify u32

record scm =
  scm_connect :: "nat \<Rightarrow> string option"
  scm_call :: "nat \<Rightarrow> string option"
  scm_state :: "nat \<Rightarrow> string + service_state"
  scm_config :: "nat \<Rightarrow> string + bool \<times> service_start"
  scm_now :: "nat \<Rightarrow> nat"
  scm_executable :: "io_error + string"
  scm_user_code :: "u32 \<Rightarrow> bool"

record scm_world =
  scm_steps :: nat
  scm_requests :: "scm_request list"
  scm_printed :: "string list"
  scm_errors :: "string list"

definition scm_ask :: "(nat \<Rightarrow> 'a) \<Rightarrow> (scm_world, 'a) io" where
  "scm_ask f w = Some (Inr (f (scm_steps w)), w\<lparr>scm_steps := Suc (scm_steps w)\<rparr>)"

definition service_error :: "string \<Rightarrow> error" where
  "service_error e = Error_Service e"

text \<open>A call of the manager that may fail; a request that succeeds is recorded.\<close>

definition scm_check :: "(nat \<Rightarrow> string option) \<Rightarrow> (scm_world, unit) io" where
  "scm_check f = and_then (scm_ask f) (\<lambda>r.
     case r of None \<Rightarrow> ret () | Some e \<Rightarrow> raise (Failed (service_error e)))"

definition scm_issue :: "scm \<Rightarrow> scm_request \<Rightarrow> (scm_world, unit) io" where
  "scm_issue M r =
     and_then (scm_check (scm_call M)) (\<lambda>_. update (\<lambda>w. w\<lparr>scm_requests := scm_requests w @ [r]\<rparr>))"

definition scm_query :: "(nat \<Rightarrow> string + 'a) \<Rightarrow> (scm_world, 'a) io" where
  "scm_query f = and_then (scm_ask f) (\<lambda>r.
     case r of Inl e \<Rightarrow> raise (Failed (service_error e)) | Inr x \<Rightarrow> ret x)"

definition print_line :: "string \<Rightarrow> (scm_world, unit) io" where
  "print_line s = update (\<lambda>w. w\<lparr>scm_printed := scm_printed w @ [s]\<rparr>)"

subsection \<open>Settings\<close>

definition service_name :: "config \<Rightarrow> error + string" where
  "service_name c = required c ''wrapper.ntservice.name''"

definition start_type :: "config \<Rightarrow> error + service_start" where
  "start_type c =
     (let v = to_ascii_uppercase (trim (get_or c ''wrapper.ntservice.starttype'' ''AUTO_START'')) in
      if v = ''AUTO_START'' \<or> v = ''AUTO'' then Inr AutoStart
      else if v = ''DEMAND_START'' \<or> v = ''MANUAL'' then Inr OnDemand
      else if v = ''DISABLED'' then Inr Disabled
      else Inl (Error_Config (''unsupported wrapper.ntservice.starttype: '' @ v)))"

definition scm_wait_timeout :: nat where
  "scm_wait_timeout = from_secs 60"

definition stop_wait_margin :: nat where
  "stop_wait_margin = from_secs 10"

text \<open>The sum of durations panics beyond their range.\<close>

definition stop_wait_hint :: "config \<Rightarrow> fault + nat" where
  "stop_wait_hint c =
     (let hint = from_secs (get_u64 c ''wrapper.shutdown.timeout'' 30) in
      bind_result
        (if get_bool c ''wrapper.request_thread_dump_on_failed_jvm_exit'' False
         then instant_add hint
           (from_secs (get_u64 c ''wrapper.request_thread_dump_on_failed_jvm_exit.delay'' 5))
         else Inr hint)
        (\<lambda>h. instant_add h stop_wait_margin))"

definition heap_dump_control_code :: "config \<Rightarrow> error + u32" where
  "heap_dump_control_code c =
     (let raw = unat (get_u64 c ''jss.heapdump.control_code'' 254) in
      if 2 ^ 32 \<le> raw then
        Inl (Error_Config ''jss.heapdump.control_code is outside the valid range'')
      else if \<not> (128 \<le> raw \<and> raw \<le> 255) then
        Inl (Error_Config ''jss.heapdump.control_code must be between 128 and 255'')
      else Inr (of_nat raw))"

definition is_pausable :: "config \<Rightarrow> bool" where
  "is_pausable c =
     get_bool c ''wrapper.pausable'' (get_bool c ''wrapper.ntservice.pausable'' False)"

definition state_text :: "service_state \<Rightarrow> string" where
  "state_text s =
     (case s of
       Stopped \<Rightarrow> ''Stopped'' | StartPending \<Rightarrow> ''StartPending'' | StopPending \<Rightarrow> ''StopPending''
     | Running \<Rightarrow> ''Running'' | ContinuePending \<Rightarrow> ''ContinuePending''
     | PausePending \<Rightarrow> ''PausePending'' | Paused \<Rightarrow> ''Paused'')"

definition start_text :: "service_start \<Rightarrow> string" where
  "start_text s =
     (case s of AutoStart \<Rightarrow> ''AutoStart'' | OnDemand \<Rightarrow> ''OnDemand'' | Disabled \<Rightarrow> ''Disabled''
      | OtherStart \<Rightarrow> ''SystemStart'')"

subsection \<open>The commands\<close>

definition open_service :: "scm \<Rightarrow> config \<Rightarrow> access list \<Rightarrow> (scm_world, unit) io" where
  "open_service M c rights =
     and_then (scm_check (scm_connect M)) (\<lambda>_.
     and_then (from_result (lift_error (service_name c))) (\<lambda>_.
       scm_issue M (Request_Open rights)))"

definition wait_round_state :: "scm \<Rightarrow> service_state \<Rightarrow> nat \<Rightarrow> (scm_world, unit option) io" where
  "wait_round_state M expected deadline =
     and_then (scm_query (scm_state M)) (\<lambda>current.
       if current = expected then ret (Some ())
       else and_then (scm_ask (scm_now M)) (\<lambda>t.
         if deadline \<le> t then
           raise (Failed (Error_Service (''timed out waiting for state '' @ state_text expected
             @ ''; current state is '' @ state_text current)))
         else ret None))"

definition wait_for_state :: "scm \<Rightarrow> service_state \<Rightarrow> nat \<Rightarrow> (scm_world, unit) io" where
  "wait_for_state M expected timeout =
     and_then (scm_ask (scm_now M)) (\<lambda>t.
     and_then (plus_time t timeout) (\<lambda>deadline. loop (wait_round_state M expected deadline)))"

definition parse_dependency :: "string \<Rightarrow> service_dependency option" where
  "parse_dependency raw =
     (let value = trim raw in
      if value = [] then None
      else case strip_prefix ''+'' value of
        Some g \<Rightarrow> Some (Dependency_Group g)
      | None \<Rightarrow> Some (Dependency_Service value))"

definition install_info :: "scm \<Rightarrow> cli \<Rightarrow> config \<Rightarrow> error + service_info" where
  "install_info M cl c =
     (let account = (case get c ''wrapper.ntservice.account'' of
            None \<Rightarrow> None | Some v \<Rightarrow> if trim v \<noteq> [] then Some v else None);
          password = (if account = None then None else get c ''wrapper.ntservice.password'')
      in bind_result (service_name c) (\<lambda>name.
         bind_result (start_type c) (\<lambda>start.
         bind_result (map_error Error_Io (scm_executable M)) (\<lambda>exe.
           Inr \<lparr>info_name = name,
                info_display_name = get_or c ''wrapper.ntservice.displayname'' name,
                info_interactive = (account = None \<and> get_bool c ''wrapper.ntservice.interactive'' False),
                info_start_type = start, info_executable = exe,
                info_arguments = installed_launch_arguments cl,
                info_dependencies =
                  List.map_filter (\<lambda>(_, v). parse_dependency v) (numbered c ''wrapper.ntservice.dependency''),
                info_account = account, info_password = password\<rparr>))))"

definition install :: "scm \<Rightarrow> cli \<Rightarrow> config \<Rightarrow> (scm_world, unit) io" where
  "install M cl c =
     and_then (scm_check (scm_connect M)) (\<lambda>_.
     and_then (from_result (lift_error (install_info M cl c))) (\<lambda>info.
     and_then (scm_issue M (Request_Create info)) (\<lambda>_.
     and_then (case get c ''wrapper.ntservice.description'' of
                 None \<Rightarrow> ret () | Some d \<Rightarrow> scm_issue M (Request_Describe d)) (\<lambda>_.
       print_line (''Service '' @ [CHR 0x27] @ info_name info @ [CHR 0x27] @ '' installed with ''
         @ (if info_account info \<noteq> None then ''the configured account'' else ''LocalSystem'')
         @ '' ('' @ start_text (info_start_type info) @ '').'')))))"

definition report :: "config \<Rightarrow> string \<Rightarrow> (scm_world, unit) io" where
  "report c what =
     and_then (from_result (lift_error (service_name c))) (\<lambda>name.
       print_line (''Service '' @ [CHR 0x27] @ name @ [CHR 0x27] @ '' '' @ what))"

definition start_service :: "scm \<Rightarrow> config \<Rightarrow> (scm_world, unit) io" where
  "start_service M c =
     and_then (open_service M c [Access_Start, Access_QueryStatus]) (\<lambda>_.
     and_then (scm_issue M Request_Start) (\<lambda>_.
     and_then (wait_for_state M Running
       (max (from_secs (get_u64 c ''wrapper.startup.timeout'' 30)) scm_wait_timeout)) (\<lambda>_.
       report c ''started.'')))"

definition stop_if_running :: "scm \<Rightarrow> config \<Rightarrow> (scm_world, unit) io" where
  "stop_if_running M c =
     and_then (scm_query (scm_state M)) (\<lambda>current.
       if current \<noteq> Stopped then
         and_then (scm_issue M Request_Stop) (\<lambda>_.
         and_then (from_result (stop_wait_hint c)) (\<lambda>hint. wait_for_state M Stopped hint))
       else ret ())"

definition stop_service :: "scm \<Rightarrow> config \<Rightarrow> (scm_world, unit) io" where
  "stop_service M c =
     and_then (open_service M c [Access_Stop, Access_QueryStatus]) (\<lambda>_.
     and_then (stop_if_running M c) (\<lambda>_. report c ''stopped.''))"

definition remove_service :: "scm \<Rightarrow> config \<Rightarrow> (scm_world, unit) io" where
  "remove_service M c =
     and_then (open_service M c [Access_Stop, Access_QueryStatus, Access_Delete]) (\<lambda>_.
     and_then (stop_if_running M c) (\<lambda>_.
     and_then (scm_issue M Request_Delete) (\<lambda>_. report c ''removed.'')))"

definition notify :: "scm \<Rightarrow> config \<Rightarrow> u32 \<Rightarrow> (scm_world, unit) io" where
  "notify M c raw =
     (if \<not> scm_user_code M raw then
        raise (Failed (Error_Config
          (''the control code must be between 128 and 255: '' @ show_nat (unat raw))))
      else and_then (open_service M c [Access_UserControl, Access_QueryStatus]) (\<lambda>_.
        scm_issue M (Request_Notify raw)))"

unbundle bit_operations_syntax

definition status_mask :: "service_state \<Rightarrow> bool \<Rightarrow> service_start \<Rightarrow> int" where
  "status_mask state interactive start =
     (1 OR (if state \<noteq> Stopped then 2 else 0)) OR (if state = Paused then 64 else 0)
     OR (if interactive then 4 else 0)
     OR (case start of AutoStart \<Rightarrow> 8 | OnDemand \<Rightarrow> 16 | Disabled \<Rightarrow> 32 | OtherStart \<Rightarrow> 0)"

definition query :: "scm \<Rightarrow> config \<Rightarrow> bool \<Rightarrow> (scm_world, int) io" where
  "query M c silent =
     and_then (scm_check (scm_connect M)) (\<lambda>_.
     and_then (from_result (lift_error (service_name c))) (\<lambda>_.
     and_then (attempt (scm_issue M (Request_Open [Access_QueryStatus, Access_QueryConfig]))) (\<lambda>opened.
       case opened of
         Inl _ \<Rightarrow> and_then (if silent then ret () else report c ''is not installed.'') (\<lambda>_. ret 0)
       | Inr _ \<Rightarrow>
           and_then (scm_query (scm_state M)) (\<lambda>state.
           and_then (scm_query (scm_config M)) (\<lambda>(interactive, start).
             (let mask = status_mask state interactive start in
              and_then
                (if silent then ret ()
                 else and_then (from_result (lift_error (service_name c))) (\<lambda>name.
                   print_line (''Service '' @ [CHR 0x27] @ name @ [CHR 0x27] @ '': '' @ state_text state
                     @ '', start type '' @ start_text start @ '' (status mask '' @ show_int mask @ '').'')))
                (\<lambda>_. ret mask)))))))"

definition execute_command :: "scm \<Rightarrow> cli \<Rightarrow> config \<Rightarrow> (scm_world, int) io" where
  "execute_command M cl c =
     (let finished = (\<lambda>m. and_then m (\<lambda>_. ret 0));
          control = (\<lambda>r s. and_then (open_service M c [Access_PauseContinue, Access_QueryStatus]) (\<lambda>_.
            and_then (scm_issue M r) (\<lambda>_. wait_for_state M s scm_wait_timeout)))
      in case command cl of
        Cmd_Install \<Rightarrow> finished (install M cl c)
      | Cmd_InstallStart \<Rightarrow> and_then (install M cl c) (\<lambda>_. finished (start_service M c))
      | Cmd_Start \<Rightarrow> finished (start_service M c)
      | Cmd_Stop \<Rightarrow> finished (stop_service M c)
      | Cmd_Pause \<Rightarrow> finished (control Request_Pause Paused)
      | Cmd_Resume \<Rightarrow> finished (control Request_Resume Running)
      | Cmd_Remove \<Rightarrow> finished (remove_service M c)
      | Cmd_ControlCode n \<Rightarrow> finished (notify M c n)
      | Cmd_Dump \<Rightarrow>
          (let raw = unat (get_u64 c ''wrapper.thread_dump_control_code'' 255) in
           if 2 ^ 32 \<le> raw then
             raise (Failed (Error_Config ''wrapper.thread_dump_control_code is out of range''))
           else finished (notify M c (of_nat raw)))
      | Cmd_HeapDump \<Rightarrow>
          and_then (from_result (lift_error (heap_dump_control_code c))) (\<lambda>n. finished (notify M c n))
      | Cmd_Query silent \<Rightarrow> query M c silent
      | _ \<Rightarrow> raise (Failed (Error_Service ''the command is not a service operation'')))"

subsection \<open>The control handler\<close>

datatype service_control =
    Event_Stop | Event_Shutdown | Event_Pause | Event_Continue | Event_User u32
  | Event_Interrogate | Event_Other

datatype handler_result = NoError | NotImplemented

record service_status =
  current_state :: service_state
  accept_stop :: bool
  accept_pause :: bool
  status_exit :: u32
  checkpoint :: u32
  wait_hint_ms :: u64

definition status_of :: "service_state \<Rightarrow> u32 \<Rightarrow> u64 \<Rightarrow> bool \<Rightarrow> service_status" where
  "status_of state check hint p =
     (let accepts = \<not> (state = StartPending \<or> state = Stopped) in
      \<lparr>current_state = state, accept_stop = accepts, accept_pause = (accepts \<and> p),
       status_exit = 0, checkpoint = check, wait_hint_ms = hint\<rparr>)"

text \<open>
  What the handler knows: the codes of the two dumps, the stop hint, whether the status handle
  is registered. Its channel holds at most 32 controls; a control that does not fit is lost.
\<close>

record handler =
  h_pausable :: bool
  h_dump_code :: u64
  h_heap_code :: u64
  h_stop_hint :: u64
  h_registered :: bool

record handler_state =
  queue :: "control list"
  reported :: "service_status list"

definition control_capacity :: nat where
  "control_capacity = 32"

definition set_pending :: "handler \<Rightarrow> service_state \<Rightarrow> u64 \<Rightarrow> handler_state \<Rightarrow> handler_state" where
  "set_pending H state hint s =
     (if h_registered H then s\<lparr>reported := reported s @ [status_of state 1 hint (h_pausable H)]\<rparr> else s)"

definition enqueue :: "control \<Rightarrow> handler_state \<Rightarrow> handler_state" where
  "enqueue c s = (if length (queue s) < control_capacity then s\<lparr>queue := queue s @ [c]\<rparr> else s)"

definition handle_event :: "handler \<Rightarrow> service_control \<Rightarrow> handler_state \<Rightarrow> handler_result \<times> handler_state" where
  "handle_event H event s =
     (case event of
       Event_Stop \<Rightarrow> (NoError, enqueue Control_Stop (set_pending H StopPending (h_stop_hint H) s))
     | Event_Shutdown \<Rightarrow> (NoError, enqueue Control_Stop (set_pending H StopPending (h_stop_hint H) s))
     | Event_Pause \<Rightarrow>
         if h_pausable H then (NoError, enqueue Control_Pause (set_pending H PausePending (h_stop_hint H) s))
         else (NotImplemented, s)
     | Event_Continue \<Rightarrow>
         if h_pausable H then (NoError, enqueue Control_Resume (set_pending H ContinuePending 30000 s))
         else (NotImplemented, s)
     | Event_User n \<Rightarrow>
         if ucast n = h_dump_code H then (NoError, enqueue Control_ThreadDump s)
         else if ucast n = h_heap_code H then (NoError, enqueue Control_HeapDump s)
         else (NoError, enqueue (Control_User n) s)
     | Event_Interrogate \<Rightarrow> (NoError, s)
     | Event_Other \<Rightarrow> (NotImplemented, s))"

subsection \<open>The service worker\<close>

text \<open>The configuration a process runs with: the same in \<open>main\<close> and in the service worker.\<close>

definition process_configuration :: "platform \<Rightarrow> cli \<Rightarrow> io_error + string \<Rightarrow> error + config" where
  "process_configuration P cl exe =
     bind_result (map_error Error_Io exe) (\<lambda>path.
     bind_result (ok_or (Error_Config ''the executable has no parent directory'') (path_parent P path)) (\<lambda>dir.
       config_load P (resolve_configuration P cl dir) dir (overrides cl)))"

definition hint_millis :: "nat \<Rightarrow> u64" where
  "hint_millis d = (let ms = d div 1000000 in if ms < 2 ^ 64 then of_nat ms else - 1)"

definition worker_handler :: "config \<Rightarrow> fault + string \<times> handler" where
  "worker_handler c =
     bind_result (lift_error (service_name c)) (\<lambda>name.
     bind_result (lift_error (heap_dump_control_code c)) (\<lambda>heap.
       (let dump = get_u64 c ''wrapper.thread_dump_control_code'' 255 in
        if ucast heap = dump then
          Inl (Failed (Error_Config
            ''jss.heapdump.control_code must differ from wrapper.thread_dump_control_code''))
        else bind_result (stop_wait_hint c) (\<lambda>hint.
          Inr (name, \<lparr>h_pausable = is_pausable c, h_dump_code = dump, h_heap_code = ucast heap,
            h_stop_hint = hint_millis hint, h_registered = True\<rparr>)))))"

definition starting_status :: "config \<Rightarrow> service_status" where
  "starting_status c =
     status_of StartPending 1
       (saturating_mul (max (get_u64 c ''wrapper.startup.timeout'' 30) 1) 1000) (is_pausable c)"

text \<open>
  The reporter thread: it stops at the first status that the manager refuses. \<open>refused\<close> are
  the answers to the reports, by their number.
\<close>

definition reported_state :: "event_kind \<Rightarrow> service_state option" where
  "reported_state k =
     (case k of
       JvmStarted _ _ \<Rightarrow> Some Running
     | ServicePaused \<Rightarrow> Some Paused
     | ServiceResumed \<Rightarrow> Some Running
     | _ \<Rightarrow> None)"

primrec report_events ::
    "bool \<Rightarrow> (nat \<Rightarrow> string option) \<Rightarrow> event_kind list \<Rightarrow> service_status list \<Rightarrow> (error + unit) \<times> service_status list" where
  "report_events p refused [] st = (Inr (), st)"
| "report_events p refused (k # ks) st =
     (case reported_state k of
       None \<Rightarrow> report_events p refused ks st
     | Some state \<Rightarrow>
         (case refused (length st) of
           Some e \<Rightarrow> (Inl (service_error e), st)
         | None \<Rightarrow> report_events p refused ks (st @ [status_of state 0 0 p])))"

definition final_status :: "error + int \<Rightarrow> service_status" where
  "final_status result =
     (let n = (case result of Inr n \<Rightarrow> n | Inl _ \<Rightarrow> 1) in
      \<lparr>current_state = Stopped, accept_stop = False, accept_pause = False,
       status_exit = (if 0 \<le> n \<and> n < 2 ^ 32 then of_int n else 1), checkpoint = 0, wait_hint_ms = 0\<rparr>)"

definition finish_worker ::
    "bool \<Rightarrow> (nat \<Rightarrow> string option) \<Rightarrow> error + int \<Rightarrow> event_kind list \<Rightarrow> service_status list
      \<Rightarrow> (error + unit) \<times> service_status list" where
  "finish_worker p refused result evs st =
     (case report_events p refused evs st of (reporter_result, st1) \<Rightarrow>
       (case refused (length st1) of
         Some e \<Rightarrow> (Inl (service_error e), st1)
       | None \<Rightarrow>
           (bind_result reporter_result (\<lambda>_. bind_result result (\<lambda>_. Inr ())), st1 @ [final_status result])))"

text \<open>
  The worker: the supervisor runs on the worker's thread, the reporter beside it. \<open>delivered\<close>
  tells which of the published events fit into the reporter's channel.
\<close>

definition serve ::
    "supervisor \<Rightarrow> handler \<Rightarrow> (nat \<Rightarrow> string option) \<Rightarrow> (event_kind list \<Rightarrow> event_kind list) \<Rightarrow> world
      \<Rightarrow> ((fault + unit) \<times> service_status list \<times> world) option" where
  "serve S H refused delivered w =
     (case refused 0 of
       Some e \<Rightarrow> Some (Inl (Failed (service_error e)), [], w)
     | None \<Rightarrow>
         (case run S w of
           None \<Rightarrow> None
         | Some (r, w') \<Rightarrow>
             (let evs = delivered (drop (length (published w)) (published w'));
                  finish = (\<lambda>result.
                    (case finish_worker (h_pausable H) refused result evs [starting_status (sup_config S)] of
                      (out, states) \<Rightarrow> Some (lift_error out, states, w')))
              in case r of
                Inl Panicked \<Rightarrow> Some (Inl Panicked, [starting_status (sup_config S)], w')
              | Inl (Failed e) \<Rightarrow> finish (Inl e)
              | Inr n \<Rightarrow> finish (Inr n))))"

definition run_service_worker ::
    "platform \<Rightarrow> answers \<Rightarrow> string list \<Rightarrow> io_error + string \<Rightarrow> string option \<Rightarrow> (nat \<Rightarrow> string option)
      \<Rightarrow> (event_kind list \<Rightarrow> event_kind list) \<Rightarrow> world \<Rightarrow> ((fault + unit) \<times> service_status list \<times> world) option" where
  "run_service_worker P A args exe registered refused delivered w =
     (case bind_result (parse args) (\<lambda>cl. bind_result (process_configuration P cl exe) (\<lambda>c. Inr (cl, c))) of
       Inl e \<Rightarrow> Some (Inl (Failed e), [], w)
     | Inr (cl, c) \<Rightarrow>
         (case worker_handler c of
           Inl f \<Rightarrow> Some (Inl f, [], w)
         | Inr (name, H) \<Rightarrow>
             (case registered of
               Some e \<Rightarrow> Some (Inl (Failed (service_error e)), [], w)
             | None \<Rightarrow>
                 serve \<lparr>sup_platform = P, sup_config = c, sup_args = application_args cl,
                        sup_service = True, sup_answers = A\<rparr> H refused delivered w)))"

subsection \<open>The process: \<open>src/main.rs\<close>\<close>

datatype task =
    Task_Help | Task_Version | Task_Console cli config | Task_Service cli config | Task_Command cli config

definition select_task :: "platform \<Rightarrow> string list \<Rightarrow> io_error + string \<Rightarrow> error + task" where
  "select_task P args exe =
     bind_result (parse args) (\<lambda>cl.
       if command cl = Cmd_Help then Inr Task_Help
       else if command cl = Cmd_Version then Inr Task_Version
       else bind_result (process_configuration P cl exe) (\<lambda>c.
         Inr (case command cl of
           Cmd_Console \<Rightarrow> Task_Console cl c
         | Cmd_Service \<Rightarrow> Task_Service cl c
         | _ \<Rightarrow> Task_Command cl c)))"

definition exit_status :: "error + int \<Rightarrow> u8" where
  "exit_status result =
     (case result of Inr n \<Rightarrow> if 0 \<le> n \<and> n \<le> 255 then of_int n else 1 | Inl _ \<Rightarrow> 1)"

end
