(* ===== verification/Console.thy ===== *)
theory Console
  imports Lifecycle "HOL-Library.Sublist"
begin

section \<open>Console events: \<open>src/windows_process.rs\<close> and the channel of \<open>src/supervisor.rs\<close>\<close>

text \<open>
  The console control handler runs on a thread of the system: it turns an event into a signal
  and puts it into a bounded channel. A forwarding thread takes signals from there and puts
  controls into the supervisor's bounded channel. Neither ever blocks: what does not fit is
  dropped. Here the three participants are steps of a transition system, in any interleaving.
\<close>

subsection \<open>Signals\<close>

datatype console_signal = Signal_Interrupt | Signal_Break

definition console_signal_of :: "u32 \<Rightarrow> console_signal option" where
  "console_signal_of event =
     (if event \<in> {0, 2, 5, 6} then Some Signal_Interrupt
      else if event = 1 then Some Signal_Break
      else None)"

definition control_of_signal :: "console_signal \<Rightarrow> control" where
  "control_of_signal signal =
     (case signal of Signal_Interrupt \<Rightarrow> Control_ConsoleInterrupt | Signal_Break \<Rightarrow> Control_ConsoleBreak)"

text \<open>The static sender, set once, and the two channels.\<close>

record console_state =
  registered :: bool
  signals :: "console_signal list"
  controls :: "control list"

definition console_capacity :: nat where
  "console_capacity = 16"

definition try_send :: "'a \<Rightarrow> 'a list \<Rightarrow> bool \<times> 'a list" where
  "try_send x channel =
     (if length channel < console_capacity then (True, channel @ [x]) else (False, channel))"

text \<open>The handler's answer tells the system whether the event has been taken care of.\<close>

definition console_control_handler :: "u32 \<Rightarrow> console_state \<Rightarrow> bool \<times> console_state" where
  "console_control_handler event s =
     (case console_signal_of event of
       None \<Rightarrow> (False, s)
     | Some signal \<Rightarrow>
         if registered s then
           (case try_send signal (signals s) of (sent, channel) \<Rightarrow> (sent, s\<lparr>signals := channel\<rparr>))
         else (False, s))"

text \<open>
  Registration: on Windows the sender is kept even if the handler cannot be installed
  afterwards; elsewhere the library's handler is installed, or says why not.
\<close>

definition console_signal_channel ::
    "platform \<Rightarrow> io_error option \<Rightarrow> string option \<Rightarrow> console_state \<Rightarrow> (error + unit) \<times> console_state" where
  "console_signal_channel P handler_fault library_fault s =
     (if windows P then
        (if registered s then (Inl (Error_Config ''the console handler was already registered''), s)
         else
           (case handler_fault of
             Some e \<Rightarrow> (Inl (Error_Io e), s\<lparr>registered := True, signals := []\<rparr>)
           | None \<Rightarrow> (Inr (), s\<lparr>registered := True, signals := []\<rparr>)))
      else
        (case library_fault of
          Some e \<Rightarrow> (Inl (Error_Config (''could not register the Ctrl+C handler: '' @ e)), s)
        | None \<Rightarrow> (Inr (), s\<lparr>registered := True, signals := []\<rparr>)))"

definition console_control_channel ::
    "platform \<Rightarrow> io_error option \<Rightarrow> string option \<Rightarrow> console_state \<Rightarrow> (error + unit) \<times> console_state" where
  "console_control_channel P handler_fault library_fault s =
     console_signal_channel P handler_fault library_fault (s\<lparr>controls := []\<rparr>)"

text \<open>The forwarding thread takes one signal.\<close>

definition forward_signal :: "console_state \<Rightarrow> console_state" where
  "forward_signal s =
     (case signals s of
       [] \<Rightarrow> s
     | signal # rest \<Rightarrow>
         s\<lparr>signals := rest, controls := snd (try_send (control_of_signal signal) (controls s))\<rparr>)"

subsection \<open>Interleavings\<close>

text \<open>
  \<open>console_run s0 events taken s\<close>: from \<open>s0\<close>, the system has raised \<open>events\<close> and the supervisor
  has taken the controls \<open>taken\<close>.
\<close>

inductive console_run ::
    "console_state \<Rightarrow> u32 list \<Rightarrow> control list \<Rightarrow> console_state \<Rightarrow> bool" for s0 where
  start: "console_run s0 [] [] s0"
| event: "console_run s0 es cs s \<Longrightarrow> console_run s0 (es @ [e]) cs (snd (console_control_handler e s))"
| forward: "console_run s0 es cs s \<Longrightarrow> console_run s0 es cs (forward_signal s)"
| take: "console_run s0 es cs s \<Longrightarrow> controls s = c # rest \<Longrightarrow> console_run s0 es (cs @ [c]) (s\<lparr>controls := rest\<rparr>)"

text \<open>What the events ask for.\<close>

definition requested :: "u32 list \<Rightarrow> control list" where
  "requested es = map control_of_signal (List.map_filter console_signal_of es)"

text \<open>What has been taken, is queued for the supervisor, or is queued for the forwarder.\<close>

definition in_flight :: "control list \<Rightarrow> console_state \<Rightarrow> control list" where
  "in_flight cs s = cs @ controls s @ map control_of_signal (signals s)"

lemma requested_snoc:
  "requested (es @ [e]) =
     requested es @ (case console_signal_of e of None \<Rightarrow> [] | Some signal \<Rightarrow> [control_of_signal signal])"
  by (simp add: requested_def map_filter_def split: option.split)

lemma try_send_cases:
  "(snd (try_send x channel) = channel @ [x] \<and> fst (try_send x channel) \<and> length channel < console_capacity)
   \<or> (snd (try_send x channel) = channel \<and> \<not> fst (try_send x channel) \<and> console_capacity \<le> length channel)"
  by (auto simp: try_send_def)

text \<open>
  One invariant for all steps: the channels are bounded, nothing is invented or reordered, and
  as long as fewer events than a channel holds were raised nothing is dropped.
\<close>

definition console_ok :: "u32 list \<Rightarrow> control list \<Rightarrow> console_state \<Rightarrow> bool" where
  "console_ok es cs s \<longleftrightarrow>
     length (signals s) \<le> console_capacity \<and> length (controls s) \<le> console_capacity
     \<and> subseq (in_flight cs s) (requested es)
     \<and> (registered s \<and> length es \<le> console_capacity \<longrightarrow> in_flight cs s = requested es)"

lemma requested_length: "length (requested es) \<le> length es"
  by (simp add: requested_def map_filter_def)

lemma handler_keeps:
  assumes "console_ok es cs s"
  shows "console_ok (es @ [e]) cs (snd (console_control_handler e s))"
proof (cases "\<exists>signal. console_signal_of e = Some signal \<and> registered s")
  case True
  then obtain signal where signal: "console_signal_of e = Some signal" "registered s" by blast
  have full: "length (signals s) < console_capacity" if "length es < console_capacity"
  proof -
    from assms that signal(2) have "length (in_flight cs s) = length (requested es)" by (simp add: console_ok_def)
    with requested_length [of es] that show ?thesis by (simp add: in_flight_def)
  qed
  from assms have "subseq (in_flight cs s) (requested es @ [control_of_signal signal])"
    by (auto simp: console_ok_def intro: list_emb_prefix)
  moreover from assms have "subseq (in_flight cs s @ [control_of_signal signal]) (requested es @ [control_of_signal signal])"
    by (simp add: console_ok_def)
  ultimately show ?thesis
    using assms signal full try_send_cases [of signal "signals s"]
    by (auto simp: console_control_handler_def console_ok_def requested_snoc in_flight_def split: prod.splits)
next
  case False
  then have "snd (console_control_handler e s) = s"
    by (auto simp: console_control_handler_def split: option.splits)
  with assms False show ?thesis
    by (auto simp: console_ok_def requested_snoc intro: list_emb_prefix split: option.splits)
qed

lemma forward_keeps:
  assumes "console_ok es cs s"
  shows "console_ok es cs (forward_signal s)"
proof (cases "signals s")
  case (Cons signal rest)
  from assms Cons have "subseq (cs @ controls s @ map control_of_signal rest) (in_flight cs s)"
    by (simp add: in_flight_def subseq_append' list_emb_Cons)
  with assms have "subseq (cs @ controls s @ map control_of_signal rest) (requested es)"
    by (auto simp: console_ok_def intro: subseq_order.trans)
  moreover have "length (controls s) < console_capacity" if "length es \<le> console_capacity" "registered s"
  proof -
    from assms that have "length (in_flight cs s) \<le> console_capacity"
      using requested_length [of es] by (auto simp: console_ok_def)
    with Cons show ?thesis by (simp add: in_flight_def)
  qed
  ultimately show ?thesis
    using assms Cons try_send_cases [of "control_of_signal signal" "controls s"]
    by (auto simp: forward_signal_def console_ok_def in_flight_def)
qed (use assms in \<open>simp add: forward_signal_def\<close>)

lemma console_run_ok:
  assumes "console_run s0 es cs s" and "signals s0 = []" and "controls s0 = []"
  shows "console_ok es cs s \<and> registered s = registered s0"
  using assms
proof (induction rule: console_run.induct)
  case start
  then show ?case by (simp add: console_ok_def in_flight_def requested_def map_filter_def)
next
  case (event es cs s e)
  then show ?case using handler_keeps
    by (auto simp: console_control_handler_def split: option.splits prod.splits)
next
  case (forward es cs s)
  then show ?case using forward_keeps by (auto simp: forward_signal_def split: list.splits)
next
  case (take es cs s c rest)
  then show ?case by (auto simp: console_ok_def in_flight_def)
qed

text \<open>
  C28. Console events reach the supervisor in order. After the channel has been set up, whatever
  the interleaving of the system's events, the forwarding thread and the supervisor: the
  controls the supervisor has taken, followed by what is still queued, are a subsequence of
  what the events ask for (an interrupt for Ctrl+C, close, logoff and shutdown, a break for
  Ctrl+Break), neither channel ever holds more than sixteen entries, and while no more than
  sixteen events have been raised none is lost.
\<close>

theorem console_events_in_order:
  assumes "console_control_channel P handler_fault library_fault s = (Inr (), s0)"
    and "console_run s0 raised taken s1"
  shows "subseq (in_flight taken s1) (requested raised)
    \<and> (length raised \<le> 16 \<longrightarrow> in_flight taken s1 = requested raised)
    \<and> length (signals s1) \<le> 16 \<and> length (controls s1) \<le> 16"
proof -
  from assms(1) have "signals s0 = []" "controls s0 = []" "registered s0"
    by (auto simp: console_control_channel_def console_signal_channel_def split: if_splits option.splits)
  with console_run_ok [OF assms(2)] show ?thesis by (simp add: console_ok_def console_capacity_def)
qed

theorem console_events_in_order_witness:
  "\<exists>s0 s1. console_control_channel (simple_platform [] []) None None \<lparr>registered = False, signals = [], controls = []\<rparr>
       = (Inr (), s0)
     \<and> console_run s0 [1, 7, 0] [Control_ConsoleBreak] s1 \<and> signals s1 = [Signal_Interrupt] \<and> controls s1 = []
     \<and> subseq [Control_ConsoleBreak, Control_ConsoleInterrupt] (requested [1, 7, 0])"
proof -
  let ?s0 = "\<lparr>registered = True, signals = [], controls = []\<rparr>"
  let ?s1 = "\<lparr>registered = True, signals = [Signal_Interrupt], controls = []\<rparr>"
  have ready: "console_control_channel (simple_platform [] []) None None \<lparr>registered = False, signals = [], controls = []\<rparr>
      = (Inr (), ?s0)"
    by (simp add: console_control_channel_def console_signal_channel_def simple_platform_def)
  have handled: "snd (console_control_handler 1 ?s0) = ?s0\<lparr>signals := [Signal_Break]\<rparr>"
    "snd (console_control_handler 7 s) = s" "snd (console_control_handler 0 ?s0) = ?s1" for s
    by (simp_all add: console_control_handler_def console_signal_of_def try_send_def console_capacity_def)
  have forwarded: "forward_signal (?s0\<lparr>signals := [Signal_Break]\<rparr>) = ?s0\<lparr>controls := [Control_ConsoleBreak]\<rparr>"
    by (simp add: forward_signal_def try_send_def console_capacity_def control_of_signal_def)
  from console_run.event [OF console_run.start, of ?s0 1] handled(1)
  have "console_run ?s0 [1] [] (?s0\<lparr>signals := [Signal_Break]\<rparr>)" by simp
  from console_run.forward [OF this] have "console_run ?s0 [1] [] (?s0\<lparr>controls := [Control_ConsoleBreak]\<rparr>)"
    unfolding forwarded .
  from console_run.take [OF this, of Control_ConsoleBreak "[]"]
  have "console_run ?s0 [1] [Control_ConsoleBreak] ?s0" by simp
  from console_run.event [OF this, of 7] handled(2) have "console_run ?s0 [1, 7] [Control_ConsoleBreak] ?s0" by simp
  from console_run.event [OF this, of 0] handled(3) have run: "console_run ?s0 [1, 7, 0] [Control_ConsoleBreak] ?s1" by simp
  from console_events_in_order [OF ready run] run ready show ?thesis
    by (intro exI [of _ ?s0] exI [of _ ?s1]) (simp add: in_flight_def control_of_signal_def)
qed

end
