(* ===== verification/Service_Process.thy ===== *)
theory Service_Process
  imports Service Console
begin

section \<open>The service process: \<open>src/service.rs\<close>, \<open>src/main.rs\<close> and the Windows event log\<close>

text \<open>
  What becomes of a service worker that fails, possibly before there is a log: its error goes
  to the Windows event log, or to the standard error stream. And the whole process, from the
  command line to the exit status.
\<close>

subsection \<open>The event log: \<open>src/windows_process.rs\<close>\<close>

record event_log =
  log_calls :: nat
  open_sources :: nat
  event_records :: "(string \<times> string) list"
  error_stream :: "string list"

text \<open>The answers of \<open>RegisterEventSourceW\<close> and \<open>ReportEventW\<close>, by the number of the call.\<close>

record event_log_api =
  api_register :: "nat \<Rightarrow> io_error option"
  api_report :: "nat \<Rightarrow> io_error option"

definition log_ask :: "(nat \<Rightarrow> 'a) \<Rightarrow> (event_log, 'a) io" where
  "log_ask f L = Some (Inr (f (log_calls L)), L\<lparr>log_calls := Suc (log_calls L)\<rparr>)"

definition report_event_log_error ::
    "platform \<Rightarrow> event_log_api \<Rightarrow> string \<Rightarrow> string \<Rightarrow> (event_log, unit) io" where
  "report_event_log_error P V source msg =
     (if \<not> windows P then raise (Failed (Error_UnsupportedPlatform ''the Windows event log''))
      else
        and_then (log_ask (api_register V)) (\<lambda>fault.
          case fault of
            Some e \<Rightarrow> raise (Failed (Error_Io e))
          | None \<Rightarrow>
              and_then (update (\<lambda>L. L\<lparr>open_sources := Suc (open_sources L)\<rparr>)) (\<lambda>_.
              and_then (log_ask (api_report V)) (\<lambda>failed.
              and_then
                (if failed = None
                 then update (\<lambda>L. L\<lparr>event_records := event_records L @ [(source, msg)]\<rparr>) else ret ()) (\<lambda>_.
              and_then (update (\<lambda>L. L\<lparr>open_sources := open_sources L - 1\<rparr>)) (\<lambda>_.
                case failed of None \<Rightarrow> ret () | Some e \<Rightarrow> raise (Failed (Error_Io e))))))))"

subsection \<open>The entry point of the service\<close>

definition service_source_name :: "platform \<Rightarrow> string list \<Rightarrow> io_error + string \<Rightarrow> string option" where
  "service_source_name P args exe =
     (case bind_result (parse args) (\<lambda>cl. process_configuration P cl exe) of
       Inl _ \<Rightarrow> None
     | Inr c \<Rightarrow> get c ''wrapper.ntservice.name'')"

definition report_failure :: "platform \<Rightarrow> event_log_api \<Rightarrow> string \<Rightarrow> string \<Rightarrow> (event_log, unit) io" where
  "report_failure P V source msg =
     and_then (attempt (report_event_log_error P V source msg)) (\<lambda>r.
       case r of
         Inr _ \<Rightarrow> ret ()
       | Inl _ \<Rightarrow> update (\<lambda>L. L\<lparr>error_stream := error_stream L @ [msg]\<rparr>))"

text \<open>What is done with the result of the worker; a panic has ended the process.\<close>

definition windows_service_main ::
    "platform \<Rightarrow> event_log_api \<Rightarrow> string list \<Rightarrow> io_error + string \<Rightarrow> fault + unit \<Rightarrow> (event_log, unit) io" where
  "windows_service_main P V args exe worker =
     (case worker of
       Inr _ \<Rightarrow> ret ()
     | Inl Panicked \<Rightarrow> raise Panicked
     | Inl (Failed e) \<Rightarrow>
         report_failure P V
           (case service_source_name P args exe of None \<Rightarrow> product_name | Some n \<Rightarrow> n)
           (product_name @ '' could not run the service: '' @ error_text e))"

definition service_main ::
    "platform \<Rightarrow> answers \<Rightarrow> event_log_api \<Rightarrow> string list \<Rightarrow> io_error + string \<Rightarrow> string option
      \<Rightarrow> (nat \<Rightarrow> string option) \<Rightarrow> (event_kind list \<Rightarrow> event_kind list) \<Rightarrow> world \<Rightarrow> event_log
      \<Rightarrow> ((fault + unit) \<times> service_status list \<times> world \<times> event_log) option" where
  "service_main P A V args exe registration refused delivered w L =
     (case run_service_worker P A args exe registration refused delivered w of
       None \<Rightarrow> None
     | Some (worker, states, w') \<Rightarrow>
         (case windows_service_main P V args exe worker L of
           None \<Rightarrow> None
         | Some (r, L') \<Rightarrow> Some (r, states, w', L')))"

definition run_dispatcher :: "platform \<Rightarrow> string option \<Rightarrow> config \<Rightarrow> error + int" where
  "run_dispatcher P refused c =
     (if \<not> windows P then Inl (Error_UnsupportedPlatform ''Windows services'')
      else bind_result (service_name c) (\<lambda>_.
        case refused of Some e \<Rightarrow> Inl (service_error e) | None \<Rightarrow> Inr 0))"

definition execute_command_on :: "platform \<Rightarrow> scm \<Rightarrow> cli \<Rightarrow> config \<Rightarrow> (scm_world, int) io" where
  "execute_command_on P M cl c =
     (if \<not> windows P then raise (Failed (Error_UnsupportedPlatform ''Windows services''))
      else execute_command M cl c)"

subsection \<open>The process\<close>

text \<open>
  The task that was selected is run to its exit code. Configuration warnings of the other
  commands go to the error stream; an error of the task ends there too.
\<close>

definition run_console ::
    "platform \<Rightarrow> answers \<Rightarrow> io_error option \<Rightarrow> string option \<Rightarrow> cli \<Rightarrow> config \<Rightarrow> console_state \<Rightarrow> world
      \<Rightarrow> ((fault + int) \<times> console_state \<times> world) option" where
  "run_console P A handler_fault library_fault cl c s w =
     (case console_control_channel P handler_fault library_fault s of
       (Inl e, s') \<Rightarrow> Some (Inl (Failed e), s', w)
     | (Inr _, s') \<Rightarrow>
         (case run \<lparr>sup_platform = P, sup_config = c, sup_args = application_args cl, sup_service = False,
             sup_answers = A\<rparr> w of
           None \<Rightarrow> None
         | Some (r, w') \<Rightarrow> Some (r, s', w')))"

definition command_warnings :: "config \<Rightarrow> string list" where
  "command_warnings c =
     map (\<lambda>v. product_name @ '': warning: '' @ warning_message v) (warnings c)"

definition run_command_task :: "platform \<Rightarrow> scm \<Rightarrow> cli \<Rightarrow> config \<Rightarrow> (scm_world, int) io" where
  "run_command_task P M cl c =
     and_then (update (\<lambda>w. w\<lparr>scm_errors := scm_errors w @ command_warnings c\<rparr>)) (\<lambda>_.
       execute_command_on P M cl c)"

definition error_line :: "error + int \<Rightarrow> string list" where
  "error_line result =
     (case result of Inr _ \<Rightarrow> [] | Inl e \<Rightarrow> [product_name @ '': '' @ error_text e])"

end
