(* ===== verification/Service_Properties.thy ===== *)
theory Service_Properties
  imports Service_Process Supervisor_Sample
begin

section \<open>Correctness of the service integration\<close>

text \<open>
  The service that is installed runs with the command line it was installed with; the dump
  commands reach the handlers they are meant for; a worker that ends reports it, and one that
  fails is reported in the event log or on the error stream.
\<close>

subsection \<open>Installation\<close>

lemma parse_configuration_plain:
  assumes "parse args = Inr c"
  shows "\<not> looks_like_override (configuration c) \<and> configuration c \<noteq> ''--''"
proof -
  obtain ws apps where split: "split_arguments args = (ws, apps)" by fastforce
  then have ws: "a \<in> set ws \<Longrightarrow> a \<noteq> ''--''" for a
    by (auto simp: split_arguments_def Let_def dest: set_takeWhileD)
  have dflt: "\<not> looks_like_override ''wrapper.conf''" by code_simp
  from assms split obtain cmd cursor b cursor' where
    "select_configuration ws (cmd, cursor, b) = Inr (configuration c, cursor')"
    by (auto simp: parse_def bind_result_eq_Inr)
  then show ?thesis using dflt ws nth_mem [of cursor ws]
    by (auto simp: select_configuration_def Let_def split: if_splits)
qed



subsection \<open>Dump commands\<close>

lemma scm_issue_requests:
  "scm_issue M r w = Some (Inr u, w') \<Longrightarrow> scm_requests w' = scm_requests w @ [r]"
  by (auto simp: scm_issue_def scm_check_def and_then_eq_Inr scm_ask_def split: option.splits)

lemma open_service_requests:
  "open_service M c rights w = Some (Inr u, w') \<Longrightarrow> scm_requests w' = scm_requests w @ [Request_Open rights]"
  by (auto simp: open_service_def scm_check_def and_then_eq_Inr scm_ask_def split: option.splits
    dest!: scm_issue_requests)

lemma notify_requests:
  assumes "notify M c n w = Some (Inr u, w')"
  shows "scm_requests w' = scm_requests w @ [Request_Open [Access_UserControl, Access_QueryStatus], Request_Notify n]"
  using assms
  by (auto simp: notify_def and_then_eq_Inr split: if_splits dest!: scm_issue_requests open_service_requests)

lemma worker_codes:
  assumes "worker_handler c = Inr (name, H)"
  shows "heap_dump_control_code c = Inr h \<Longrightarrow> h_heap_code H = ucast h \<and> ucast h \<noteq> h_dump_code H"
    and "h_dump_code H = get_u64 c ''wrapper.thread_dump_control_code'' 255"
  using assms by (auto simp: worker_handler_def lift_error_def bind_result_eq_Inr map_error_eq_Inr Let_def split: if_splits)

text \<open>
  C24. The dump commands reach the right handler: if the service worker and the command run
  with the same configuration and the command succeeds, it has sent exactly one control code,
  and the worker's handler turns this code into the thread dump or the heap dump that was
  asked for, never into the other and never into a control of the application.
\<close>

theorem dump_commands_reach_handler:
  assumes "worker_handler c = Inr (name, H)" and "command cl \<in> {Cmd_Dump, Cmd_HeapDump}"
    and "execute_command M cl c w = Some (Inr exit_code, w')"
  shows "exit_code = 0 \<and> (\<exists>n. scm_requests w' =
      scm_requests w @ [Request_Open [Access_UserControl, Access_QueryStatus], Request_Notify n]
    \<and> handle_event H (Event_User n) s =
        (NoError, enqueue (if command cl = Cmd_Dump then Control_ThreadDump else Control_HeapDump) s))"
proof (cases "command cl = Cmd_Dump")
  case True
  let ?code = "get_u64 c ''wrapper.thread_dump_control_code'' 255"
  from True assms(3) have small: "unat ?code < 2 ^ 32" and sent: "exit_code = 0"
    "\<exists>u. notify M c (of_nat (unat ?code)) w = Some (Inr u, w')"
    by (auto simp: execute_command_def Let_def and_then_eq_Inr split: if_splits)
  have "ucast (of_nat (unat ?code) :: u32) = ?code"
    using small by (simp add: word_eq_iff_unsigned [where 'a = nat] unsigned_ucast_eq unsigned_of_nat
      unsigned_take_bit_eq take_bit_nat_eq_self)
  with True sent notify_requests worker_codes(2) [OF assms(1)] show ?thesis
    by (auto simp: handle_event_def)
next
  case False
  with assms(2) have cmd: "command cl = Cmd_HeapDump" by simp
  with assms(3) obtain n where n: "heap_dump_control_code c = Inr n" "exit_code = 0"
    "\<exists>u. notify M c n w = Some (Inr u, w')"
    by (auto simp: execute_command_def Let_def and_then_eq_Inr lift_error_def map_error_eq_Inr)
  with worker_codes(1) [OF assms(1) n(1)] cmd notify_requests show ?thesis
    by (auto simp: handle_event_def)
qed

text \<open>A service control manager that accepts everything, and a configured service.\<close>

definition calm_scm :: scm where
  "calm_scm = \<lparr>scm_connect = (\<lambda>_. None), scm_call = (\<lambda>_. None), scm_state = (\<lambda>_. Inr Running),
     scm_config = (\<lambda>_. Inr (False, AutoStart)), scm_now = (\<lambda>n. n), scm_executable = Inr ''/d/jss.exe'',
     scm_user_code = (\<lambda>n. 128 \<le> n \<and> n \<le> 255)\<rparr>"

definition service_config :: config where
  "service_config = \<lparr>root_path = ''w'', executable_directory = ''/d'',
     properties = [(''wrapper.ntservice.name'', ''app'')], environment = [], warnings = []\<rparr>"

lemma get_service_config: "get service_config n = (if n = ''wrapper.ntservice.name'' then Some ''app'' else None)"
  by (simp add: get_def bt_get_def service_config_def)

lemma service_name_app: "service_name service_config = Inr ''app''"
  by code_simp

lemma service_handler:
  "worker_handler service_config = Inr (''app'', \<lparr>h_pausable = False, h_dump_code = 255, h_heap_code = 254,
     h_stop_hint = 40000, h_registered = True\<rparr>)"
  by (simp add: worker_handler_def service_name_app get_service_config heap_dump_control_code_def
    get_u64_def get_bool_def stop_wait_hint_def is_pausable_def hint_millis_def lift_error_def map_error_def
    from_secs_def instant_add_def instant_limit_def stop_wait_margin_def)

theorem dump_commands_reach_handler_witness:
  "\<exists>n w'. execute_command calm_scm \<lparr>command = Cmd_HeapDump, configuration = '''', overrides = [], application_args = []\<rparr>
       service_config \<lparr>scm_steps = 0, scm_requests = [], scm_printed = [], scm_errors = []\<rparr> = Some (Inr 0, w')
     \<and> scm_requests w' = [Request_Open [Access_UserControl, Access_QueryStatus], Request_Notify n]
     \<and> snd (handle_event \<lparr>h_pausable = False, h_dump_code = 255, h_heap_code = 254, h_stop_hint = 40000,
           h_registered = True\<rparr> (Event_User n) \<lparr>queue = [], reported = []\<rparr>) = \<lparr>queue = [Control_HeapDump], reported = []\<rparr>"
proof -
  let ?cl = "\<lparr>command = Cmd_HeapDump, configuration = '''', overrides = [], application_args = []\<rparr>"
  let ?w = "\<lparr>scm_steps = 0, scm_requests = [], scm_printed = [], scm_errors = []\<rparr>"
  have "\<exists>x w'. execute_command calm_scm ?cl service_config ?w = Some (Inr x, w')"
    by (simp add: execute_command_def calm_scm_def Let_def heap_dump_control_code_def get_u64_def get_service_config
      lift_error_def map_error_def and_then_def notify_def open_service_def scm_check_def scm_issue_def scm_ask_def
      service_name_app word_le_nat_alt)
  then obtain x w' where "execute_command calm_scm ?cl service_config ?w = Some (Inr x, w')" by blast
  from this dump_commands_reach_handler [OF service_handler _ this, of "\<lparr>queue = [], reported = []\<rparr>"]
  show ?thesis by (auto simp: enqueue_def control_capacity_def)
qed

subsection \<open>The states that are reported\<close>

lemma report_events_extends:
  "report_events p refused evs st = (r, st') \<Longrightarrow> \<exists>new. st' = st @ new
     \<and> map current_state new = take (length new) (List.map_filter reported_state evs)
     \<and> (r = Inr () \<longrightarrow> length new = length (List.map_filter reported_state evs))
     \<and> list_all (\<lambda>x. accept_stop x \<and> accept_pause x = p) new"
proof (induction evs arbitrary: st)
  case (Cons k ks)
  show ?case
  proof (cases "reported_state k")
    case None
    with Cons show ?thesis by (simp add: List.map_filter_simps)
  next
    case (Some state)
    show ?thesis
    proof (cases "refused (length st)")
      case None
      from Cons.IH [of "st @ [status_of state 0 0 p]"] Cons.prems Some None obtain new where
        "st' = st @ [status_of state 0 0 p] @ new"
        "map current_state new = take (length new) (List.map_filter reported_state ks)"
        "r = Inr () \<longrightarrow> length new = length (List.map_filter reported_state ks)"
        "list_all (\<lambda>x. accept_stop x \<and> accept_pause x = p) new" by auto
      moreover have "state = Running \<or> state = Paused"
        using Some by (auto simp: reported_state_def split: event_kind.splits)
      ultimately show ?thesis using Some
        by (intro exI [of _ "status_of state 0 0 p # new"]) (auto simp: List.map_filter_simps status_of_def Let_def)
    qed (use Cons.prems Some in auto)
  qed
qed simp



subsection \<open>The stop hint\<close>

text \<open>
  The time the manager is told a stop may take leaves out the capture of a thread dump by
  \<open>jcmd\<close>, which a shutdown waits for: the hint can be shorter than the shutdown.
\<close>

lemma stop_hint_misses_jcmd:
  "\<exists>c h. stop_wait_hint c = Inr h \<and> get_bool c ''wrapper.request_thread_dump_on_failed_jvm_exit'' False
     \<and> h < shutdown_timeout c + from_secs (max (get_u64 c ''jss.threaddump.timeout'' 30) 1)"
proof -
  let ?c = "service_config\<lparr>properties := [(''wrapper.request_thread_dump_on_failed_jvm_exit'', ''TRUE'')]\<rparr>"
  have get: "get ?c n = (if n = ''wrapper.request_thread_dump_on_failed_jvm_exit'' then Some ''TRUE'' else None)" for n
    by (simp add: get_def bt_get_def)
  have flag: "get_bool ?c ''wrapper.request_thread_dump_on_failed_jvm_exit'' False" by code_simp
  have "stop_wait_hint ?c = Inr (from_secs 45)"
    by (simp add: stop_wait_hint_def flag get_u64_def get instant_add_def instant_limit_def from_secs_def
      stop_wait_margin_def)
  moreover have "from_secs 45 < shutdown_timeout ?c + from_secs (max (get_u64 ?c ''jss.threaddump.timeout'' 30) 1)"
    by (simp add: shutdown_timeout_def get_u64_def get from_secs_def max_def word_le_nat_alt)
  ultimately show ?thesis using flag by blast
qed

subsection \<open>A worker that fails\<close>

lemma report_event_log_error_ok:
  assumes "windows P" and "api_register V (log_calls L) = None" and "api_report V (Suc (log_calls L)) = None"
  shows "report_event_log_error P V source msg L =
    Some (Inr (), L\<lparr>log_calls := Suc (Suc (log_calls L)), event_records := event_records L @ [(source, msg)]\<rparr>)"
  using assms by (simp add: report_event_log_error_def log_ask_def and_then_def)

lemma report_event_log_error_fails:
  assumes "\<not> (windows P \<and> api_register V (log_calls L) = None \<and> api_report V (Suc (log_calls L)) = None)"
  shows "\<exists>e n. report_event_log_error P V source msg L = Some (Inl (Failed e), L\<lparr>log_calls := n\<rparr>)"
  using assms
  by (cases "windows P"; cases "api_register V (log_calls L)"; cases "api_report V (Suc (log_calls L))")
    (auto simp: report_event_log_error_def log_ask_def and_then_def intro: exI [of _ "log_calls L"])

lemma report_failure_cases:
  "\<exists>L'. report_failure P V source msg L = Some (Inr (), L')
    \<and> open_sources L' = open_sources L
    \<and> (if windows P \<and> api_register V (log_calls L) = None \<and> api_report V (Suc (log_calls L)) = None
       then event_records L' = event_records L @ [(source, msg)] \<and> error_stream L' = error_stream L
       else event_records L' = event_records L \<and> error_stream L' = error_stream L @ [msg])"
proof (cases "windows P \<and> api_register V (log_calls L) = None \<and> api_report V (Suc (log_calls L)) = None")
  case True
  with report_event_log_error_ok [of P V L source msg] show ?thesis
    by (simp add: report_failure_def and_then_def attempt_def)
next
  case False
  with report_event_log_error_fails [OF False, of source msg] show ?thesis
    by (auto simp: report_failure_def and_then_def attempt_def)
qed

text \<open>
  C25. A service worker that fails is always noticed, also when it fails before there is a log
  (an unreadable command line or configuration): exactly one message with the error is left,
  in the Windows event log under the configured service name, or the product's name if there
  is none to be had, and on the error stream only if the event log refuses it or there is
  none; the entry point itself ends normally and leaves no event source open.
\<close>

theorem failed_worker_is_reported:
  assumes "run_service_worker P A args exe registration refused delivered w = Some (Inl (Failed e), states, w')"
  defines "source \<equiv> (case service_source_name P args exe of None \<Rightarrow> ''Java Service Steward'' | Some n \<Rightarrow> n)"
    and "msg \<equiv> ''Java Service Steward could not run the service: '' @ error_text e"
  shows "\<exists>L'. service_main P A V args exe registration refused delivered w L = Some (Inr (), states, w', L')
    \<and> open_sources L' = open_sources L
    \<and> (if windows P \<and> api_register V (log_calls L) = None \<and> api_report V (Suc (log_calls L)) = None
       then event_records L' = event_records L @ [(source, msg)] \<and> error_stream L' = error_stream L
       else event_records L' = event_records L \<and> error_stream L' = error_stream L @ [msg])"
proof -
  let ?report = "report_event_log_error P V source msg"
  have texts: "(case service_source_name P args exe of None \<Rightarrow> product_name | Some n \<Rightarrow> n) = source"
    "product_name @ '' could not run the service: '' @ error_text e = msg"
    by (simp_all add: source_def msg_def product_name_def split: option.split)
  have "windows_service_main P V args exe (Inl (Failed e)) = report_failure P V source msg"
    unfolding windows_service_main_def sum.case fault.case texts ..
  with assms(1) report_failure_cases [of P V source msg L] show ?thesis
    by (auto simp: service_main_def)
qed

theorem failed_worker_is_reported_witness:
  "\<exists>e L'. run_service_worker (simple_platform [] []) calm_answers [''--bogus''] (Inr ''/d/jss.exe'') None (\<lambda>_. None)
       (\<lambda>es. es) sample_world = Some (Inl (Failed e), [], sample_world)
     \<and> service_main (simple_platform [] []) calm_answers \<lparr>api_register = (\<lambda>_. None), api_report = (\<lambda>_. None)\<rparr>
         [''--bogus''] (Inr ''/d/jss.exe'') None (\<lambda>_. None) (\<lambda>es. es) sample_world
         \<lparr>log_calls = 0, open_sources = 0, event_records = [], error_stream = []\<rparr> = Some (Inr (), [], sample_world, L')
     \<and> event_records L' = [(''Java Service Steward'', ''Java Service Steward could not run the service: '' @ error_text e)]
     \<and> error_stream L' = []"
proof -
  obtain e where refused: "parse [''--bogus''] = Inl e"
    by (cases "parse [''--bogus'']") (auto, code_simp)
  then have source: "service_source_name P [''--bogus''] exe = None" for P exe
    by (simp add: service_source_name_def bind_result_def)
  from refused have failed: "run_service_worker (simple_platform [] []) calm_answers [''--bogus''] (Inr ''/d/jss.exe'') None
      (\<lambda>_. None) (\<lambda>es. es) sample_world = Some (Inl (Failed e), [], sample_world)"
    by (simp add: run_service_worker_def bind_result_def)
  show ?thesis
    using failed failed_worker_is_reported [OF failed, of "\<lparr>api_register = (\<lambda>_. None), api_report = (\<lambda>_. None)\<rparr>"
      "\<lparr>log_calls = 0, open_sources = 0, event_records = [], error_stream = []\<rparr>"]
    by (auto simp: source simple_platform_def)
qed

end
