(* ===== verification/Job_Containment.thy ===== *)
theory Job_Containment
  imports Lifecycle_Properties
begin

section \<open>A job object contains the JVM\<close>

text \<open>
  When Windows grants the job object, the JVM ends with the invocation in every way the
  invocation can end: by an outcome, by an error or by a panic. No handle of a job is left open.
\<close>

subsection \<open>The event loop leaves the job alone\<close>

definition same_job :: "'z world_scheme \<Rightarrow> 'z world_scheme \<Rightarrow> bool" where
  "same_job w w' \<longleftrightarrow> jobs w' = jobs w \<and> child_pid w' = child_pid w"

interpretation in_job: wireless_invocation same_job S for S
  by unfold_locales (auto simp: same_job_def)

interpretation job_frame: frame "same_job :: 'z world_scheme \<Rightarrow> 'z world_scheme \<Rightarrow> bool"
  by unfold_locales (auto simp: same_job_def)

lemma job_calls [intro!]:
  "maintains same_job (ask f)" "maintains same_job (log_action m)" "maintains same_job (log_line S level source msg)"
  "maintains same_job (emit k)" "maintains same_job (now S)"
  by (auto intro!: ask_frame log_action_frame update_frame
    simp: same_job_def log_line_def say_def emit_def now_def)

lemma job_child_calls [intro!]: "maintains same_job (try_wait A)" "maintains same_job (terminate_child A)"
proof -
  show wait: "maintains same_job (try_wait A)"
    unfolding try_wait_def ask_result_def
    by (auto intro!: job_frame.and_then_frame update_frame split: option.splits sum.splits simp: same_job_def)
  show "maintains same_job (terminate_child A)"
    unfolding terminate_child_def wait_child_def ask_result_def ask_ok_def
    by (auto intro!: job_frame.and_then_frame update_frame wait split: option.splits sum.splits simp: same_job_def)
qed

lemma supervise_job: "maintains same_job (supervise S jid r t0 l k cmd pid f)"
proof -
  have "maintains same_job (with_run (\<lambda>w. world.extend w x) (event_loop S))" for x
    using in_job.event_loop_frame [of S]
    by (fastforce simp: maintains_def with_run_def same_job_def world.defs split: option.splits)
  then show ?thesis
    unfolding supervise_def Let_def by (auto intro!: job_frame.and_then_frame)
qed

subsection \<open>Closing the job ends the JVM\<close>

definition in_granted_job :: "nat \<Rightarrow> world \<Rightarrow> bool" where
  "in_granted_job h w \<longleftrightarrow>
     (\<exists>pid. child_pid w = Some pid \<and> jobs w h = Some \<lparr>job_kills = True, job_members = [pid]\<rparr>)"

lemma new_job_granted:
  assumes "jobs_granted A" and "windows P"
  shows "\<exists>h w'. new_job P A pid w = Some (Inr h, w') \<and> child_pid w' = child_pid w
    \<and> jobs w' h = Some \<lparr>job_kills = True, job_members = [pid]\<rparr>"
  using assms
  by (simp add: jobs_granted_def new_job_def kill_on_close_def create_job_def or_close_def assign_def job_update_def
    ask_ok_def and_then_def)

lemma held_job_ends:
  assumes "in_granted_job h w" and "maintains same_job m" and "holding_job (Some h) m w = Some (r, w')"
  shows "exited w'"
proof -
  from assms(3) obtain v where "m w = Some (r, v)" "w' = close_handle h v"
    by (auto simp: holding_job_eq)
  moreover from assms(2) this(1) have "same_job w v" by (rule maintainsD)
  ultimately show ?thesis
    using assms(1) close_handle_status [of v h]
    by (cases "child_status v") (auto simp: in_granted_job_def same_job_def exited_def close_handle_def ends_child_def)
qed

lemma in_granted_job_same: "in_granted_job h w \<Longrightarrow> same_job w w' \<Longrightarrow> in_granted_job h w'"
  by (simp add: in_granted_job_def same_job_def)

lemma drop_pid_file_exited: "exited (w :: world) \<Longrightarrow> drop_pid_file f w = Some (r, w') \<Longrightarrow> exited w'"
  using maintainsD [OF idle.waits(4)] by blast

text \<open>What the JVM runs in, once it has been spawned.\<close>

lemma launched_ends:
  assumes job: "jobs_granted (sup_answers S)" "windows (sup_platform S)"
      "get_bool (sup_config S) ''jss.java.job_object'' True"
    and "and_then (assign_job S pid) (\<lambda>job.
      and_then (attempt (log_action m)) (\<lambda>file.
        case file of
          Inl e \<Rightarrow> holding_job job (and_then (terminate_child (sup_answers S)) (\<lambda>_. raise (Failed e)))
        | Inr f \<Rightarrow> finally_do (holding_job job (supervise S jid r t0 l k cmd pid f)) (drop_pid_file f))) w
      = Some (result, w')"
    and "child_pid w = Some pid"
  shows "exited w'"
proof -
  obtain h u where "new_job (sup_platform S) (sup_answers S) pid w = Some (Inr h, u)" and u: "in_granted_job h u"
    using new_job_granted [OF job(1,2), of pid w] assms(5) by (auto simp: in_granted_job_def)
  then have "assign_job S pid w = Some (Inr (Some h), u)"
    using job(3) by (simp add: assign_job_def attempt_def and_then_def)
  moreover obtain e_or_f v where "attempt (log_action m) u = Some (Inr e_or_f, v)" and v: "in_granted_job h v"
    using in_granted_job_same [OF u, of "u\<lparr>logs := snd (m (logs u))\<rparr>"]
    by (cases "m (logs u)"; cases "fst (m (logs u))")
      (auto simp: attempt_def log_action_def map_error_def same_job_def)
  ultimately have rest: "(case e_or_f of
        Inl e \<Rightarrow> holding_job (Some h) (and_then (terminate_child (sup_answers S)) (\<lambda>_. raise (Failed e)))
      | Inr f \<Rightarrow> finally_do (holding_job (Some h) (supervise S jid r t0 l k cmd pid f)) (drop_pid_file f)) v
      = Some (result, w')"
    using assms(4) by (simp add: and_then_def)
  show ?thesis
  proof (cases e_or_f)
    case (Inl e)
    have "maintains same_job (and_then (terminate_child (sup_answers S)) (\<lambda>_. raise (Failed e)))"
      by (auto intro!: job_frame.and_then_frame)
    from held_job_ends [OF v this] rest Inl show ?thesis by auto
  next
    case (Inr f)
    with rest show ?thesis
      using held_job_ends [OF v supervise_job] drop_pid_file_exited
      by (fastforce simp: finally_do_eq split: if_splits)
  qed
qed

lemma run_once_contained:
  assumes job: "jobs_granted (sup_answers S)" "windows (sup_platform S)"
      "get_bool (sup_config S) ''jss.java.job_object'' True"
  shows "maintains (\<lambda>w w'. exited w \<longrightarrow> exited w') (run_once S jid r)"
proof -
  have "maintains (\<lambda>w w'. exited w \<longrightarrow> exited w')
      (and_then (update (\<lambda>w. w\<lparr>child_pid := Some pid, child_status := None\<rparr>)) (\<lambda>_.
       and_then (assign_job S pid) (\<lambda>job.
       and_then (attempt (log_action m)) (\<lambda>file.
         case file of
           Inl e \<Rightarrow> holding_job job (and_then (terminate_child (sup_answers S)) (\<lambda>_. raise (Failed e)))
         | Inr f \<Rightarrow> finally_do (holding_job job (supervise S jid r t0 l k cmd pid f)) (drop_pid_file f)))))"
    for pid m t0 l k cmd
    unfolding maintains_def using launched_ends [OF job] by (auto simp: and_then_run)
  then show ?thesis
    unfolding run_once_def
    by (auto intro!: idle.and_then_frame split: sum.splits prod.splits)
qed

text \<open>
  C2. With a job object no end of the supervisor leaves a JVM behind. On Windows, if the job
  object is not switched off and the kernel grants it, then however the supervisor ends (with
  an exit code, with an error of the log, of the control channel, of a pid file or of the child
  process, or with a panic), the last JVM it launched has ended: stopped, terminated, or ended
  by the kernel when the job's only handle was closed.
\<close>

theorem job_contains_jvm:
  assumes "jobs_granted (sup_answers S)" and "windows (sup_platform S)"
    and "get_bool (sup_config S) ''jss.java.job_object'' True"
    and "exited w" and "run S w = Some (result, w')"
  shows "exited w'"
  using maintainsD [OF idle.run_frame [OF run_once_contained [OF assms(1-3)]] assms(5)] assms(4) by simp

text \<open>A world in which the JVM cannot be waited for: the supervisor ends with an error.\<close>

definition unwaitable_answers :: answers where
  "unwaitable_answers = calm_answers\<lparr>a_try_wait := \<lambda>_. Inl (Io_Error OtherKind ''denied'')\<rparr>"

lemma unwaitable_simps [simp]:
  "a_now unwaitable_answers n = n" "a_select unwaitable_answers n = Select_Tick"
  "a_try_wait unwaitable_answers n = Inl (Io_Error OtherKind ''denied'')" "a_spawn unwaitable_answers n = Inr 77"
  "a_console_window unwaitable_answers n = True" "a_bind unwaitable_answers = a_bind calm_answers"
  "a_random unwaitable_answers = a_random calm_answers" "jobs_granted unwaitable_answers"
  by (simp_all add: unwaitable_answers_def calm_answers_def jobs_granted_def)

lemma supervise_unwaitable:
  assumes "steps u < 10000" and "child_status u = None"
  shows "\<exists>w'. supervise (sample_supervisor unwaitable_answers) jid r t0 l k cmd 77 None u =
    Some (Inl (Failed (Error_Io (Io_Error OtherKind ''denied''))), w')"
proof -
  let ?f = "jvm_run.fields jid r cmd 77 None True l k None False t0 False 30
    (Some (steps u + 30000000000)) 5000000000 30000000000 (steps u + 5000000000) (steps u) False None"
  let ?u = "world.extend (u\<lparr>steps := Suc (steps u)\<rparr>) ?f"
  have "child_status ?u = None" "heap_dump_task ?u = None"
    using assms by (simp_all add: world.defs jvm_run.defs)
  then obtain w' where "event_loop (sample_supervisor unwaitable_answers) ?u =
      Some (Inl (Failed (Error_Io (Io_Error OtherKind ''denied''))), w')"
    by (simp add: event_loop_def loop.simps event_round_def tick_def poll_heap_dump_def tick_exit_def
      try_wait_def ask_result_def and_then_def)
  with assms show ?thesis
    by (auto simp: supervise_def run_simps get_u64_def get_quiet_config with_run_def)
qed

lemma unwaitable_round:
  assumes "quiet (logs v)" and "steps v < 200"
  shows "\<exists>w'. lifecycle_round (sample_supervisor unwaitable_answers) (initial_lifecycle False, v) =
    Some (Inl (Failed (Error_Io (Io_Error OtherKind ''denied''))), (initial_lifecycle False, w'))"
proof -
  let ?S = "sample_supervisor unwaitable_answers"
  let ?e = "Failed (Error_Io (Io_Error OtherKind ''denied''))"
  let ?w = "v\<lparr>published := published v @ [JvmLaunching 1]\<rparr>"
  let ?v = "?w\<lparr>steps := Suc (Suc (Suc (Suc (steps v)))), child_pid := Some 77, child_status := None\<rparr>"
  obtain l k cmd where prepared: "prepare_launch ?S 1 (?w\<lparr>steps := Suc (steps v)\<rparr>)
      = Some (Inr (l, k, cmd), ?w\<lparr>steps := Suc (Suc (Suc (steps v)))\<rparr>)"
    using prepare_calm [of unwaitable_answers 1 "?w\<lparr>steps := Suc (steps v)\<rparr>"] by auto
  obtain h u where job: "assign_job ?S 77 ?v = Some (Inr (Some h), u)"
    and u: "steps u = Suc (Suc (Suc (steps ?v)))" "logs u = logs v" "child_status u = None"
    using assign_job_calm [of unwaitable_answers 77 ?v] by auto
  have "\<exists>w1. supervise ?S 1 False (steps v) l k cmd 77 None u = Some (Inl ?e, w1)"
    using supervise_unwaitable u assms(2) by simp
  then obtain w2 where supervised:
    "holding_job (Some h) (supervise ?S 1 False (steps v) l k cmd 77 None) u = Some (Inl ?e, w2)"
    using holding_job_quiet by metis
  have logged: "log_launch ?S 1 cmd x = Some (Inr (), x)" if "quiet (logs x)" for x
    using that by (simp add: log_launch_def and_then_def Let_def split: option.split)
  show ?thesis
    using prepared job supervised logged assms
    by (simp add: lifecycle_round_def launch_round_def write_id_file_def initial_lifecycle_def no_pid_files
      on_world_def run_once_def run_simps attempt_def log_action_def returns_def finally_do_def drop_pid_file_def
      u map_error_def)
qed

theorem job_contains_jvm_witness:
  "\<exists>w'. run (sample_supervisor unwaitable_answers) (sample_world\<lparr>child_status := Some None\<rparr>)
       = Some (Inl (Failed (Error_Io (Io_Error OtherKind ''denied''))), w') \<and> exited w'"
proof -
  let ?S = "sample_supervisor unwaitable_answers"
  have "no_faults (snd quiet_log)" by (simp add: no_faults_def quiet_log_def sample_log_def)
  then obtain w' where ended: "run ?S (sample_world\<lparr>child_status := Some None\<rparr>)
      = Some (Inl (Failed (Error_Io (Io_Error OtherKind ''denied''))), w')"
    using run_from_round [of "sample_world\<lparr>child_status := Some None\<rparr>" unwaitable_answers
        "Inl (Failed (Error_Io (Io_Error OtherKind ''denied'')))"] unwaitable_round
    by (auto simp: sample_world_def)
  have "windows (sup_platform ?S)" "get_bool (sup_config ?S) ''jss.java.job_object'' True"
    by (simp_all add: quiet_platform_def simple_platform_def get_bool_def get_quiet_config)
  with job_contains_jvm [OF _ _ _ _ ended] ended show ?thesis by (auto simp: exited_def)
qed

subsection \<open>Every handle is closed\<close>

definition no_jobs :: "'z world_scheme \<Rightarrow> bool" where
  "no_jobs w \<longleftrightarrow> jobs w = Map.empty"

lemma no_jobs_same: "maintains same_job m \<Longrightarrow> maintains (\<lambda>w w'. no_jobs w \<longrightarrow> no_jobs w') m"
  by (auto simp: maintains_def same_job_def no_jobs_def)

interpretation closing: lifecycle_frame "\<lambda>w w'. no_jobs w \<longrightarrow> no_jobs w'" S for S
  by unfold_locales (auto simp: no_jobs_def)

lemma held_job_closed:
  assumes "maintains same_job m" and "case job of None \<Rightarrow> no_jobs w | Some h \<Rightarrow> dom (jobs w) = {h}"
    and "holding_job job m w = Some (r, w')"
  shows "no_jobs w'"
proof -
  from assms(3) obtain v where v: "m w = Some (r, v)" "w' = (case job of None \<Rightarrow> v | Some h \<Rightarrow> close_handle h v)"
    by (auto simp: holding_job_eq)
  from maintainsD [OF assms(1) v(1)] v(2) assms(2) show ?thesis
    by (auto simp: same_job_def no_jobs_def fun_eq_iff dom_def split: option.splits)
qed

lemma assign_job_dom:
  assumes "assign_job S pid w = Some (r, w')" and "no_jobs w"
  shows "case r of Inl _ \<Rightarrow> no_jobs w' | Inr None \<Rightarrow> no_jobs w' | Inr (Some h) \<Rightarrow> dom (jobs w') = {h}"
proof (cases "get_bool (sup_config S) ''jss.java.job_object'' True")
  case True
  obtain x u where made: "new_job (sup_platform S) (sup_answers S) pid w = Some (x, u)"
    by (cases "new_job (sup_platform S) (sup_answers S) pid w")
      (use assms True in \<open>auto simp: assign_job_def attempt_def and_then_def\<close>)
  from new_job_cases [OF this] assms(2) consider
      (failed) e where "x = Inl (Failed e)" "no_jobs u" | (granted) h where "x = Inr h" "dom (jobs u) = {h}"
    by (auto simp: no_jobs_def)
  then show ?thesis
  proof cases
    case failed
    let ?warn = "\<lambda>e. and_then (log_line S Level_Warn From_Wrapper
      (''Unable to place the JVM in a job object; child processes may outlive the wrapper: '' @ error_text e))
        (\<lambda>_. ret None) :: (world, nat option) io"
    from failed made True assms(1) have warned: "?warn e u = Some (r, w')"
      by (simp add: assign_job_def attempt_def and_then_def)
    have "maintains same_job (?warn e)" by (intro job_frame.and_then_frame job_calls job_frame.ret_frame)
    from maintainsD [OF no_jobs_same [OF this] warned] failed have "no_jobs w'" by simp
    moreover from warned have "r = Inr None \<or> (\<exists>e. r = Inl e)" by (auto simp: and_then_eq_Some)
    ultimately show ?thesis by auto
  next
    case granted
    with made True assms(1) show ?thesis by (auto simp: assign_job_def attempt_def and_then_def)
  qed
next
  case False
  with assms show ?thesis by (auto simp: assign_job_def)
qed

lemma launched_jobs:
  assumes "and_then (assign_job S pid) (\<lambda>job.
      and_then (attempt (log_action m)) (\<lambda>created.
        case created of
          Inl e \<Rightarrow> holding_job job (and_then (terminate_child (sup_answers S)) (\<lambda>_. raise (Failed e)))
        | Inr f \<Rightarrow> finally_do (holding_job job (supervise S jid r t0 l k cmd pid f)) (drop_pid_file f))) w
      = Some (result, w')"
    and "no_jobs w"
  shows "no_jobs w'"
proof -
  let ?rest = "\<lambda>job created. case created of
      Inl e \<Rightarrow> holding_job job (and_then (terminate_child (sup_answers S)) (\<lambda>_. raise (Failed e)))
    | Inr f \<Rightarrow> finally_do (holding_job job (supervise S jid r t0 l k cmd pid f)) (drop_pid_file f)"
  from assms(1) consider (failed) e where "assign_job S pid w = Some (Inl e, w')"
    | (assigned) job u where "assign_job S pid w = Some (Inr job, u)"
        "and_then (attempt (log_action m)) (?rest job) u = Some (result, w')"
    by (auto simp: and_then_eq_Some)
  then show ?thesis
  proof cases
    case failed
    from assign_job_dom [OF this assms(2)] show ?thesis by simp
  next
    case assigned
    from assign_job_dom [OF assigned(1) assms(2)]
    have open_jobs: "case job of None \<Rightarrow> no_jobs u | Some h \<Rightarrow> dom (jobs u) = {h}" by (simp split: option.splits)
    have "\<exists>x. attempt (log_action m) u = Some (Inr x, u\<lparr>logs := snd (m (logs u))\<rparr>)"
      by (cases "m (logs u)"; cases "fst (m (logs u))") (auto simp: attempt_def log_action_def map_error_def)
    then obtain x where rest: "?rest job x (u\<lparr>logs := snd (m (logs u))\<rparr>) = Some (result, w')"
      using assigned(2) by (auto simp: and_then_def)
    have held: "no_jobs v'" if "maintains same_job n"
      "holding_job job n (u\<lparr>logs := snd (m (logs u))\<rparr>) = Some (y, v')" for n :: "(world, run_outcome) io" and y v'
      by (rule held_job_closed [OF that(1) _ that(2)]) (use open_jobs in \<open>simp add: no_jobs_def split: option.splits\<close>)
    show ?thesis
    proof (cases x)
      case (Inl e)
      have "maintains same_job (and_then (terminate_child (sup_answers S)) (\<lambda>_. raise (Failed e)))"
        by (auto intro!: job_frame.and_then_frame)
      from held [OF this] rest Inl show ?thesis by auto
    next
      case (Inr f)
      have drop: "maintains same_job (drop_pid_file f)"
        unfolding drop_pid_file_def by (auto split: option.splits)
      from rest Inr obtain v where
        "holding_job job (supervise S jid r t0 l k cmd pid f) (u\<lparr>logs := snd (m (logs u))\<rparr>) = Some (result, v)"
        and v: "w' = v \<or> (\<exists>y. drop_pid_file f v = Some (y, w'))"
        by (auto simp: finally_do_eq split: if_splits)
      from held [OF supervise_job this(1)] v show ?thesis
        using maintainsD [OF no_jobs_same [OF drop]] by blast
    qed
  qed
qed

lemma run_once_jobs: "maintains (\<lambda>w w'. no_jobs w \<longrightarrow> no_jobs w') (run_once S jid r)"
proof -
  have "maintains (\<lambda>w w'. no_jobs w \<longrightarrow> no_jobs w')
      (and_then (update (\<lambda>w. w\<lparr>child_pid := Some pid, child_status := None\<rparr>)) (\<lambda>_.
       and_then (assign_job S pid) (\<lambda>job.
       and_then (attempt (log_action m)) (\<lambda>created.
         case created of
           Inl e \<Rightarrow> holding_job job (and_then (terminate_child (sup_answers S)) (\<lambda>_. raise (Failed e)))
         | Inr f \<Rightarrow> finally_do (holding_job job (supervise S jid r t0 l k cmd pid f)) (drop_pid_file f)))))"
    for pid m t0 l k cmd
    unfolding maintains_def using launched_jobs by (fastforce simp: and_then_run no_jobs_def)
  then show ?thesis
    unfolding run_once_def
    by (auto intro!: closing.and_then_frame split: sum.splits prod.splits)
qed

lemma job_handles_closed: "no_jobs w \<Longrightarrow> run S w = Some (result, w') \<Longrightarrow> no_jobs w'"
  using maintainsD [OF closing.run_frame [OF run_once_jobs]] by blast

end
