(* ===== verification/Wire_Packets.thy ===== *)
theory Wire_Packets
  imports Supervisor_Properties Protocol_Framing
begin

section \<open>What is on the wire can be decoded\<close>

text \<open>
  The supervisor and the framing together: every packet an invocation sends is well formed, so
  the peer decodes any stretch of the stream into exactly the packets that were sent.
\<close>

definition well_formed :: "(u8 \<times> string) list \<Rightarrow> bool" where
  "well_formed packets \<longleftrightarrow> list_all (\<lambda>(c, m). packet_ok (packet_text c m)) packets"

definition frame_of :: "u8 \<times> string \<Rightarrow> bytes" where
  "frame_of p = [fst p] @ as_bytes (snd p) @ [0]"

lemma send_well_formed: "send write c m = Inr () \<Longrightarrow> packet_ok (packet_text c m)"
  by (auto simp: send_def write_to_def packet_frame_def packet_ok_def bind_result_eq_Inr split: if_splits)

lemma well_formed_snoc:
  "well_formed (packets @ [(c, m)]) \<longleftrightarrow> well_formed packets \<and> packet_ok (packet_text c m)"
  by (simp add: well_formed_def)

definition wire_typed :: "jvm_run \<Rightarrow> jvm_run \<Rightarrow> bool" where
  "wire_typed w w' \<longleftrightarrow> (well_formed (wire w) \<longrightarrow> well_formed (wire w'))"

interpretation typed: invocation_base wire_typed S for S
  by unfold_locales (auto simp: wire_typed_def)

lemma connection_send_typed: "maintains wire_typed (connection_send S c m)"
  unfolding connection_send_def
  by (auto simp: maintains_def and_then_eq_Some wire_typed_def well_formed_snoc dest: send_well_formed
    split: sum.splits)

interpretation typed: invocation wire_typed S for S
proof unfold_locales
  show "maintains wire_typed (connection_send S c m)" for c m
    by (rule connection_send_typed)
  show "maintains wire_typed (greet S k)" for k
    unfolding greet_def
    by (auto intro!: typed.and_then_frame connection_send_typed typed.connects)
qed

lemma well_formed_frames:
  "well_formed packets \<Longrightarrow>
    list_all2 (\<lambda>p frame. packet_frame p = Inr frame) (map (\<lambda>(c, m). packet_text c m) packets) (map frame_of packets)"
  by (induction packets) (auto simp: well_formed_def packet_ok_frame frame_of_def packet_text_def)

lemma well_formed_part: "well_formed (a @ b @ c) \<Longrightarrow> well_formed b"
  by (simp add: well_formed_def)

text \<open>
  C8. Everything the supervisor sends is decodable: whatever happens in an invocation, each
  packet on the wire is within the size limit and free of the terminating byte, and any
  stretch of the packets sent (so also those of one of several connections) is decoded by the
  peer into exactly these packets, with the decoder idle again at the end.
\<close>

theorem wire_decodes:
  assumes "event_loop S w = Some (r, w')" and "wire w = []" and "wire w' = before @ stretch @ rest"
  shows "feed (concat (map frame_of stretch)) framer_default =
    Inr (framer_default, map (\<lambda>(c, m). packet_text c m) stretch)"
proof -
  from maintainsD [OF typed.event_loop_frame assms(1)] assms(2) have "well_formed (wire w')"
    by (simp add: wire_typed_def well_formed_def)
  with assms(3) have "well_formed stretch" using well_formed_part by simp
  then show ?thesis by (intro feed_frames well_formed_frames)
qed

theorem wire_decodes_witness:
  "\<exists>t w'. event_loop (sample_supervisor greeting_answers) (sample_run 0) = Some (Inr (Outcome_Exited t 0), w')
     \<and> length (wire w') = 4
     \<and> feed (concat (map frame_of (wire w'))) framer_default =
         Inr (framer_default, map (\<lambda>(c, m). packet_text c m) (wire w'))"
proof -
  obtain t w' where ended: "event_loop (sample_supervisor greeting_answers) (sample_run 0) = Some (Inr (Outcome_Exited t 0), w')"
    and "length (wire w') = 4"
    using greeting_loop by auto
  with wire_decodes [OF ended, of "[]" "wire w'" "[]"] show ?thesis by auto
qed

end
