(* ===== verification/Heap_Dump_Properties.thy ===== *)
theory Heap_Dump_Properties
  imports Owned_Files Supervisor_Liveness
begin

section \<open>What the verdict on a heap dump is worth\<close>

text \<open>
  The worker reports a dump as created only for a non-empty file of the reported size, after
  the tool has succeeded; whenever it reports a failure the file is gone. It returns if the
  clock advances and the tool's pipes are closed, and not otherwise: the time limit ends the
  wait for the tool but not the wait for the readers of its pipes.
\<close>

subsection \<open>The disk the worker leaves\<close>

abbreviation disk_of :: "'z world_scheme \<Rightarrow> disk" where
  "disk_of w \<equiv> snd (logs w)"

definition others_kept :: "string \<Rightarrow> 'z world_scheme \<Rightarrow> 'z world_scheme \<Rightarrow> bool" where
  "others_kept path w w' \<longleftrightarrow>
     no_faults (disk_of w') = no_faults (disk_of w) \<and> steps w \<le> steps w'
     \<and> (\<forall>q. q \<noteq> path \<longrightarrow> lookup (disk_of w') q = lookup (disk_of w) q)"

interpretation dump_frame: frame "others_kept path :: 'z world_scheme \<Rightarrow> 'z world_scheme \<Rightarrow> bool" for path
  by unfold_locales (auto simp: others_kept_def)

lemma lookup_filtered: "q \<noteq> p \<Longrightarrow> map_of (filter (\<lambda>e. fst e \<noteq> p) xs) q = map_of xs q"
  by (induction xs) auto

lemma lookup_put_file [simp]:
  "no_faults (put_file p bs d) = no_faults d"
  "q \<noteq> p \<Longrightarrow> lookup (put_file p bs d) q = lookup d q"
  by (auto simp: put_file_def lookup_def set_name_def lookup_filtered no_faults_def split: option.splits)

lemma remove_file_kept:
  assumes "remove_file p d = (r, d')"
  shows "no_faults d' = no_faults d" and "q \<noteq> p \<Longrightarrow> lookup d' q = lookup d q"
  using assms
  by (auto simp: remove_file_def tick_op_def drop_name_def lookup_def lookup_filtered no_faults_def
    split: option.splits if_splits prod.splits)

lemma metadata_length_kept:
  assumes "metadata_length p d = (r, d')"
  shows "no_faults d' = no_faults d" and "lookup d' q = lookup d q" and "file_at d' q = file_at d q"
  using assms
  by (auto simp: metadata_length_def tick_op_def lookup_def file_at_def no_faults_def split: option.splits prod.splits)

lemma dump_calls [intro!]:
  "maintains (others_kept path) (ask f)"
  "maintains (others_kept path) (on_disk (remove_file path))"
  "maintains (others_kept path) (on_disk (metadata_length path))"
  "maintains (others_kept path) (join_readers A)"
  by (auto simp: maintains_def others_kept_def on_disk_def join_readers_def
    dest: remove_file_kept metadata_length_kept split: prod.splits option.splits)

lemma worker_calls [intro!]:
  "maintains (others_kept path) (tool_writes A path)"
  "maintains (others_kept path) (heap_failed path m)"
proof -
  show "maintains (others_kept path) (tool_writes A path)"
    by (auto simp: maintains_def others_kept_def tool_writes_def and_then_def split: option.splits)
  show "maintains (others_kept path) (heap_failed path m)"
    unfolding heap_failed_def by auto
qed

lemma dump_round_kept [intro!]: "maintains (others_kept path) (dump_round A tool path timeout deadline)"
  unfolding dump_round_def by (auto intro!: dump_frame.and_then_frame split: sum.splits option.splits)

lemma dump_verdict_kept [intro!]: "maintains (others_kept path) (dump_verdict A path ec out err)"
  unfolding dump_verdict_def by (auto intro!: dump_frame.and_then_frame split: sum.splits)

lemma run_jcmd_kept: "maintains (others_kept path) (run_jcmd A tool path timeout)"
  unfolding run_jcmd_def
  by (auto intro!: dump_frame.and_then_frame dump_frame.loop_frame split: sum.splits option.splits)

subsection \<open>The verdict\<close>

text \<open>What a completion says of the file of the dump.\<close>

definition accounted :: "string \<Rightarrow> disk \<Rightarrow> heap_completion \<Rightarrow> bool" where
  "accounted path d c \<longleftrightarrow>
     (case c of
       Heap_Created p n \<Rightarrow>
         p = path \<and> (case file_at d path of None \<Rightarrow> False | Some bs \<Rightarrow> bs \<noteq> [] \<and> n = of_nat (length bs))
     | Heap_Failed p m \<Rightarrow> p = path \<and> file_at d path = None)"

lemma heap_failed_accounted:
  assumes "heap_failed path m w = Some (r, w')" and "no_faults (disk_of w)"
  shows "r = Inr (Heap_Failed path m) \<and> accounted path (disk_of w') (Heap_Failed path m)"
  using assms
  by (auto simp: heap_failed_def and_then_def on_disk_def remove_file_def accounted_def file_at_def lookup_def
    drop_name_def map_of_eq_None_iff split: if_splits)

lemma dump_verdict_accounted:
  assumes "dump_verdict A path ec out err w = Some (Inr c, w')" and "no_faults (disk_of w)"
  shows "accounted path (disk_of w') c \<and> (\<forall>p n. c = Heap_Created p n \<longrightarrow> ec = Some 0)"
proof (cases "ec = Some 0")
  case False
  with assms heap_failed_accounted show ?thesis by (fastforce simp: dump_verdict_def)
next
  case True
  obtain s d where w: "logs w = (s, d)" by (cases "logs w")
  obtain r d' where m: "metadata_length path d = (r, d')" by (cases "metadata_length path d")
  let ?v = "w\<lparr>logs := (s, d')\<rparr>"
  have asked: "on_disk (metadata_length path) w = Some (Inr r, ?v)" by (simp add: on_disk_def m w)
  show ?thesis
  proof (cases "\<exists>n. r = Inr n \<and> 0 < n")
    case found: True
    with assms w m True asked show ?thesis
      by (auto simp: dump_verdict_def and_then_def metadata_length_def accounted_def file_at_def split: option.splits)
  next
    case missing: False
    then obtain msg where "heap_failed path msg ?v = Some (Inr c, w')"
      using assms(1) True asked by (auto simp: dump_verdict_def and_then_def split: sum.splits if_splits)
    moreover have "no_faults (disk_of ?v)" using metadata_length_kept [OF m] assms(2) w by simp
    ultimately show ?thesis using heap_failed_accounted by fastforce
  qed
qed

lemma dump_round_accounted:
  assumes "dump_round A tool path timeout deadline w = Some (Inr (Some r), w')" and "no_faults (disk_of w)"
  shows "case r of Inl c \<Rightarrow> accounted path (disk_of w') c \<and> (\<exists>p m. c = Heap_Failed p m)
    | Inr ec \<Rightarrow> \<exists>n. steps w \<le> n \<and> n < steps w' \<and> a_dump_wait A n = Inr (Some ec)"
proof -
  obtain v where v: "tool_writes A path w = Some (Inr (), v)"
    by (cases "a_dump_file A (steps w)") (auto simp: tool_writes_def and_then_def)
  have "others_kept path w v" using worker_calls(1) v by (rule maintainsD)
  with assms(2) have kept: "no_faults (disk_of v)" "steps w \<le> steps v" by (simp_all add: others_kept_def)
  note run = assms(1) [unfolded dump_round_def and_then_run [where m = "tool_writes A path", OF v]]
  show ?thesis
  proof (cases "a_dump_wait A (steps v)")
    case (Inl e)
    with run kept show ?thesis by (auto simp: and_then_eq_Inr dest!: heap_failed_accounted)
  next
    case (Inr answer)
    show ?thesis
    proof (cases answer)
      case None
      with Inr run kept show ?thesis
        by (auto simp: and_then_eq_Inr split: if_splits dest!: heap_failed_accounted)
    next
      case (Some ec)
      with Inr run kept show ?thesis by (auto simp: and_then_eq_Inr intro!: exI [of _ "steps v"])
    qed
  qed
qed

lemma dump_loop_accounted:
  assumes "loop (dump_round A tool path timeout deadline) w = Some (Inr r, w')" and "no_faults (disk_of w)"
  shows "case r of Inl c \<Rightarrow> accounted path (disk_of w') c \<and> (\<exists>p m. c = Heap_Failed p m)
    | Inr ec \<Rightarrow> \<exists>n. steps w \<le> n \<and> n < steps w' \<and> a_dump_wait A n = Inr (Some ec)"
proof -
  have "s = Inr r \<Longrightarrow> no_faults (disk_of w) \<Longrightarrow> ?thesis"
    if "loop (dump_round A tool path timeout deadline) w = Some (s, w')" for s
    using that
  proof (induction rule: loop_induct)
    case (finish w x w')
    then show ?case using dump_round_accounted by fastforce
  next
    case (again w v s w')
    from again.hyps have "others_kept path w v" by (rule maintainsD [OF dump_round_kept])
    then have kept: "no_faults (disk_of v) = no_faults (disk_of w)" "steps w \<le> steps v"
      by (simp_all add: others_kept_def)
    with again.IH again.prems show ?case by (auto split: sum.splits intro: order_trans)
  qed simp
  from this [OF assms(1)] assms(2) show ?thesis by simp
qed



subsection \<open>The worker returns if the pipes are closed\<close>

lemma total_dump_calls [intro!]:
  "always_returns (on_disk m)" "always_returns (heap_failed path msg)" "always_returns (tool_writes A path)"
  "always_returns (dump_verdict A path ec out err)"
  unfolding heap_failed_def tool_writes_def dump_verdict_def
  by (auto simp: always_returns_def on_disk_def and_then_def split: prod.splits option.splits sum.splits)

lemma total_dump_round: "always_returns (dump_round A tool path timeout deadline)"
  unfolding dump_round_def by (auto intro!: total_and_then split: sum.splits option.splits)

lemma dump_round_goes_on:
  assumes "dump_round A tool path timeout deadline w = Some (Inr None, w')"
  shows "\<exists>n. steps w \<le> n \<and> n < steps w' \<and> a_now A n < deadline"
proof -
  obtain v where v: "tool_writes A path w = Some (Inr (), v)"
    by (cases "a_dump_file A (steps w)") (auto simp: tool_writes_def and_then_def)
  have kept: "steps w \<le> steps v" using maintainsD [OF worker_calls(1) v] by (simp add: others_kept_def)
  note run = assms [unfolded dump_round_def and_then_run [where m = "tool_writes A path", OF v]]
  show ?thesis
  proof (cases "a_dump_wait A (steps v)")
    case (Inl e)
    with run show ?thesis by (auto simp: and_then_eq_Inr)
  next
    case (Inr answer)
    with run kept show ?thesis
      by (cases answer) (auto simp: and_then_eq_Inr split: if_splits intro!: exI [of _ "Suc (steps v)"])
  qed
qed

text \<open>
  C10. The heap-dump worker ends: if the clock eventually passes every instant and the readers
  reach the ends of the tool's pipes, the worker returns with a verdict, an error or a panic,
  whatever the tool does and however long it would run.
\<close>

theorem heap_worker_returns:
  assumes "clock_runs A" and pipes: "\<And>n. a_dump_output A n \<noteq> None"
  shows "\<exists>r w'. run_jcmd A tool path timeout w = Some (r, w')"
proof -
  have joins: "always_returns (join_readers A)"
    using pipes by (auto simp: always_returns_def join_readers_def split: option.splits)
  have "always_returns (loop (dump_round A tool path timeout deadline))" for deadline
  proof -
    obtain N where N: "\<forall>n\<ge>N. deadline \<le> a_now A n" using assms(1) unfolding clock_runs_def by blast
    show ?thesis
    proof (rule total_loop [OF total_dump_round, where count = steps and N = N])
      fix w w'
      assume "dump_round A tool path timeout deadline w = Some (Inr None, w')"
      then obtain n where "steps w \<le> n" "n < steps w'" "a_now A n < deadline" using dump_round_goes_on by blast
      with N show "steps w < steps w' \<and> steps w < N" by (meson le_less_trans linorder_not_le order_trans)
    qed
  qed
  with joins have "always_returns (run_jcmd A tool path timeout)"
    unfolding run_jcmd_def by (auto intro!: total_and_then split: sum.splits option.splits)
  then show ?thesis by (auto simp: always_returns_def)
qed

theorem heap_worker_returns_witness:
  "\<exists>r w'. run_jcmd (calm_answers\<lparr>a_dump_wait := \<lambda>_. Inr None\<rparr>) ''jcmd'' ''/d.hprof'' (from_secs 600) sample_world = Some (r, w')"
  by (rule heap_worker_returns) (auto simp: clock_runs_def calm_answers_def)

text \<open>
  The time limit does not bound the worker: once the tool has exited, a pipe that another
  process still holds open keeps it in the join of its readers for ever.
\<close>

lemma heap_worker_waits_for_pipes:
  assumes "a_dump_spawn A (steps w) = None" and "a_now A (Suc (steps w)) + timeout < instant_limit"
    and "\<And>n. a_dump_wait A n = Inr (Some ec)" and "\<And>n. a_dump_output A n = None"
  shows "run_jcmd A tool path timeout w = None"
proof -
  let ?v = "w\<lparr>steps := Suc (Suc (steps w))\<rparr>"
  obtain u where u: "tool_writes A path ?v = Some (Inr (), u)"
    by (cases "a_dump_file A (steps ?v)") (auto simp: tool_writes_def and_then_def)
  have "dump_round A tool path timeout deadline ?v = Some (Inr (Some (Inr ec)), u\<lparr>steps := Suc (steps u)\<rparr>)" for deadline
    unfolding dump_round_def and_then_run [where m = "tool_writes A path", OF u] using assms(3) by (simp add: and_then_def)
  with assms show ?thesis
    by (simp add: run_jcmd_def and_then_def plus_time_small loop.simps [of "dump_round _ _ _ _ _"] join_readers_def)
qed

end
