(* ===== verification/Bridge.thy ===== *)
theory Bridge
  imports Protocol Config
begin

section \<open>The Java bridge: \<open>BackendClient.java\<close> and the handler of \<open>SimpleApp.java\<close>\<close>

text \<open>
  The other end of the control channel, in the supervised JVM. A control thread reads packets
  and calls a handler; the application's threads and the shutdown hook call the methods that
  send. Java's strings are taken as the UTF-8 text they are sent as; of the digits that
  \<open>parseInt\<close> accepts only the ASCII ones are digits here. The properties packet is decoded by
  \<open>load_properties\<close> of \<open>Config\<close>.
\<close>

subsection \<open>Numbers\<close>

text \<open>\<open>String.trim\<close> removes what is not above the space.\<close>

definition java_trim :: "string \<Rightarrow> string" where
  "java_trim s =
     (let low = (\<lambda>c. (of_char c :: nat) \<le> 32) in rev (dropWhile low (rev (dropWhile low s))))"

definition parse_java_int :: "string \<Rightarrow> int \<Rightarrow> int" where
  "parse_java_int value default_value =
     (case parse_i32 (java_trim value) of None \<Rightarrow> default_value | Some n \<Rightarrow> n)"

definition java_long :: "int \<Rightarrow> int" where
  "java_long n = sint (word_of_int n :: 64 word)"

definition parse_long :: "string \<Rightarrow> int option" where
  "parse_long s =
     (if starts_with ''-'' s then
        (case parse_digits (tl s) of
          None \<Rightarrow> None
        | Some n \<Rightarrow> if n \<le> 2 ^ 63 then Some (- int n) else None)
      else map_option int (parse_unsigned (2 ^ 63 - 1) s))"

subsection \<open>The client\<close>

datatype callback = On_Start | On_Stop int | On_Pause | On_Resume | On_Control int

text \<open>
  The fields of \<open>BackendClient\<close>; \<open>socket_open\<close> says that the socket and its streams are there.
  The unfinished packet is kept as in the decoder of the supervisor. \<open>java_writes\<close> counts the
  writes, \<open>sent_packets\<close> are those that reached the socket, and \<open>callbacks\<close> records each call of
  the handler with the level, the log file and the properties that were known then.
\<close>

record bridge =
  bridge_key :: string
  bridge_port :: int
  wrapper_requested_stop :: bool
  abnormal_exit :: bool
  jvm_shutting_down :: bool
  stopped_sent :: bool
  bridge_properties :: "string \<rightharpoonup> string"
  bridge_log_level :: int
  wrapper_log_file :: string
  last_wrapper_packet :: int
  socket_open :: bool
  bridge_framer :: framer
  java_writes :: nat
  sent_packets :: "(u8 \<times> string) list"
  callbacks :: "(callback \<times> int \<times> string \<times> (string \<rightharpoonup> string)) list"

datatype java_exception = Socket_Timeout | Io_Exception string | Runtime_Exception

text \<open>How a piece of Java code ends: normally, by an exception, or by leaving the JVM.\<close>

datatype java_end = Returned | Throws java_exception | Exits int

definition new_bridge :: "string \<Rightarrow> int \<Rightarrow> int \<Rightarrow> bridge" where
  "new_bridge k p millis =
     \<lparr>bridge_key = k, bridge_port = p, wrapper_requested_stop = False, abnormal_exit = False,
      jvm_shutting_down = False, stopped_sent = False, bridge_properties = Map.empty, bridge_log_level = 2,
      wrapper_log_file = [], last_wrapper_packet = millis, socket_open = False, bridge_framer = framer_default,
      java_writes = 0, sent_packets = [], callbacks = []\<rparr>"

definition from_system_properties :: "string \<Rightarrow> string \<Rightarrow> int \<Rightarrow> string + bridge" where
  "from_system_properties configured_key configured_port millis =
     (if configured_key = [] then Inl ''missing system property wrapper.key''
      else
        (case parse_i32 configured_port of
          None \<Rightarrow> Inl ''invalid system property wrapper.port''
        | Some p \<Rightarrow>
            if p < 1 \<or> 65535 < p then Inl ''invalid system property wrapper.port''
            else Inr (new_bridge configured_key p millis)))"

subsection \<open>Sending\<close>

text \<open>
  The outcome of each write is given by its number. The payload is not searched for the byte
  that ends a packet.
\<close>

definition java_frame :: "u8 \<times> string \<Rightarrow> bytes" where
  "java_frame p = [fst p] @ as_bytes (snd p) @ [0]"

definition java_send ::
    "(nat \<Rightarrow> string option) \<Rightarrow> u8 \<Rightarrow> string \<Rightarrow> bridge \<Rightarrow> java_exception option \<times> bridge" where
  "java_send W c m b =
     (if \<not> socket_open b then (Some (Io_Exception ''control socket is not connected''), b)
      else if max_packet_size < length (as_bytes m) then
        (Some (Io_Exception (''control packet exceeds '' @ show_nat max_packet_size @ '' bytes'')), b)
      else
        (case W (java_writes b) of
          Some e \<Rightarrow> (Some (Io_Exception e), b\<lparr>java_writes := Suc (java_writes b)\<rparr>)
        | None \<Rightarrow>
            (None, b\<lparr>java_writes := Suc (java_writes b), sent_packets := sent_packets b @ [(c, m)]\<rparr>)))"

definition send_quietly :: "(nat \<Rightarrow> string option) \<Rightarrow> u8 \<Rightarrow> string \<Rightarrow> bridge \<Rightarrow> bridge" where
  "send_quietly W c m b = snd (java_send W c m b)"

definition connect ::
    "(nat \<Rightarrow> string option) \<Rightarrow> string option \<Rightarrow> bridge \<Rightarrow> java_exception option \<times> bridge" where
  "connect W refused b =
     (case refused of
       Some e \<Rightarrow> (Some (Io_Exception e), b\<lparr>socket_open := False\<rparr>)
     | None \<Rightarrow> java_send W KEY (bridge_key b) (b\<lparr>socket_open := True\<rparr>))"

definition report_started :: "(nat \<Rightarrow> string option) \<Rightarrow> bridge \<Rightarrow> bridge" where
  "report_started W b = send_quietly W STARTED [] b"

definition report_stopped :: "(nat \<Rightarrow> string option) \<Rightarrow> int \<Rightarrow> bridge \<Rightarrow> bridge" where
  "report_stopped W exit_code b =
     (if stopped_sent b then b
      else send_quietly W STOPPED (show_int exit_code) (b\<lparr>stopped_sent := True\<rparr>))"

definition request_stop :: "(nat \<Rightarrow> string option) \<Rightarrow> int \<Rightarrow> bridge \<Rightarrow> bridge" where
  "request_stop W exit_code b = send_quietly W STOP (show_int exit_code) b"

definition request_restart :: "(nat \<Rightarrow> string option) \<Rightarrow> bridge \<Rightarrow> bridge" where
  "request_restart W b = send_quietly W RESTART ''restart'' b"

definition signal_starting :: "(nat \<Rightarrow> string option) \<Rightarrow> int \<Rightarrow> bridge \<Rightarrow> bridge" where
  "signal_starting W hint_millis b = send_quietly W START_PENDING (show_int (max 0 hint_millis)) b"

text \<open>A message that is \<open>null\<close> is \<open>None\<close>.\<close>

definition bridge_log :: "(nat \<Rightarrow> string option) \<Rightarrow> int \<Rightarrow> string option \<Rightarrow> bridge \<Rightarrow> bridge" where
  "bridge_log W level m b =
     (if level < 1 \<or> 8 < level \<or> level < bridge_log_level b then b
      else send_quietly W (LOG_BASE + word_of_int level) (case m of None \<Rightarrow> ''null'' | Some t \<Rightarrow> t) b)"

definition on_jvm_shutdown :: "(nat \<Rightarrow> string option) \<Rightarrow> bridge \<Rightarrow> bridge" where
  "on_jvm_shutdown W b =
     (let b1 = b\<lparr>jvm_shutting_down := True\<rparr>;
          b2 = (if \<not> wrapper_requested_stop b1 \<and> \<not> abnormal_exit b1 then send_quietly W STOP ''0'' b1 else b1)
      in b2\<lparr>socket_open := False\<rparr>)"

text \<open>What the threads of the application and the shutdown hook call.\<close>

datatype bridge_action =
    Report_Started | Report_Stopped int | Request_Stop int | Request_Restart | Signal_Starting int
  | Log int "string option" | Mark_Abnormal_Exit | Jvm_Shutdown

definition act :: "(nat \<Rightarrow> string option) \<Rightarrow> bridge_action \<Rightarrow> bridge \<Rightarrow> bridge" where
  "act W a b =
     (case a of
       Report_Started \<Rightarrow> report_started W b
     | Report_Stopped n \<Rightarrow> report_stopped W n b
     | Request_Stop n \<Rightarrow> request_stop W n b
     | Request_Restart \<Rightarrow> request_restart W b
     | Signal_Starting n \<Rightarrow> signal_starting W n b
     | Log level m \<Rightarrow> bridge_log W level m b
     | Mark_Abnormal_Exit \<Rightarrow> b\<lparr>abnormal_exit := True\<rparr>
     | Jvm_Shutdown \<Rightarrow> on_jvm_shutdown W b)"

subsection \<open>Reading\<close>

text \<open>
  The control thread sees the answers of its reads, each with the time in milliseconds at
  which it comes; between them the other threads act.
\<close>

datatype java_read = Java_Byte u8 | Java_End | Java_Timeout | Java_Broken string

datatype bridge_event = Answer java_read int | Action bridge_action

text \<open>
  \<open>readPacket\<close>: a packet or an exception, with the time and the events that remain; nothing if
  it is still reading when the events run out.
\<close>

fun read_packet ::
    "(nat \<Rightarrow> string option) \<Rightarrow> bridge_event list \<Rightarrow> bridge
      \<Rightarrow> (java_exception + u8 \<times> string) option \<times> int \<times> bridge \<times> bridge_event list" where
  "read_packet W [] b = (None, 0, b, [])"
| "read_packet W (Action a # es) b = read_packet W es (act W a b)"
| "read_packet W (Answer r millis # es) b =
     (case r of
       Java_Byte v \<Rightarrow>
         (let f = bridge_framer b in
          case pending_code f of
            None \<Rightarrow> read_packet W es (b\<lparr>bridge_framer := f\<lparr>pending_code := Some v\<rparr>\<rparr>)
          | Some c \<Rightarrow>
              if v = 0 then
                (Some (Inr (c, utf8_lossy (partial f))), millis,
                 b\<lparr>bridge_framer := f\<lparr>pending_code := None, partial := []\<rparr>\<rparr>, es)
              else if max_packet_size \<le> length (partial f) then
                (Some (Inl (Io_Exception (''control packet exceeds '' @ show_nat max_packet_size @ '' bytes''))),
                 millis, b, es)
              else read_packet W es (b\<lparr>bridge_framer := f\<lparr>partial := partial f @ [v]\<rparr>\<rparr>))
     | Java_End \<Rightarrow> (Some (Inl (Io_Exception ''control socket closed'')), millis, b, es)
     | Java_Timeout \<Rightarrow> (Some (Inl Socket_Timeout), millis, b, es)
     | Java_Broken e \<Rightarrow> (Some (Inl (Io_Exception e)), millis, b, es))"

definition next_packet ::
    "(nat \<Rightarrow> string option) \<Rightarrow> bridge_event list \<Rightarrow> bridge
      \<Rightarrow> (java_exception + u8 \<times> string) option \<times> int \<times> bridge \<times> bridge_event list" where
  "next_packet W es b =
     (if \<not> socket_open b then (Some (Inl (Io_Exception ''control socket is not connected'')), 0, b, es)
      else read_packet W es b)"

lemma read_packet_shrinks: "read_packet W es b = (Some r, millis, b', es') \<Longrightarrow> length es' < length es"
proof (induction es arbitrary: b)
  case (Cons e es)
  show ?case
  proof (cases e)
    case (Action a)
    with Cons.prems Cons.IH [of "act W a b"] show ?thesis by simp
  next
    case (Answer x t)
    consider "es' = es" | b1 where "read_packet W es b1 = (Some r, millis, b', es')"
      using Cons.prems Answer
      by (cases x; cases "pending_code (bridge_framer b)") (auto simp: Let_def split: if_splits)
    then show ?thesis
    proof cases
      case 2
      with Cons.IH [of b1] show ?thesis by simp
    qed simp
  qed
qed simp

subsection \<open>The control loop\<close>

definition long_property :: "(string \<rightharpoonup> string) \<Rightarrow> string \<Rightarrow> int \<Rightarrow> int" where
  "long_property props name default_value =
     (case props name of
       None \<Rightarrow> default_value
     | Some v \<Rightarrow> (case parse_long (java_trim v) of None \<Rightarrow> default_value | Some n \<Rightarrow> n))"

definition ping_timeout_millis :: "(string \<rightharpoonup> string) \<Rightarrow> int" where
  "ping_timeout_millis props =
     (let timeout_seconds = long_property props ''wrapper.ping.timeout'' 30;
          interval_seconds = long_property props ''wrapper.ping.interval'' 5
      in if timeout_seconds \<le> 0 then 0
         else java_long (java_long (timeout_seconds + max interval_seconds 1) * 1000))"

definition ping_timed_out :: "int \<Rightarrow> bridge \<Rightarrow> bool" where
  "ping_timed_out millis b \<longleftrightarrow>
     (let timeout = ping_timeout_millis (bridge_properties b)
      in 0 < timeout \<and> timeout < java_long (millis - last_wrapper_packet b))"

text \<open>
  A handler reacts to a callback, knowing those before it, by what it calls and by how it
  ends.
\<close>

type_synonym handler = "callback list \<Rightarrow> callback \<Rightarrow> bridge_action list \<times> java_end"

definition call_back :: "(nat \<Rightarrow> string option) \<Rightarrow> handler \<Rightarrow> callback \<Rightarrow> bridge \<Rightarrow> java_end \<times> bridge" where
  "call_back W H cb b =
     (case H (map fst (callbacks b)) cb of (actions, r) \<Rightarrow>
       (r, fold (act W) actions
          (b\<lparr>callbacks := callbacks b
               @ [(cb, bridge_log_level b, wrapper_log_file b, bridge_properties b)]\<rparr>)))"

definition handle_wrapper_packet ::
    "(nat \<Rightarrow> string option) \<Rightarrow> handler \<Rightarrow> u8 \<times> string \<Rightarrow> bridge \<Rightarrow> java_end \<times> bridge" where
  "handle_wrapper_packet W H p b =
     (case p of (c, m) \<Rightarrow>
       if c = START then call_back W H On_Start b
       else if c = STOP then
         call_back W H (On_Stop (parse_java_int m 0)) (b\<lparr>wrapper_requested_stop := True\<rparr>)
       else if c = PING then
         (case java_send W PING m b of
           (None, b') \<Rightarrow> (Returned, b')
         | (Some e, b') \<Rightarrow> (Throws e, b'))
       else if c = LOW_LOG_LEVEL then (Returned, b\<lparr>bridge_log_level := parse_java_int m 2\<rparr>)
       else if c = LOGFILE then (Returned, b\<lparr>wrapper_log_file := m\<rparr>)
       else if c = PROPERTIES then (Returned, b\<lparr>bridge_properties := load_properties m\<rparr>)
       else if c = PAUSE then call_back W H On_Pause b
       else if c = RESUME then call_back W H On_Resume b
       else if c = SERVICE_CONTROL then call_back W H (On_Control (parse_java_int m 0)) b
       else if c = GC then (Returned, b)
       else if c = BAD_KEY then
         (Throws (Io_Exception ''the wrapper rejected the control channel key''), b\<lparr>abnormal_exit := True\<rparr>)
       else (Returned, b))"

text \<open>Nothing if the loop is still running when the events run out.\<close>

function control_loop ::
    "(nat \<Rightarrow> string option) \<Rightarrow> handler \<Rightarrow> bridge_event list \<Rightarrow> bridge \<Rightarrow> java_end option \<times> bridge" where
  "control_loop W H es b =
     (if wrapper_requested_stop b then (Some Returned, b)
      else
        (case next_packet W es b of
          (None, millis, b1, es1) \<Rightarrow> (None, b1)
        | (Some (Inl Socket_Timeout), millis, b1, es1) \<Rightarrow>
            if wrapper_requested_stop b1 \<or> jvm_shutting_down b1 then (Some Returned, b1)
            else if ping_timed_out millis b1 then
              (Some (Throws (Io_Exception (''no packet from the wrapper for ''
                 @ show_int (ping_timeout_millis (bridge_properties b1) div 1000) @ '' seconds''))),
               b1\<lparr>abnormal_exit := True\<rparr>)
            else control_loop W H es1 b1
        | (Some (Inl e), millis, b1, es1) \<Rightarrow> (Some (Throws e), b1)
        | (Some (Inr p), millis, b1, es1) \<Rightarrow>
            (case handle_wrapper_packet W H p (b1\<lparr>last_wrapper_packet := millis\<rparr>) of
              (Returned, b2) \<Rightarrow> control_loop W H es1 b2
            | (r, b2) \<Rightarrow> (Some r, b2))))"
  by pat_completeness auto
termination
  by (relation "measure (\<lambda>(W, H, es, b). length es)")
    (auto simp: next_packet_def dest!: read_packet_shrinks [OF sym] split: if_splits)

declare control_loop.simps [simp del]

text \<open>
  The body of the control thread. Leaving the JVM runs the shutdown hook, unless
  \<open>wrapper.disable_shutdown_hook\<close> is set.
\<close>

definition exit_jvm :: "(nat \<Rightarrow> string option) \<Rightarrow> bool \<Rightarrow> int \<Rightarrow> bridge \<Rightarrow> java_end \<times> bridge" where
  "exit_jvm W hook n b = (Exits n, if hook then on_jvm_shutdown W b else b)"

definition control_thread ::
    "(nat \<Rightarrow> string option) \<Rightarrow> handler \<Rightarrow> bool \<Rightarrow> bridge_event list \<Rightarrow> bridge \<Rightarrow> java_end option \<times> bridge" where
  "control_thread W H hook es b =
     (case control_loop W H es b of
       (None, b') \<Rightarrow> (None, b')
     | (Some Returned, b') \<Rightarrow> (Some Returned, b')
     | (Some (Exits n), b') \<Rightarrow> (case exit_jvm W hook n b' of (r, b2) \<Rightarrow> (Some r, b2))
     | (Some (Throws Runtime_Exception), b') \<Rightarrow>
         if jvm_shutting_down b' then (Some Returned, b')
         else (case exit_jvm W hook 1 (b'\<lparr>abnormal_exit := True\<rparr>) of (r, b2) \<Rightarrow> (Some r, b2))
     | (Some (Throws e), b') \<Rightarrow>
         if wrapper_requested_stop b' \<or> jvm_shutting_down b' then (Some Returned, b')
         else (case exit_jvm W hook 1 (b'\<lparr>abnormal_exit := True\<rparr>) of (r, b2) \<Rightarrow> (Some r, b2)))"

subsection \<open>The handler of \<open>SimpleApp\<close>\<close>

text \<open>The first start runs the application's \<open>main\<close> on a thread of its own.\<close>

definition simple_app :: handler where
  "simple_app earlier cb =
     (case cb of
       On_Start \<Rightarrow> (if On_Start \<in> set earlier then ([], Returned) else ([Report_Started], Returned))
     | On_Stop n \<Rightarrow> ([Report_Stopped n], Exits n)
     | _ \<Rightarrow> ([], Returned))"

end
