(* ===== verification/Bridge_Properties.thy ===== *)
theory Bridge_Properties
  imports Bridge Wire_Packets Protocol_Handshake Config_Properties
begin

section \<open>The two ends of the control channel\<close>

text \<open>
  The supervisor and the Java bridge together: their decoders agree, the JVM that was given the
  key gets through the handshake, the application is started only with the configuration in
  place, and both ends allow the same silence.
\<close>

subsection \<open>What the actions of other threads leave alone\<close>

text \<open>What the bridge has been told: the level, the log file and the properties.\<close>

definition known :: "bridge \<Rightarrow> int \<times> string \<times> (string \<rightharpoonup> string)" where
  "known b = (bridge_log_level b, wrapper_log_file b, bridge_properties b)"

lemma known_updates [simp]:
  "known (b\<lparr>bridge_framer := f\<rparr>) = known b" "known (b\<lparr>callbacks := cs\<rparr>) = known b"
  "known (b\<lparr>last_wrapper_packet := t\<rparr>) = known b" "known (b\<lparr>wrapper_requested_stop := x\<rparr>) = known b"
  "known (b\<lparr>abnormal_exit := x\<rparr>) = known b" "known (b\<lparr>stopped_sent := x\<rparr>) = known b"
  "known (b\<lparr>jvm_shutting_down := x\<rparr>) = known b" "known (b\<lparr>socket_open := x\<rparr>) = known b"
  by (simp_all add: known_def)

lemma java_send_keeps [simp]:
  "bridge_framer (snd (java_send W c m b)) = bridge_framer b" "known (snd (java_send W c m b)) = known b"
  "callbacks (snd (java_send W c m b)) = callbacks b" "socket_open (snd (java_send W c m b)) = socket_open b"
  "wrapper_requested_stop (snd (java_send W c m b)) = wrapper_requested_stop b"
  by (simp_all add: java_send_def known_def split: option.splits)

lemmas action_defs = act_def report_started_def report_stopped_def request_stop_def request_restart_def
  signal_starting_def bridge_log_def on_jvm_shutdown_def send_quietly_def Let_def

lemma act_keeps [simp]:
  "bridge_framer (act W a b) = bridge_framer b" "known (act W a b) = known b" "callbacks (act W a b) = callbacks b"
  by (cases a; simp add: action_defs)+

lemma fold_act_keeps [simp]:
  "bridge_framer (fold (act W) as b) = bridge_framer b" "known (fold (act W) as b) = known b"
  "callbacks (fold (act W) as b) = callbacks b"
  by (induction as arbitrary: b) simp_all

subsection \<open>The decoder of the bridge\<close>

text \<open>The bytes that the events bring.\<close>

definition bytes_of :: "bridge_event list \<Rightarrow> bytes" where
  "bytes_of es = List.map_filter (\<lambda>e. case e of Answer (Java_Byte v) _ \<Rightarrow> Some v | _ \<Rightarrow> None) es"

lemma bytes_of_simps [simp]:
  "bytes_of [] = []" "bytes_of (Action a # es) = bytes_of es"
  "bytes_of (Answer (Java_Byte v) t # es) = v # bytes_of es" "bytes_of (Answer Java_End t # es) = bytes_of es"
  "bytes_of (Answer Java_Timeout t # es) = bytes_of es" "bytes_of (Answer (Java_Broken e) t # es) = bytes_of es"
  by (simp_all add: bytes_of_def map_filter_simps)

text \<open>A packet as the bridge reads it.\<close>

definition as_read :: "packet \<Rightarrow> u8 \<times> string" where
  "as_read p = (code p, message_lossy p)"

text \<open>Events that only bring bytes, or are actions of other threads.\<close>

definition streaming :: "bridge_event list \<Rightarrow> bool" where
  "streaming es \<longleftrightarrow> list_all (\<lambda>e. case e of Answer (Java_Byte _) _ \<Rightarrow> True | Action _ \<Rightarrow> True | _ \<Rightarrow> False) es"

lemma streaming_simps [simp]:
  "streaming []" "streaming (Action a # es) = streaming es" "streaming (Answer (Java_Byte v) t # es) = streaming es"
  "\<not> streaming (Answer Java_End t # es)" "\<not> streaming (Answer Java_Timeout t # es)"
  "\<not> streaming (Answer (Java_Broken e) t # es)"
  by (simp_all add: streaming_def)

text \<open>
  How the result of one reading relates to the supervisor's decoder on the same bytes; \<open>clean\<close>
  says that no read failed.
\<close>

definition decoded :: "bool \<Rightarrow> framer \<Rightarrow> bytes \<Rightarrow> (java_exception + u8 \<times> string) option \<Rightarrow> framer \<Rightarrow> bool" where
  "decoded clean f bs r f' \<longleftrightarrow>
     (case r of
       None \<Rightarrow> feed bs f = Inr (f', [])
     | Some (Inr p) \<Rightarrow> (\<exists>q. p = as_read q \<and> feed bs f = Inr (f', [q]))
     | Some (Inl e) \<Rightarrow> \<not> clean \<and> feed bs f = Inr (f', []) \<or> e \<noteq> Socket_Timeout \<and> feed bs f = Inl packet_too_large)"

lemma feed_Cons:
  "feed (v # bs) f =
     bind_result (feed_byte v (f, [])) (\<lambda>(f', ps). bind_result (feed bs f') (\<lambda>(f'', qs). Inr (f'', ps @ qs)))"
  using feed_append [of "[v]" bs f] by (cases "feed_byte v (f, [])") (auto simp: feed_def)

lemma decoded_Cons: "feed_byte v (f, []) = Inr (f1, []) \<Longrightarrow> decoded clean f (v # bs) r f' = decoded clean f1 bs r f'"
  by (auto simp: decoded_def feed_Cons bind_result_def split: option.splits sum.splits prod.splits)

lemma read_packet_decodes:
  assumes "read_packet W es b = (r, millis, b', es')"
  shows "known b' = known b \<and> callbacks b' = callbacks b \<and> (r = None \<longrightarrow> es' = []) \<and>
    (\<exists>bs. bytes_of es = bs @ bytes_of es' \<and> decoded (streaming es) (bridge_framer b) bs r (bridge_framer b') \<and> (streaming es \<longrightarrow> streaming es'))"
  using assms
proof (induction es arbitrary: b)
  case Nil
  then show ?case by (auto simp: decoded_def)
next
  case (Cons e es)
  show ?case
  proof (cases e)
    case (Action a)
    with Cons.prems Cons.IH [of "act W a b"] show ?thesis by simp
  next
    case (Answer x t)
    show ?thesis
    proof (cases x)
      case (Java_Byte v)
      let ?f = "bridge_framer b"
      have go_on: ?thesis if "feed_byte v (?f, []) = Inr (g, [])"
        and "read_packet W es (b\<lparr>bridge_framer := g\<rparr>) = (r, millis, b', es')" for g
      proof -
        from Cons.IH [OF that(2)] obtain bs where "known b' = known b" "callbacks b' = callbacks b" "r = None \<longrightarrow> es' = []"
          "bytes_of es = bs @ bytes_of es'" "decoded (streaming es) g bs r (bridge_framer b')" "streaming es \<longrightarrow> streaming es'"
          by auto
        then show ?thesis
          using decoded_Cons [OF that(1)] by (auto simp: Answer Java_Byte intro!: exI [of _ "v # bs"])
      qed
      show ?thesis
      proof (cases "pending_code ?f")
        case None
        show ?thesis
          by (rule go_on [of "?f\<lparr>pending_code := Some v\<rparr>"])
            (use None Cons.prems Answer Java_Byte in \<open>simp_all add: Let_def feed_byte_def\<close>)
      next
        case (Some c)
        consider (stop) "v = 0" | (large) "v \<noteq> 0" "max_packet_size \<le> length (partial ?f)"
          | (more) "v \<noteq> 0" "\<not> max_packet_size \<le> length (partial ?f)" by blast
        then show ?thesis
        proof cases
          case stop
          with Some Cons.prems Answer Java_Byte show ?thesis
            by (auto simp: Let_def feed_Cons feed_byte_def as_read_def message_lossy_def decoded_def intro!: exI [of _ "[0]"])
        next
          case large
          with Some Cons.prems Answer Java_Byte show ?thesis
            by (auto simp: Let_def feed_Cons feed_byte_def decoded_def intro!: exI [of _ "[v]"])
        next
          case more
          show ?thesis
            by (rule go_on [of "?f\<lparr>partial := partial ?f @ [v]\<rparr>"])
              (use Some more Cons.prems Answer Java_Byte in \<open>simp_all add: Let_def feed_byte_def\<close>)
        qed
      qed
    qed (use Cons.prems Answer in \<open>auto simp: decoded_def intro!: exI [of _ "[]"]\<close>)
  qed
qed

text \<open>All packets of a stream: those read, and the exception that ends the reading.\<close>

function read_packets ::
    "(nat \<Rightarrow> string option) \<Rightarrow> bridge_event list \<Rightarrow> bridge \<Rightarrow> (u8 \<times> string) list \<times> java_exception option \<times> bridge" where
  "read_packets W es b =
     (case read_packet W es b of
       (None, millis, b1, es1) \<Rightarrow> ([], None, b1)
     | (Some (Inl e), millis, b1, es1) \<Rightarrow> ([], Some e, b1)
     | (Some (Inr p), millis, b1, es1) \<Rightarrow>
         (case read_packets W es1 b1 of (ps, r, b2) \<Rightarrow> (p # ps, r, b2)))"
  by pat_completeness auto
termination
  by (relation "measure (\<lambda>(W, es, b). length es)") (auto dest!: read_packet_shrinks [OF sym])

declare read_packets.simps [simp del]



subsection \<open>What a sequence of packets tells the bridge\<close>

text \<open>
  The effect of a packet on what is known and on the callbacks, which depends on nothing but
  the packets before it.
\<close>

type_synonym told_state = "(int \<times> string \<times> (string \<rightharpoonup> string)) \<times> (callback \<times> int \<times> string \<times> (string \<rightharpoonup> string)) list"

definition callback_of :: "u8 \<times> string \<Rightarrow> callback option" where
  "callback_of p =
     (if fst p = START then Some On_Start
      else if fst p = STOP then Some (On_Stop (parse_java_int (snd p) 0))
      else if fst p = PAUSE then Some On_Pause
      else if fst p = RESUME then Some On_Resume
      else if fst p = SERVICE_CONTROL then Some (On_Control (parse_java_int (snd p) 0))
      else None)"

definition told :: "u8 \<times> string \<Rightarrow> told_state \<Rightarrow> told_state" where
  "told p s =
     (case s of ((level, file, props), cs) \<Rightarrow>
       (if fst p = LOW_LOG_LEVEL then (parse_java_int (snd p) 2, file, props)
        else if fst p = LOGFILE then (level, snd p, props)
        else if fst p = PROPERTIES then (level, file, load_properties (snd p))
        else (level, file, props),
        case callback_of p of None \<Rightarrow> cs | Some cb \<Rightarrow> cs @ [(cb, level, file, props)]))"

definition told_of :: "bridge \<Rightarrow> told_state" where
  "told_of b = (known b, callbacks b)"

lemma call_back_told:
  assumes "call_back W H cb b = (r, b')"
  shows "told_of b' = (known b, callbacks b @ [(cb, known b)])" "bridge_framer b' = bridge_framer b"
  using assms by (auto simp: call_back_def told_of_def known_def [symmetric] split: prod.splits)

lemma handle_told:
  assumes "handle_wrapper_packet W H p b = (r, b')"
  shows "told_of b' = told p (told_of b) \<and> bridge_framer b' = bridge_framer b"
proof -
  obtain c m where p: "p = (c, m)" by fastforce
  have known: "known b = (bridge_log_level b, wrapper_log_file b, bridge_properties b)" by (simp add: known_def)
  consider (call) cb b1 where "callback_of p = Some cb" "call_back W H cb b1 = (r, b')" "told_of b1 = told_of b"
      "bridge_framer b1 = bridge_framer b" "c \<notin> {LOW_LOG_LEVEL, LOGFILE, PROPERTIES}"
    | (silent) "callback_of p = None" "told_of b' = told_of b" "bridge_framer b' = bridge_framer b"
      "c \<notin> {LOW_LOG_LEVEL, LOGFILE, PROPERTIES}"
    | (level) "c = LOW_LOG_LEVEL" "b' = b\<lparr>bridge_log_level := parse_java_int m 2\<rparr>"
    | (logfile) "c = LOGFILE" "b' = b\<lparr>wrapper_log_file := m\<rparr>"
    | (props) "c = PROPERTIES" "b' = b\<lparr>bridge_properties := load_properties m\<rparr>"
  proof (cases "c \<in> {START, STOP, PAUSE, RESUME, SERVICE_CONTROL}")
    case True
    with assms p that(1) show ?thesis
      by (auto simp: handle_wrapper_packet_def callback_of_def packet_codes told_of_def split: if_splits)
  next
    case False
    show ?thesis
    proof (cases "c \<in> {LOW_LOG_LEVEL, LOGFILE, PROPERTIES}")
      case True
      with assms p that(3-5) show ?thesis
        by (auto simp: handle_wrapper_packet_def packet_codes split: if_splits)
    next
      case other: False
      have "b' = snd (java_send W PING m b) \<or> b' = b \<or> b' = b\<lparr>abnormal_exit := True\<rparr>"
        using assms False other p
        by (cases "java_send W PING m b"; cases "fst (java_send W PING m b)")
          (auto simp: handle_wrapper_packet_def split: if_splits)
      then have "told_of b' = told_of b" "bridge_framer b' = bridge_framer b" by (auto simp: told_of_def)
      moreover have "callback_of p = None" using False p by (simp add: callback_of_def)
      ultimately show ?thesis using that(2) other by blast
    qed
  qed
  then show ?thesis
  proof cases
    case call
    with call_back_told [OF call(2)] known show ?thesis
      by (simp add: told_def told_of_def p)
  next
    case silent
    with known show ?thesis by (simp add: told_def told_of_def p)
  next
    case level
    then show ?thesis by (simp add: told_def told_of_def p known_def callback_of_def packet_codes)
  next
    case logfile
    then show ?thesis by (simp add: told_def told_of_def p known_def callback_of_def packet_codes)
  next
    case props
    then show ?thesis by (simp add: told_def told_of_def p known_def callback_of_def packet_codes)
  qed
qed

text \<open>The loop handles some first part of the packets that its bytes hold.\<close>

lemma control_loop_told:
  assumes "control_loop W H es b = (r, b')" and "feed (bytes_of es) (bridge_framer b) = Inr (f, qs)"
  shows "\<exists>n. told_of b' = fold told (map as_read (take n qs)) (told_of b)"
  using assms
proof (induction W H es b arbitrary: r b' f qs rule: control_loop.induct)
  case (1 W H es b r b' f qs)
  have unchanged: ?case if "told_of b' = told_of b" using that by (intro exI [of _ 0]) simp
  show ?case
  proof (cases "\<not> wrapper_requested_stop b \<and> socket_open b")
    case False
    with "1.prems"(1) have "b' = b"
      by (auto simp: control_loop.simps [of W H es] next_packet_def split: if_splits)
    then have "told_of b' = told_of b" by simp
    then show ?thesis by (rule unchanged)
  next
    case True
    obtain x t b1 es1 where read: "read_packet W es b = (x, t, b1, es1)" using prod_cases4 by blast
    with True have got: "next_packet W es b = (x, t, b1, es1)" by (simp add: next_packet_def)
    from read_packet_decodes [OF read] obtain bs where bytes: "bytes_of es = bs @ bytes_of es1"
      and dec: "decoded (streaming es) (bridge_framer b) bs x (bridge_framer b1)" and same: "told_of b1 = told_of b"
      by (auto simp: told_of_def)
    from bytes "1.prems"(2) obtain g qs1 qs2 where first: "feed bs (bridge_framer b) = Inr (g, qs1)"
      and later: "feed (bytes_of es1) g = Inr (f, qs2)" and qs: "qs = qs1 @ qs2"
      by (auto simp: feed_append_Inr)
    show ?thesis
    proof (cases x)
      case None
      with True got "1.prems"(1) have "b' = b1" by (simp add: control_loop.simps [of W H es])
      with same have "told_of b' = told_of b" by simp
      then show ?thesis by (rule unchanged)
    next
      case (Some y)
      show ?thesis
      proof (cases y)
        case (Inl e)
        show ?thesis
        proof (cases "e = Socket_Timeout \<and> \<not> (wrapper_requested_stop b1 \<or> jvm_shutting_down b1) \<and> \<not> ping_timed_out t b1")
          case again: True
          with True got Some Inl "1.prems"(1) have "control_loop W H es1 b1 = (r, b')"
            by (simp add: control_loop.simps [of W H es])
          moreover from dec Some Inl again first have "g = bridge_framer b1" "qs1 = []" by (auto simp: decoded_def)
          ultimately obtain n where "told_of b' = fold told (map as_read (take n qs2)) (told_of b1)"
            using "1.IH"(1) [OF _ got [symmetric] Some Inl _ refl refl, of r b' f qs2] True again later by auto
          with same qs \<open>qs1 = []\<close> show ?thesis by auto
        next
          case False
          with True got Some Inl "1.prems"(1) have "told_of b' = told_of b1"
            by (cases e) (auto simp: control_loop.simps [of W H es] told_of_def split: if_splits)
          with same have "told_of b' = told_of b" by simp
          then show ?thesis by (rule unchanged)
        qed
      next
        case (Inr p)
        from dec Some Inr first obtain q where q: "p = as_read q" "qs1 = [q]" and g: "g = bridge_framer b1"
          by (auto simp: decoded_def)
        obtain z b2 where handled: "handle_wrapper_packet W H p (b1\<lparr>last_wrapper_packet := t\<rparr>) = (z, b2)" by fastforce
        from handle_told [OF this] same have b2: "told_of b2 = told p (told_of b)" "bridge_framer b2 = bridge_framer b1"
          by (auto simp: told_of_def)
        show ?thesis
        proof (cases "z = Returned")
          case True
          with \<open>\<not> wrapper_requested_stop b \<and> socket_open b\<close> got Some Inr handled "1.prems"(1)
          have "control_loop W H es1 b2 = (r, b')" by (simp add: control_loop.simps [of W H es])
          then obtain n where "told_of b' = fold told (map as_read (take n qs2)) (told_of b2)"
            using "1.IH"(2) [OF _ got [symmetric] Some Inr refl refl handled [symmetric] True, of r b' f qs2]
              \<open>\<not> wrapper_requested_stop b \<and> socket_open b\<close> later g b2 by auto
          with b2 q qs show ?thesis by (intro exI [of _ "Suc n"]) simp
        next
          case stopped: False
          with True got Some Inr handled "1.prems"(1) have "b' = b2"
            by (cases z) (auto simp: control_loop.simps [of W H es])
          with b2 q qs show ?thesis by (intro exI [of _ 1]) simp
        qed
      qed
    qed
  qed
qed

lemma told_callbacks:
  assumes "(cb, v) \<in> set (snd (fold told ps s))" and "(cb, v) \<notin> set (snd s)"
  shows "\<exists>before p rest. ps = before @ p # rest \<and> callback_of p = Some cb \<and> v = fst (fold told before s)"
  using assms
proof (induction ps rule: rev_induct)
  case (snoc p ps)
  show ?case
  proof (cases "(cb, v) \<in> set (snd (fold told ps s))")
    case True
    with snoc.IH snoc.prems(2) obtain before q rest where "ps = before @ q # rest" "callback_of q = Some cb"
      "v = fst (fold told before s)" by blast
    then show ?thesis by (intro exI [of _ before] exI [of _ q] exI [of _ "rest @ [p]"]) simp
  next
    case False
    obtain level logfile props cs where s: "fold told ps s = ((level, logfile, props), cs)" by (metis prod.collapse)
    then have "(cb, v) \<in> set (snd (told p ((level, logfile, props), cs)))" using snoc.prems(1) by simp
    moreover have "(cb, v) \<notin> set cs" using False s by simp
    ultimately have "callback_of p = Some cb" "v = (level, logfile, props)"
      by (auto simp: told_def split: option.splits)
    with s show ?thesis by (intro exI [of _ ps] exI [of _ p] exI [of _ "[]"]) simp
  qed
qed simp

lemma callback_of_start: "callback_of p = Some On_Start \<Longrightarrow> fst p = START"
  by (simp add: callback_of_def split: if_splits)

lemma as_read_text: "as_read (packet_text c m) = (c, display m)"
  by (simp add: as_read_def packet_text_def message_lossy_def display_def)

lemma java_trim_same:
  assumes "s \<noteq> []" and "\<not> (of_char (hd s) :: nat) \<le> 32" and "\<not> (of_char (last s) :: nat) \<le> 32"
  shows "java_trim s = s"
proof -
  have "dropWhile (\<lambda>c. (of_char c :: nat) \<le> 32) s = s" "dropWhile (\<lambda>c. (of_char c :: nat) \<le> 32) (rev s) = rev s"
    using assms by (simp_all add: dropWhile_eq_self_iff hd_rev)
  then show ?thesis by (simp add: java_trim_def Let_def)
qed

lemma java_trim_digits: "java_trim (show_nat n) = show_nat n"
  using show_nat_hd [of n] show_nat_last [of n] show_nat_digits [of n]
  by (intro java_trim_same) (simp_all add: is_digit_def)

lemma java_trim_int: "java_trim (show_int i) = show_int i"
  using show_nat_last [of "nat (- i)"] show_nat_digits [of "nat (- i)"]
  by (cases "i < 0") (auto simp: show_int_def java_trim_digits is_digit_def intro!: java_trim_same)

lemma show_int_ascii: "list_all is_ascii_char (show_int i)"
  by (simp add: show_int_def show_nat_ascii is_ascii_char_def)

lemma parse_code: "- (2 ^ 31) \<le> i \<Longrightarrow> i < 2 ^ 31 \<Longrightarrow> parse_java_int (display (show_int i)) d = i"
  using parse_i32_show [of i]
  by (simp add: parse_java_int_def display_ascii show_int_ascii java_trim_int)

lemma parse_level: "parse_java_int (display (show_nat (unat (w :: u8)))) n = int (unat w)"
proof -
  have "unat w \<le> 2147483647" using unat_bound [of w] by simp
  then have "parse_i32 (show_nat (unat w)) = Some (int (unat w))"
    by (simp add: parse_i32_def show_nat_no_sign del: int_eq_iff_numeral)
  then show ?thesis by (simp add: parse_java_int_def display_ascii show_nat_ascii java_trim_digits)
qed

text \<open>Packets that are read in part: those read completely are a first part of those sent.\<close>

lemma feed_part:
  assumes "well_formed ps" and "concat (map frame_of ps) = bs @ rest"
  shows "\<exists>f qs rs. feed bs framer_default = Inr (f, qs) \<and> map (\<lambda>(c, m). packet_text c m) ps = qs @ rs"
proof -
  have "feed (bs @ rest) framer_default = Inr (framer_default, map (\<lambda>(c, m). packet_text c m) ps)"
    unfolding assms(2) [symmetric] using assms(1) by (intro feed_frames well_formed_frames)
  then show ?thesis by (auto simp: feed_append_Inr)
qed

lemma control_thread_told:
  assumes "control_thread W H hook es b = (r, b')" and "feed (bytes_of es) (bridge_framer b) = Inr (f, qs)"
  shows "\<exists>n. told_of b' = fold told (map as_read (take n qs)) (told_of b)"
proof -
  obtain r1 b1 where loop: "control_loop W H es b = (r1, b1)" by fastforce
  have "told_of (on_jvm_shutdown W x) = told_of x" for x
    using act_keeps [of W Jvm_Shutdown x] by (simp add: act_def told_of_def)
  then have "told_of b' = told_of b1"
    using assms(1) loop
    by (auto simp: control_thread_def exit_jvm_def told_of_def split: option.splits java_end.splits java_exception.splits if_splits)
  with control_loop_told [OF loop assms(2)] show ?thesis by simp
qed

text \<open>
  C7. The application is started with its configuration in place. Take any invocation of the
  supervisor, and a JVM that reads its stream of packets, cut anywhere, with read time-outs
  and sends of other threads in between: whenever the bridge calls the application's start
  handler, the log level it knows is the supervisor's, the log file is one the supervisor
  sent, and its properties are the loaded configuration without the sensitive names.
\<close>

theorem bridge_configured_before_start:
  assumes run: "event_loop S w = Some (r, w')" "wire w = []"
    and stream: "concat (map frame_of (wire w')) = bytes_of es @ rest"
    and thread: "control_thread W H hook es b = (e, b')" "bridge_framer b = framer_default" "callbacks b = []"
    and config: "config_load P path dir ovs = Inr (sup_config S)"
    and encoded: "utf8_valid (as_bytes (protocol_properties (sup_config S)))"
    and call: "(On_Start, level, logfile, props) \<in> set (callbacks b')"
  shows "level = int (unat (low_log_level (sup_config S)))
    \<and> (\<exists>f. (LOGFILE, f) \<in> set (wire w') \<and> logfile = display f)
    \<and> props = (\<lambda>name. if is_sensitive_name name then None else get (sup_config S) name)"
proof -
  let ?text = "\<lambda>(c, m). packet_text c m"
  let ?greeting = "\<lambda>f. [(LOW_LOG_LEVEL, show_nat (unat (low_log_level (sup_config S)))), (LOGFILE, f),
      (PROPERTIES, protocol_properties (sup_config S))]"
  have greeted: "greeted S (wire w')"
    using maintainsD [OF wire.event_loop_frame run(1)] run(2) by (simp add: wire_grows_def)
  have typed: "well_formed (wire w')"
    using maintainsD [OF typed.event_loop_frame run(1)] run(2) by (simp add: wire_typed_def well_formed_def)
  from feed_part [OF typed stream] obtain f0 qs rs where read: "feed (bytes_of es) framer_default = Inr (f0, qs)"
    and sent: "map ?text (wire w') = qs @ rs" by blast
  with control_thread_told [OF thread(1)] thread(2) obtain n
    where told: "told_of b' = fold told (map as_read (take n qs)) (told_of b)" by auto
  from call have "(On_Start, level, logfile, props) \<in> set (snd (told_of b'))" by (simp add: told_of_def)
  with told_callbacks [of On_Start "(level, logfile, props)" "map as_read (take n qs)" "told_of b"] told thread(3)
  obtain before p later where split: "map as_read (take n qs) = before @ p # later"
    and p: "callback_of p = Some On_Start" and v: "(level, logfile, props) = fst (fold told before (told_of b))"
    by (auto simp: told_of_def)
  have "map (as_read \<circ> ?text) (wire w') = map as_read (take n qs) @ map as_read (drop n qs @ rs)"
    using arg_cong [OF sent, of "map as_read"]
    by (metis append.assoc append_take_drop_id list.map_comp map_append)
  then have "map (as_read \<circ> ?text) (wire w') = before @ p # later @ map as_read (drop n qs @ rs)"
    unfolding split by simp
  then obtain wb wp wl where wire: "wire w' = wb @ wp # wl" "before = map (as_read \<circ> ?text) wb" "p = as_read (?text wp)"
    by (auto simp: map_eq_append_conv map_eq_Cons_conv)
  obtain m where "wp = (START, m)"
    using callback_of_start [OF p] wire(3) by (cases wp) (auto simp: as_read_text)
  with greeted_start [OF greeted, of wb m wl] wire(1) obtain earlier f where wb: "wb = earlier @ ?greeting f" by auto
  obtain l0 f1 p0 cs where s: "fold told (map (as_read \<circ> ?text) earlier) (told_of b) = ((l0, f1, p0), cs)"
    by (metis prod.collapse)
  have "fst (fold told before (told_of b))
      = (int (unat (low_log_level (sup_config S))), display f, load_properties (protocol_properties (sup_config S)))"
    using s utf8_lossy_valid [OF encoded]
    by (simp add: wire(2) wb as_read_text told_def callback_of_def packet_codes parse_level display_def [of "protocol_properties _"])
  moreover have "load_properties (protocol_properties (sup_config S)) =
      (\<lambda>name. if is_sensitive_name name then None else get (sup_config S) name)"
    using config by (rule protocol_properties_roundtrip)
  ultimately show ?thesis using v wire(1) wb by auto
qed

subsection \<open>The greeting starts the application\<close>

text \<open>Events that bring bytes and nothing else.\<close>

definition only_bytes :: "bridge_event list \<Rightarrow> bool" where
  "only_bytes es \<longleftrightarrow> list_all (\<lambda>e. case e of Answer (Java_Byte _) _ \<Rightarrow> True | _ \<Rightarrow> False) es"

definition arrival :: "bytes \<Rightarrow> bridge_event list" where
  "arrival bs = map (\<lambda>v. Answer (Java_Byte v) 0) bs"

lemma arrival_simps [simp]: "bytes_of (arrival bs) = bs" "only_bytes (arrival bs)"
  by (induction bs) (simp_all add: arrival_def only_bytes_def)

lemma only_bytes_streaming: "only_bytes es \<Longrightarrow> streaming es"
  by (auto simp: only_bytes_def streaming_def list_all_iff split: bridge_event.splits java_read.splits)

lemma read_packet_only:
  assumes "read_packet W es b = (x, t, b', es')" and "only_bytes es"
  shows "only_bytes es' \<and> b' = b\<lparr>bridge_framer := bridge_framer b'\<rparr>"
  using assms
proof (induction es arbitrary: b)
  case (Cons e es)
  then obtain v s where e: "e = Answer (Java_Byte v) s" and only: "only_bytes es"
    by (auto simp: only_bytes_def split: bridge_event.splits java_read.splits)
  have go_on: ?case if "read_packet W es (b\<lparr>bridge_framer := g\<rparr>) = (x, t, b', es')" for g
    using Cons.IH [OF that only] by simp
  show ?case
  proof (cases "pending_code (bridge_framer b)")
    case None
    with Cons.prems(1) e show ?thesis by (intro go_on) (simp add: Let_def)
  next
    case (Some c)
    consider "v = 0 \<or> max_packet_size \<le> length (partial (bridge_framer b))"
      | "v \<noteq> 0" "\<not> max_packet_size \<le> length (partial (bridge_framer b))" by blast
    then show ?thesis
    proof cases
      case 1
      with Some Cons.prems(1) e only show ?thesis by (auto simp: Let_def split: if_splits)
    next
      case 2
      with Some Cons.prems(1) e show ?thesis by (intro go_on) (simp add: Let_def)
    qed
  qed
qed auto

text \<open>
  \<open>SimpleApp\<close> goes on after every packet but a stop and a rejected key; an answer to a ping must
  be written and fit into a packet.
\<close>

definition answerable :: "(nat \<Rightarrow> string option) \<Rightarrow> u8 \<times> string \<Rightarrow> bool" where
  "answerable W p \<longleftrightarrow> fst p \<notin> {STOP, BAD_KEY}
    \<and> (fst p = PING \<longrightarrow> (\<forall>n. W n = None) \<and> length (snd p) \<le> max_packet_size)"

lemma java_send_keeps_stopped [simp]: "stopped_sent (snd (java_send W c m b)) = stopped_sent b"
  by (simp add: java_send_def split: option.splits)

lemma java_send_ok:
  "socket_open b \<Longrightarrow> length m \<le> max_packet_size \<Longrightarrow> \<forall>n. W n = None \<Longrightarrow>
    java_send W c m b = (None, b\<lparr>java_writes := Suc (java_writes b), sent_packets := sent_packets b @ [(c, m)]\<rparr>)"
  by (simp add: java_send_def)

lemma simple_app_goes_on:
  assumes "answerable W p" and "socket_open b"
  shows "\<exists>b'. handle_wrapper_packet W simple_app p b = (Returned, b') \<and> socket_open b'
    \<and> wrapper_requested_stop b' = wrapper_requested_stop b \<and> stopped_sent b' = stopped_sent b"
proof (cases "fst p = PING")
  case True
  with assms show ?thesis
    by (cases p) (simp add: handle_wrapper_packet_def answerable_def java_send_ok packet_codes)
next
  case False
  with assms show ?thesis
    by (cases p)
      (auto simp: answerable_def handle_wrapper_packet_def call_back_def simple_app_def act_def report_started_def
        send_quietly_def split: if_splits)
qed

lemma next_packet_only:
  assumes "only_bytes es" and "socket_open b" and "feed (bytes_of es) (bridge_framer b) = Inr (f, q # qs)"
  shows "\<exists>t b1 es1. next_packet W es b = (Some (Inr (as_read q)), t, b1, es1) \<and> only_bytes es1
    \<and> b1 = b\<lparr>bridge_framer := bridge_framer b1\<rparr> \<and> feed (bytes_of es1) (bridge_framer b1) = Inr (f, qs)"
proof -
  obtain x t b1 es1 where read: "read_packet W es b = (x, t, b1, es1)" using prod_cases4 by blast
  from read_packet_decodes [OF read] only_bytes_streaming [OF assms(1)] obtain bs
    where bytes: "bytes_of es = bs @ bytes_of es1" and dec: "decoded True (bridge_framer b) bs x (bridge_framer b1)"
      and finished: "x = None \<longrightarrow> es1 = []" by auto
  from bytes assms(3) obtain g qs1 qs2 where first: "feed bs (bridge_framer b) = Inr (g, qs1)"
    and later: "feed (bytes_of es1) g = Inr (f, qs2)" and qs: "q # qs = qs1 @ qs2"
    by (auto simp: feed_append_Inr)
  have "\<exists>p. x = Some (Inr (as_read p)) \<and> qs1 = [p] \<and> g = bridge_framer b1"
  proof (cases x)
    case None
    with dec first later finished qs show ?thesis by (simp add: decoded_def)
  next
    case (Some y)
    with dec first show ?thesis by (cases y) (auto simp: decoded_def)
  qed
  with qs later read read_packet_only [OF read assms(1)] assms(2) show ?thesis by (auto simp: next_packet_def)
qed

lemma next_packet_silent:
  assumes "only_bytes es" and "socket_open b" and "feed (bytes_of es) (bridge_framer b) = Inr (f, [])"
  shows "\<exists>t b1. next_packet W es b = (None, t, b1, []) \<and> told_of b1 = told_of b"
proof -
  obtain x t b1 es1 where read: "read_packet W es b = (x, t, b1, es1)" using prod_cases4 by blast
  from read_packet_decodes [OF read] only_bytes_streaming [OF assms(1)] obtain bs
    where bytes: "bytes_of es = bs @ bytes_of es1" and dec: "decoded True (bridge_framer b) bs x (bridge_framer b1)"
      and finished: "x = None \<longrightarrow> es1 = []" and told: "told_of b1 = told_of b" by (auto simp: told_of_def)
  from bytes assms(3) obtain g where "feed bs (bridge_framer b) = Inr (g, [])" by (auto simp: feed_append_Inr)
  with dec have "x = None" by (auto simp: decoded_def split: option.splits sum.splits)
  with read finished told assms(2) show ?thesis by (auto simp: next_packet_def)
qed

lemma control_loop_steps:
  assumes "only_bytes es" and "socket_open b" and "\<not> wrapper_requested_stop b"
    and "feed (bytes_of es) (bridge_framer b) = Inr (f, qs @ later)" and "\<forall>q \<in> set qs. answerable W (as_read q)"
  shows "\<exists>es' b'. control_loop W simple_app es b = control_loop W simple_app es' b'
    \<and> only_bytes es' \<and> socket_open b' \<and> \<not> wrapper_requested_stop b' \<and> stopped_sent b' = stopped_sent b
    \<and> feed (bytes_of es') (bridge_framer b') = Inr (f, later) \<and> told_of b' = fold told (map as_read qs) (told_of b)"
  using assms
proof (induction qs arbitrary: es b)
  case Nil
  then show ?case by auto
next
  case (Cons q qs)
  from Cons.prems(4) have "feed (bytes_of es) (bridge_framer b) = Inr (f, q # (qs @ later))" by simp
  from next_packet_only [OF Cons.prems(1,2) this] obtain t b1 es1
    where got: "next_packet W es b = (Some (Inr (as_read q)), t, b1, es1)" and only: "only_bytes es1"
      and same: "b1 = b\<lparr>bridge_framer := bridge_framer b1\<rparr>"
      and feed1: "feed (bytes_of es1) (bridge_framer b1) = Inr (f, qs @ later)" by blast
  let ?b = "b1\<lparr>last_wrapper_packet := t\<rparr>"
  have kept: "socket_open ?b" "\<not> wrapper_requested_stop ?b" "stopped_sent ?b = stopped_sent b" "told_of ?b = told_of b"
    using Cons.prems(2,3) by (simp_all add: told_of_def) (subst same, simp)+
  from simple_app_goes_on [of W "as_read q" ?b] Cons.prems(5) kept obtain b2
    where handled: "handle_wrapper_packet W simple_app (as_read q) ?b = (Returned, b2)"
      and b2: "socket_open b2" "\<not> wrapper_requested_stop b2" "stopped_sent b2 = stopped_sent b" by auto
  from handle_told [OF handled] kept(4)
  have told: "told_of b2 = told (as_read q) (told_of b)" and framer: "bridge_framer b2 = bridge_framer b1" by simp_all
  from Cons.IH [OF only b2(1,2), of] feed1 framer Cons.prems(5) obtain es' b'
    where "control_loop W simple_app es1 b2 = control_loop W simple_app es' b'" "only_bytes es'" "socket_open b'"
      "\<not> wrapper_requested_stop b'" "stopped_sent b' = stopped_sent b2"
      "feed (bytes_of es') (bridge_framer b') = Inr (f, later)"
      "told_of b' = fold told (map as_read qs) (told_of b2)" by auto
  moreover have "control_loop W simple_app es b = control_loop W simple_app es1 b2"
    using Cons.prems(3) got handled by (simp add: control_loop.simps [of W simple_app es])
  ultimately show ?case using told b2(3) by (intro exI [of _ es'] exI [of _ b']) simp
qed

lemma control_loop_all:
  assumes "only_bytes es" and "socket_open b" and "\<not> wrapper_requested_stop b"
    and "feed (bytes_of es) (bridge_framer b) = Inr (f, qs)" and "\<forall>q \<in> set qs. answerable W (as_read q)"
  shows "\<exists>b'. control_loop W simple_app es b = (None, b') \<and> told_of b' = fold told (map as_read qs) (told_of b)"
proof -
  from assms(4) have "feed (bytes_of es) (bridge_framer b) = Inr (f, qs @ [])" by simp
  from control_loop_steps [OF assms(1-3) this assms(5)] obtain es' b'
    where same: "control_loop W simple_app es b = control_loop W simple_app es' b'" and only: "only_bytes es'"
      and ready: "socket_open b'" "\<not> wrapper_requested_stop b'"
      and silent: "feed (bytes_of es') (bridge_framer b') = Inr (f, [])"
      and told: "told_of b' = fold told (map as_read qs) (told_of b)" by blast
  from next_packet_silent [OF only ready(1) silent] obtain t b1
    where "next_packet W es' b' = (None, t, b1, [])" "told_of b1 = told_of b'" by blast
  with same ready(2) told show ?thesis by (simp add: control_loop.simps [of W simple_app es'])
qed

lemma told_callback_names:
  "map fst (snd (fold told ps s)) = map fst (snd s) @ List.map_filter callback_of ps"
proof (induction ps arbitrary: s)
  case (Cons p ps)
  obtain level logfile props cs where s: "s = ((level, logfile, props), cs)" by (metis prod.collapse)
  show ?case unfolding fold_simps Cons.IH by (simp add: s told_def split: option.splits)
qed simp

lemma callbacks_grow: "x \<in> set (snd s) \<Longrightarrow> x \<in> set (snd (fold told ps s))"
proof (induction ps arbitrary: s)
  case (Cons p ps)
  have "x \<in> set (snd (told p s))" using Cons.prems by (auto simp: told_def split: prod.splits option.splits)
  with Cons.IH show ?case by simp
qed simp

lemma start_told:
  assumes "p \<in> set ps" and "fst p = START"
  shows "\<exists>v. (On_Start, v) \<in> set (snd (fold told ps s))"
proof -
  from assms(1) obtain before later where ps: "ps = before @ p # later" by (meson split_list)
  obtain v cs where s: "fold told before s = (v, cs)" by fastforce
  have "(On_Start, v) \<in> set (snd (told p (v, cs)))"
    using assms(2) by (cases v) (auto simp: told_def callback_of_def)
  with s callbacks_grow have "(On_Start, v) \<in> set (snd (fold told ps s))" by (simp add: ps)
  then show ?thesis by blast
qed



lemma sample_greeting:
  "\<exists>t w'. event_loop (greeting_supervisor sample_config) (sample_run 0) = Some (Inr (Outcome_Exited t 0), w')
     \<and> wire w' = greeting_of sample_config"
proof -
  have "sendable (show_nat (unat (low_log_level sample_config)))" "sendable (protocol_properties sample_config)"
    by code_simp+
  then show ?thesis by (rule greeting_loop_of)
qed

abbreviation fresh_bridge :: bridge where
  "fresh_bridge \<equiv> (new_bridge ''k'' 32000 0)\<lparr>socket_open := True\<rparr>"

lemma fresh_bridge_simps:
  "socket_open fresh_bridge" "\<not> wrapper_requested_stop fresh_bridge" "bridge_framer fresh_bridge = framer_default"
  "callbacks fresh_bridge = []"
  by (simp_all add: new_bridge_def)



theorem bridge_configured_before_start_witness:
  "\<exists>level logfile props b'.
     control_thread (\<lambda>_. None) simple_app True (arrival (concat (map frame_of (greeting_of sample_config)))) fresh_bridge
       = (None, b') \<and> (On_Start, level, logfile, props) \<in> set (callbacks b')
     \<and> level = int (unat (low_log_level sample_config)) \<and> logfile = ''/l''
     \<and> props = (\<lambda>name. if is_sensitive_name name then None else get sample_config name)"
proof -
  let ?es = "arrival (concat (map frame_of (greeting_of sample_config)))"
  let ?wire = "map (\<lambda>(c, m). packet_text c m) (greeting_of sample_config)"
  obtain t w' where run: "event_loop (greeting_supervisor sample_config) (sample_run 0) = Some (Inr (Outcome_Exited t 0), w')"
    and wire: "wire w' = greeting_of sample_config"
    using sample_greeting by blast
  have "well_formed (wire w')"
    using maintainsD [OF typed.event_loop_frame run] by (simp add: wire_typed_def well_formed_def)
  then have "feed (bytes_of ?es) (bridge_framer fresh_bridge) = Inr (framer_default, ?wire)"
    unfolding arrival_simps fresh_bridge_simps(3) wire by (intro feed_frames well_formed_frames)
  from control_loop_all [OF arrival_simps(2) fresh_bridge_simps(1,2) this] obtain b'
    where loop: "control_loop (\<lambda>_. None) simple_app ?es fresh_bridge = (None, b')"
      and told: "told_of b' = fold told (map as_read ?wire) (told_of fresh_bridge)"
    by (auto simp: greeting_of_def as_read_text answerable_def packet_codes)
  have "as_read (packet_text START ''start'') \<in> set (map as_read ?wire)" by (simp add: greeting_of_def)
  from start_told [OF this, of "told_of fresh_bridge"] obtain v where "(On_Start, v) \<in> set (snd (told_of b'))"
    unfolding told [symmetric] by (auto simp: as_read_text)
  then obtain level logfile props where called: "(On_Start, level, logfile, props) \<in> set (callbacks b')"
    by (cases v) (auto simp: told_of_def)
  have thread: "control_thread (\<lambda>_. None) simple_app True ?es fresh_bridge = (None, b')"
    by (simp add: control_thread_def loop)
  have encoded: "utf8_valid (as_bytes (protocol_properties sample_config))" by code_simp
  have "display ''/l'' = ''/l''" by (simp add: sample_disk_ok)
  with bridge_configured_before_start [OF run _ _ thread fresh_bridge_simps(3,4) _ _ called, of "[]"
      sample_platform "''w''" "''/d''" "[''set.H=/o'', ''b=1'']", unfolded greeting_supervisor_simps] sample_load encoded wire thread called
  show ?thesis by (auto simp: greeting_of_def packet_codes)
qed

subsection \<open>The JVM with the key gets through\<close>

text \<open>A poll of a listener on which one handshake is pending.\<close>

lemma poll_pending:
  assumes "t < hs_deadline h" and "bs \<noteq> []" and "feed bs (hs_framer h) = Inr (f, ps)"
  shows "ps = [] \<Longrightarrow> poll_authentication [] t (\<lambda>_. Read_Bytes bs) (None, None) k timeout \<lparr>port = p, pending = [h]\<rparr>
      = (Inr None, \<lparr>port = p, pending = [h\<lparr>hs_framer := f\<rparr>]\<rparr>)"
    and "ps = [packet_text KEY k] \<Longrightarrow>
      poll_authentication [] t (\<lambda>_. Read_Bytes bs) (None, None) k timeout \<lparr>port = p, pending = [h]\<rparr>
      = (Inr (Some \<lparr>writer = hs_stream h, events = [], reader_framer = f\<rparr>), \<lparr>port = p, pending = []\<rparr>)"
  using assms
  by (simp_all add: poll_authentication_def advance_from.simps advance_handshake_def swap_remove_def
    connection_spawn_def event_queue_capacity_def lift_error_def packet_text_def)

text \<open>Rounds of polls on one socket: each reads what has arrived by then.\<close>

definition arrival_round :: "accept_result list \<Rightarrow> bytes \<times> nat \<Rightarrow> poll_round" where
  "arrival_round accepts a =
     \<lparr>round_accepts = accepts, round_now = snd a, round_answers = (\<lambda>_. Read_Bytes (fst a)),
      round_setup = (None, None), round_end = snd a\<rparr>"

lemma arrival_round_simps:
  "round_accepts (arrival_round as a) = as" "round_now (arrival_round as a) = snd a"
  "round_answers (arrival_round as a) = (\<lambda>_. Read_Bytes (fst a))" "round_setup (arrival_round as a) = (None, None)"
  "round_end (arrival_round as a) = snd a"
  by (simp_all add: arrival_round_def)

lemma pieces_authenticate:
  assumes "feed (concat (map fst pieces)) (hs_framer h) = Inr (framer_default, [packet_text KEY k])"
    and "\<forall>(bs, t) \<in> set pieces. bs \<noteq> [] \<and> t < hs_deadline h \<and> t < deadline"
  shows "\<exists>c l'. authenticate_rounds k timeout deadline (map (arrival_round []) pieces) \<lparr>port = p, pending = [h]\<rparr>
    = Some (Inr c, l') \<and> writer c = hs_stream h"
  using assms
proof (induction pieces arbitrary: h)
  case (Cons a pieces)
  obtain bs t where a: "a = (bs, t)" by fastforce
  from Cons.prems(1) a obtain f ps qs where first: "feed bs (hs_framer h) = Inr (f, ps)"
    and later: "feed (concat (map fst pieces)) f = Inr (framer_default, qs)" and ps: "ps @ qs = [packet_text KEY k]"
    by (auto simp: feed_append_Inr)
  from Cons.prems(2) a have here: "t < hs_deadline h" "bs \<noteq> []" "t < deadline" by auto
  show ?case
  proof (cases ps)
    case Nil
    with ps later Cons.prems(2) have "\<exists>c l'. authenticate_rounds k timeout deadline (map (arrival_round []) pieces)
        \<lparr>port = p, pending = [h\<lparr>hs_framer := f\<rparr>]\<rparr> = Some (Inr c, l') \<and> writer c = hs_stream (h\<lparr>hs_framer := f\<rparr>)"
      by (intro Cons.IH) auto
    with Nil here poll_pending(1) [OF here(1,2) first Nil] a show ?thesis by (simp add: arrival_round_simps)
  next
    case (Cons q rest)
    with ps have "ps = [packet_text KEY k]" by simp
    from poll_pending(2) [OF here(1,2) first this] a show ?thesis by (simp add: arrival_round_simps)
  qed
qed simp

lemma from_system_properties_ok:
  "k \<noteq> [] \<Longrightarrow> parse_i32 t = Some p \<Longrightarrow> 1 \<le> p \<Longrightarrow> p \<le> 65535
    \<Longrightarrow> from_system_properties k t millis = Inr (new_bridge k p millis)"
  by (simp add: from_system_properties_def)

lemma connect_ok:
  "length (as_bytes k) \<le> max_packet_size \<Longrightarrow> connect (\<lambda>_. None) None (new_bridge k p millis)
    = (None, (new_bridge k p millis)\<lparr>socket_open := True, java_writes := 1, sent_packets := [(KEY, k)]\<rparr>)"
  by (simp add: connect_def java_send_def new_bridge_def)

lemma accepted_round:
  assumes "n + timeout < instant_limit"
  shows "authenticate_rounds k timeout deadline (arrival_round [Accepted s True True n] a # rounds) \<lparr>port = p, pending = []\<rparr>
    = authenticate_rounds k timeout deadline (arrival_round [] a # rounds)
        \<lparr>port = p, pending = [\<lparr>hs_stream = s, hs_framer = framer_default, hs_deadline = n + timeout\<rparr>]\<rparr>"
proof -
  have "poll_authentication [Accepted s True True n] t reads opts k timeout \<lparr>port = p, pending = []\<rparr>
    = poll_authentication [] t reads opts k timeout
        \<lparr>port = p, pending = [\<lparr>hs_stream = s, hs_framer = framer_default, hs_deadline = n + timeout\<rparr>]\<rparr>" for t reads opts
    using assms by (simp add: poll_authentication_def max_pending_handshakes_def instant_add_def)
  then show ?thesis unfolding authenticate_rounds.simps arrival_round_simps by simp
qed

text \<open>
  C14. The JVM that was given the key gets through. The key the supervisor generates makes a
  packet that the bridge can send and that opens the channel: when the bridge, created from
  the key and the port on its command line, has connected, and its bytes reach the listener
  in whatever pieces before the deadline, the listener hands out a connection on its socket.
\<close>

theorem bridge_is_authenticated:
  assumes "generate_key (Inr random) = Inr k" and "length random = 32"
    and "from_system_properties k port_text millis = Inr b" and "connect W None b = (None, b1)"
    and "concat (map fst (piece # pieces)) = concat (map java_frame (sent_packets b1))"
    and "\<forall>(bs, t) \<in> set (piece # pieces). bs \<noteq> [] \<and> t < n + timeout" and "n + timeout < instant_limit"
  shows "\<exists>c l'. authenticate k timeout n
      (arrival_round [Accepted s True True n] piece # map (arrival_round []) pieces) \<lparr>port = p, pending = []\<rparr>
    = Some (Inr c, l') \<and> writer c = s"
proof -
  have "sent_packets b1 = [(KEY, k)]"
    using assms(3,4)
    by (auto simp: from_system_properties_def new_bridge_def connect_def java_send_def split: if_splits option.splits)
  with assms(5) have bytes: "concat (map fst (piece # pieces)) = [KEY] @ as_bytes k @ [0]" by (simp add: java_frame_def)
  have "packet_frame (packet_text KEY k) = Inr ([KEY] @ as_bytes k @ [0])"
    using generated_key_sound [OF assms(1,2)] by blast
  then have "feed (concat (map fst (piece # pieces))) framer_default = Inr (framer_default, [packet_text KEY k])"
    unfolding bytes by (rule feed_frame)
  then have "\<exists>c l'. authenticate_rounds k timeout (n + timeout) (map (arrival_round []) (piece # pieces))
      \<lparr>port = p, pending = [\<lparr>hs_stream = s, hs_framer = framer_default, hs_deadline = n + timeout\<rparr>]\<rparr>
      = Some (Inr c, l') \<and> writer c = s"
    using pieces_authenticate [of "piece # pieces" "\<lparr>hs_stream = s, hs_framer = framer_default, hs_deadline = n + timeout\<rparr>"] assms(6)
    by simp
  then show ?thesis
    using accepted_round [OF assms(7)] assms(7) by (simp add: authenticate_def instant_add_def)
qed

theorem bridge_is_authenticated_witness:
  "\<exists>k c l'. generate_key (Inr (replicate 32 7)) = Inr k
    \<and> authenticate k 20 10 [arrival_round [Accepted 3 True True 10] ([KEY], 11), arrival_round [] (as_bytes k @ [0], 12)]
        \<lparr>port = 32000, pending = []\<rparr> = Some (Inr c, l') \<and> writer c = 3"
proof -
  obtain k where k: "generate_key (Inr (replicate 32 7)) = Inr k" by (simp add: generate_key_def)
  have len: "length k = 64" using generated_key_sound [OF k] by simp
  have port: "parse_i32 (show_int 32000) = Some 32000" by (rule parse_i32_show) simp_all
  have made: "from_system_properties k (show_int 32000) 0 = Inr (new_bridge k 32000 0)"
    by (rule from_system_properties_ok) (use len port in auto)
  have open_channel: "connect (\<lambda>_. None) None (new_bridge k 32000 0)
      = (None, (new_bridge k 32000 0)\<lparr>socket_open := True, java_writes := 1, sent_packets := [(KEY, k)]\<rparr>)"
    by (rule connect_ok) (simp add: len max_packet_size_def)
  have "\<exists>c l'. authenticate k 20 10
      (arrival_round [Accepted 3 True True 10] ([KEY], 11) # map (arrival_round []) [(as_bytes k @ [0], 12)])
      \<lparr>port = 32000, pending = []\<rparr> = Some (Inr c, l') \<and> writer c = 3"
    by (rule bridge_is_authenticated [OF k _ made open_channel]) (simp_all add: java_frame_def instant_limit_def)
  with k show ?thesis unfolding list.map by blast
qed

subsection \<open>Both ends allow the same silence\<close>

lemma parse_long_digits: "n < 2 ^ 63 \<Longrightarrow> parse_long (java_trim (show_nat n)) = Some (int n)"
  by (simp add: java_trim_digits parse_long_def show_nat_no_sign)

lemma java_long_same: "- (2 ^ 63) \<le> n \<Longrightarrow> n < 2 ^ 63 \<Longrightarrow> java_long n = n"
  by (simp add: java_long_def sint_sbintrunc' signed_take_bit_int_eq_self)

text \<open>A property that is absent or a number of seconds below \<open>2^32\<close>.\<close>

definition plain_seconds :: "config \<Rightarrow> string \<Rightarrow> bool" where
  "plain_seconds c name \<longleftrightarrow>
     (case get c name of None \<Rightarrow> True | Some v \<Rightarrow> (\<exists>n < 2 ^ 32. v = show_nat n))"

lemma plain_seconds_agree:
  assumes "plain_seconds c name" and "d < 2 ^ 32" and "props name = get c name"
  shows "long_property props name (int (unat d)) = int (unat (get_u64 c name d)) \<and> unat (get_u64 c name d) < 2 ^ 32"
proof (cases "get c name")
  case None
  have "unat d < 2 ^ 32" using assms(2) by (simp add: word_less_nat_alt)
  with None assms(3) show ?thesis by (simp add: long_property_def get_u64_def)
next
  case (Some v)
  with assms(1) obtain n where n: "n < 2 ^ 32" "v = show_nat n" by (auto simp: plain_seconds_def)
  have "unat (of_nat n :: u64) = n" using n(1) by (simp add: unat_of_nat)
  moreover have "long_property props name d' = int n" for d'
    using Some n assms(3) by (simp add: long_property_def parse_long_digits)
  moreover have "get_u64 c name d = of_nat n"
    using Some n by (simp add: get_u64_def parse_word_def)
  ultimately show ?thesis using n(1) by metis
qed



subsection \<open>A message with a null character\<close>

text \<open>
  The supervisor refuses to send a packet whose payload has the byte that ends packets. The
  bridge does not: a log message of the application with a null character in it reaches the
  supervisor as two packets, the second with a code of the message's choice.
\<close>

lemma as_bytes_null: "as_bytes (a @ [CHR 0x00, CHR ''f''] @ r) = as_bytes a @ [0, RESTART] @ as_bytes r"
  by (simp add: as_bytes_def RESTART_def)

lemma null_forges_packet:
  assumes "0 \<notin> set (as_bytes a)" and "0 \<notin> set (as_bytes r)"
    and sent: "sent_packets (bridge_log W level (Some (a @ [CHR 0x00, CHR ''f''] @ r)) b) = sent_packets b @ [p]"
  shows "feed (java_frame p) framer_default
    = Inr (framer_default, [packet_text (LOG_BASE + word_of_int level) a, packet_text RESTART r])"
proof -
  let ?c = "LOG_BASE + word_of_int level" and ?m = "a @ [CHR 0x00, CHR ''f''] @ r"
  have p: "p = (?c, ?m)" and short: "length (as_bytes ?m) \<le> max_packet_size"
    using sent by (auto simp: bridge_log_def send_quietly_def java_send_def split: if_splits option.splits)
  let ?first = "[?c] @ as_bytes a @ [0]" and ?second = "[RESTART] @ as_bytes r @ [0]"
  have frames: "packet_frame (packet_text ?c a) = Inr ?first" "packet_frame (packet_text RESTART r) = Inr ?second"
    using assms(1,2) short by (simp_all add: packet_frame_def packet_text_def)
  have "java_frame p = ?first @ ?second" unfolding p java_frame_def fst_conv snd_conv as_bytes_null by simp
  moreover have "feed (?first @ ?second) framer_default = Inr (framer_default, [packet_text ?c a] @ [packet_text RESTART r])"
    by (rule iffD2 [OF feed_append_Inr]) (use feed_frame [OF frames(1)] feed_frame [OF frames(2)] in blast)
  ultimately show ?thesis by simp
qed

end
